theory Spec2Isabelle
  imports Complex_Main
begin

section \<open>Data model\<close>

text \<open>
  The program is numerical Python on \<open>numpy\<close> arrays of \<open>float64\<close>. The embedding
  idealises floating-point numbers as \<^typ>\<open>real\<close>: a one-dimensional array is a list
  of reals, a two-dimensional array is the list of its rows. Exceptions are values of
  the type \<open>error\<close>, returned on the left of a sum.
\<close>

type_synonym vec = "real list"
type_synonym mat = "real list list"

datatype error =
    InputError string
  | TypeError
  | ValueError
  | IndexError

text \<open>
  A sample owns a data frame (column names and one row of values per configuration),
  the lambdified reduced potential (a function of one row), the effective sample size
  \<open>neff\<close> and the block size \<open>b\<close>.
\<close>

record dataset =
  df_columns :: "string list"
  df_rows :: "real list list"

record sample =
  sample_dataset :: dataset
  sample_potential :: "real list \<Rightarrow> real"
  sample_neff :: real
  sample_b :: nat

text \<open>
  The attributes of \<open>self\<close>, set by \<open>mixture.__init__\<close> (\<open>m\<close>, \<open>n\<close>, \<open>neff\<close>,
  \<open>names\<close>, \<open>u\<close>, \<open>f\<close>) and by \<open>MICS.__init__\<close> (the others). An attribute that is
  not set yet is an empty list.
\<close>

record mixture =
  self_m :: nat
  self_n :: "nat list"
  self_neff :: vec
  self_names :: "string list"
  self_u :: "mat list"
  self_f :: vec
  self_b :: "nat list"
  self_pi :: vec
  self_P :: "mat list"
  self_pm :: "vec list"
  self_u0 :: "vec list"
  self_p0 :: vec
  self_iB0 :: mat
  self_Sp0 :: mat
  self_Theta :: mat
  self_Overlap :: mat

section \<open>Python and numpy primitives\<close>

text \<open>Indexing one axis of size \<open>n\<close> with a Python integer: negative indices count
  from the end, anything else out of range raises \<open>IndexError\<close>.\<close>

definition py_index :: "nat \<Rightarrow> int \<Rightarrow> error + nat" where
  "py_index n i =
     (let j = (if i < 0 then int n + i else i)
      in if 0 \<le> j \<and> j < int n then Inr (nat j) else Inl IndexError)"

definition nrows :: "mat \<Rightarrow> nat" where
  "nrows A = length A"

definition ncols :: "mat \<Rightarrow> nat" where
  "ncols A = (case A of [] \<Rightarrow> 0 | r # _ \<Rightarrow> length r)"

text \<open>\<open>np.diag(T)\<close> of a two-dimensional array: its main diagonal.\<close>

definition diag_of :: "mat \<Rightarrow> vec" where
  "diag_of T = map (\<lambda>k. T ! k ! k) [0..<min (nrows T) (ncols T)]"

text \<open>\<open>T[:, c]\<close>: column \<open>c\<close> of a two-dimensional array.\<close>

definition column :: "mat \<Rightarrow> nat \<Rightarrow> vec" where
  "column A c = map (\<lambda>row. row ! c) A"

text \<open>Elementwise arithmetic on arrays of equal shape, and an array with a scalar.\<close>

definition vadd :: "vec \<Rightarrow> vec \<Rightarrow> vec" where
  "vadd x y = map2 (+) x y"

definition vsub :: "vec \<Rightarrow> vec \<Rightarrow> vec" where
  "vsub x y = map2 (-) x y"

definition vscale :: "real \<Rightarrow> vec \<Rightarrow> vec" where
  "vscale c x = map ((*) c) x"

definition madd :: "mat \<Rightarrow> mat \<Rightarrow> mat" where
  "madd A B = map2 vadd A B"

definition msub :: "mat \<Rightarrow> mat \<Rightarrow> mat" where
  "msub A B = map2 vsub A B"

definition mscale :: "real \<Rightarrow> mat \<Rightarrow> mat" where
  "mscale c A = map (vscale c) A"

definition mdivs :: "mat \<Rightarrow> real \<Rightarrow> mat" where
  "mdivs A c = map (map (\<lambda>x. x / c)) A"

text \<open>
  Python's \<open>sum(...)\<close> over a generator of arrays starts from the integer \<open>0\<close>, which
  broadcasts: the result is \<open>((0 + x0) + x1) + ...\<close>. For no summand Python returns
  the integer \<open>0\<close>; the solver only sums over \<open>range(m)\<close> with \<open>m > 0\<close>.
\<close>

fun py_sum_vec :: "vec list \<Rightarrow> vec" where
  "py_sum_vec [] = []"
| "py_sum_vec (v # vs) = foldl vadd v vs"

fun py_sum_mat :: "mat list \<Rightarrow> mat" where
  "py_sum_mat [] = []"
| "py_sum_mat (A # As) = foldl madd A As"

text \<open>\<open>A.T\<close>, \<open>np.matmul\<close> (matrix with matrix, matrix with vector) and \<open>np.diag\<close> of a
  one-dimensional array.\<close>

definition dot :: "vec \<Rightarrow> vec \<Rightarrow> real" where
  "dot x y = sum_list (map2 (*) x y)"

definition mat_T :: "mat \<Rightarrow> mat" where
  "mat_T A = map (column A) [0..<ncols A]"

definition matmul :: "mat \<Rightarrow> mat \<Rightarrow> mat" where
  "matmul A B = map (\<lambda>row. map (dot row) (mat_T B)) A"

definition matvec :: "mat \<Rightarrow> vec \<Rightarrow> vec" where
  "matvec A v = map (\<lambda>row. dot row v) A"

definition diag_mat :: "vec \<Rightarrow> mat" where
  "diag_mat v =
     map (\<lambda>j. map (\<lambda>k. if j = k then v ! j else 0) [0..<length v]) [0..<length v]"

text \<open>Reductions along an axis: \<open>np.amax(x, axis=0)\<close>, \<open>np.sum(x, axis=0)\<close> and
  \<open>np.mean(x, axis=1)\<close>.\<close>

fun max_list :: "vec \<Rightarrow> real" where
  "max_list [] = 0"
| "max_list (v # vs) = foldl max v vs"

definition amax0 :: "mat \<Rightarrow> vec" where
  "amax0 x = map (\<lambda>t. max_list (column x t)) [0..<ncols x]"

definition sum0 :: "mat \<Rightarrow> vec" where
  "sum0 x = map (\<lambda>t. sum_list (column x t)) [0..<ncols x]"

definition mean1 :: "mat \<Rightarrow> vec" where
  "mean1 x = map (\<lambda>row. sum_list row / real (length row)) x"

text \<open>\<open>np.block\<close> on a grid of two-dimensional arrays: the blocks of one row of the grid
  are joined side by side, the rows of the grid are stacked.\<close>

definition hcat :: "mat \<Rightarrow> mat \<Rightarrow> mat" where
  "hcat A B = map2 (@) A B"

fun hstack :: "mat list \<Rightarrow> mat" where
  "hstack [] = []"
| "hstack (A # As) = foldl hcat A As"

definition np_block :: "mat list list \<Rightarrow> mat" where
  "np_block grid = concat (map hstack grid)"

text \<open>
  \<open>np.exp(self.u0[i] - u[i])\<close>: \<open>self.u0[i]\<close> is one-dimensional and \<open>u[i]\<close> has one row
  (the target potential on the configurations of sample \<open>i\<close>), so the result has one
  row. \<open>w[i] * y[i]\<close> and \<open>w[i] * P[i]\<close> broadcast that row along the rows of the
  other matrix. \<open>np.outer\<close> is the outer product, \<open>pu[:, np.newaxis]\<close> a column.
\<close>

definition weights :: "vec \<Rightarrow> mat \<Rightarrow> mat" where
  "weights u0i ui = map (\<lambda>row. map2 (\<lambda>a c. exp (a - c)) u0i row) ui"

definition bmul :: "mat \<Rightarrow> mat \<Rightarrow> mat" where
  "bmul w y = map (\<lambda>row. map2 (*) (w ! 0) row) y"

definition outer :: "vec \<Rightarrow> vec \<Rightarrow> mat" where
  "outer x y = map (\<lambda>a. map (\<lambda>c. a * c) y) x"

definition as_column :: "vec \<Rightarrow> mat" where
  "as_column x = map (\<lambda>v. [v]) x"

text \<open>
  The operator \<open>format % value\<close> of Python strings, for a value that is a \<open>str\<close>
  (not a tuple): after a \<open>%\<close> come conversion flags (any of \<open>#\<close>, \<open>0\<close>, \<open>-\<close>, space,
  \<open>+\<close>) and the conversion type. \<open>%s\<close> inserts the string, \<open>%%\<close> is a literal
  percent sign, \<open>%d\<close> and \<open>%i\<close> need a number and raise \<open>TypeError\<close> for a string,
  a format that ends inside a conversion raises \<open>ValueError\<close>, and so does a
  conversion type that is none of these (width, precision and the other numeric
  types do not occur in the program). A value left unconverted, or a second
  conversion that needs one, raises \<open>TypeError\<close>. The flag \<open>True\<close> of \<open>py_percent_scan\<close>
  says that the scan is inside a conversion specifier; the option holds the value
  while it is not consumed.
\<close>

fun py_percent_scan :: "bool \<Rightarrow> string \<Rightarrow> string option \<Rightarrow> error + string" where
  "py_percent_scan False [] None = Inr []"
| "py_percent_scan False [] (Some v) = Inl TypeError"
| "py_percent_scan True [] arg = Inl ValueError"
| "py_percent_scan False (c # cs) arg =
     (if c = CHR ''%'' then py_percent_scan True cs arg
      else (case py_percent_scan False cs arg of
              Inl e \<Rightarrow> Inl e
            | Inr out \<Rightarrow> Inr (c # out)))"
| "py_percent_scan True (c # cs) arg =
     (if c \<in> set ''#0- +'' then py_percent_scan True cs arg
      else if c = CHR ''%'' then
        (case py_percent_scan False cs arg of
           Inl e \<Rightarrow> Inl e
         | Inr out \<Rightarrow> Inr (c # out))
      else if c = CHR ''s'' then
        (case arg of
           None \<Rightarrow> Inl TypeError
         | Some v \<Rightarrow>
             (case py_percent_scan False cs None of
                Inl e \<Rightarrow> Inl e
              | Inr out \<Rightarrow> Inr (v @ out)))
      else if c = CHR ''d'' \<or> c = CHR ''i'' then Inl TypeError
      else Inl ValueError)"

definition py_percent :: "string \<Rightarrow> string \<Rightarrow> error + string" where
  "py_percent fmt v = py_percent_scan False fmt (Some v)"

section \<open>The mixture: construction, free energies, reweighting\<close>

text \<open>
  Modelled from the spec: \<open>mics.utils.multimap\<close> is not part of the sources. It
  evaluates every function of a list on every configuration of a data set and returns
  the matrix with one row per function and one column per configuration.
\<close>

definition multimap :: "(real list \<Rightarrow> real) list \<Rightarrow> dataset \<Rightarrow> mat" where
  "multimap funcs ds = map (\<lambda>g. map g (df_rows ds)) funcs"

text \<open>
  \<open>mixture.__init__(samples, method)\<close>. The overlap-sampling initial guess
  (\<open>mics.utils.overlapSampling\<close>) and the method's \<open>__initialize__\<close> (the solver) are
  parameters. The two checks come first and in the order of the source.
\<close>

definition mixture_init ::
  "(mat list \<Rightarrow> vec) \<Rightarrow> (mixture \<Rightarrow> error + mixture) \<Rightarrow> sample list \<Rightarrow> error + mixture"
where
  "mixture_init overlapSampling method_initialize samples =
     (let m = length samples in
      if m = 0 then Inl (InputError ''list of samples is empty'')
      else
        let n = map (\<lambda>s. length (df_rows (sample_dataset s))) samples;
            neff = map sample_neff samples;
            names = df_columns (sample_dataset (samples ! 0))
        in if list_ex (\<lambda>s. df_columns (sample_dataset s) \<noteq> names) samples
           then Inl (InputError ''provided samples have distinct properties'')
           else
             let potentials = map sample_potential samples;
                 u = map (\<lambda>s. multimap potentials (sample_dataset s)) samples;
                 f = overlapSampling u
             in method_initialize
                  \<lparr> self_m = m, self_n = n, self_neff = neff, self_names = names,
                    self_u = u, self_f = f, self_b = [], self_pi = [], self_P = [],
                    self_pm = [], self_u0 = [], self_p0 = [], self_iB0 = [],
                    self_Sp0 = [], self_Theta = [], self_Overlap = [] \<rparr>)"

text \<open>
  \<open>mixture.free_energies(reference)\<close>: the two columns \<open>f\<close> and \<open>df\<close> added to the
  frame. \<open>self.f[reference]\<close>, \<open>T[:, reference]\<close> and \<open>T[reference, reference]\<close> raise
  \<open>IndexError\<close> outside the range of their axis.
\<close>

definition free_energies :: "mixture \<Rightarrow> int \<Rightarrow> error + (vec \<times> vec)" where
  "free_energies self reference =
     (case py_index (length (self_f self)) reference of
        Inl e \<Rightarrow> Inl e
      | Inr r \<Rightarrow>
          let frame_f = map (\<lambda>x. x - self_f self ! r) (self_f self);
              T = self_Theta self
          in (case py_index (ncols T) reference of
                Inl e \<Rightarrow> Inl e
              | Inr c \<Rightarrow>
                  (case py_index (nrows T) reference of
                     Inl e \<Rightarrow> Inl e
                   | Inr r' \<Rightarrow>
                       Inr (frame_f,
                            map2 (\<lambda>d t. sqrt (d - 2 * t + T ! r' ! c))
                              (diag_of T) (column T c)))))"

text \<open>
  \<open>mixture.reweighting\<close>: the properties are a dictionary (here the list of its items
  in insertion order). The guard on the reserved name \<open>f\<close> is the first statement; the
  rest of the body is the parameter \<open>body\<close>. The message of the \<open>InputError\<close> is built
  with the \<open>%\<close> operator before the exception is raised.
\<close>

definition reweighting ::
  "((string \<times> string) list \<Rightarrow> error + 'r) \<Rightarrow> (string \<times> string) list \<Rightarrow> error + 'r"
where
  "reweighting body properties =
     (let freeEnergy = ''f'' in
      if freeEnergy \<in> set (map fst properties)
      then (case py_percent ''Word % is reserved for free energies'' freeEnergy of
              Inl e \<Rightarrow> Inl e
            | Inr msg \<Rightarrow> Inl (InputError msg))
      else body properties)"

section \<open>The MICS method: the self-consistent solver\<close>

text \<open>
  The shapes are those of the program: \<open>self.u[i]\<close> is an \<open>m \<times> n\<^sub>i\<close> matrix,
  \<open>self.f\<close> and \<open>self.pi\<close> have \<open>m\<close> entries. numpy raises \<open>ValueError\<close> for operands
  whose shapes do not fit; the model is meant for arrays of fitting shapes, which the
  theorems assume. The pseudo-inverse \<open>mics.utils.pinv\<close> and the estimators
  \<open>mics.utils.covariance\<close> and \<open>mics.utils.cross_covariance\<close> are not part of the
  sources and are parameters. The diagnostic output under \<open>verbose\<close> is not modelled.
\<close>

text \<open>
  The body of the loop \<open>for i in S\<close> of \<open>_newton_raphson_iteration\<close>, for the column
  vector \<open>g\<close>: \<open>x = g - u[i]\<close> broadcasts \<open>g\<close> along the columns. \<open>P\<close> and \<open>self.P\<close> are
  the same list object, so the assignments update one entry of the list.
\<close>

definition nr_sample :: "vec \<Rightarrow> nat \<Rightarrow> mixture \<Rightarrow> mixture" where
  "nr_sample g i self =
     (let x = map2 (\<lambda>gk row. map (\<lambda>v. gk - v) row) g (self_u self ! i);
          xmax = amax0 x;
          numer = map (\<lambda>row. map2 (\<lambda>v mx. exp (v - mx)) row xmax) x;
          denom = sum0 numer;
          self1 = self\<lparr>self_P := (self_P self)[i := map (\<lambda>row. map2 (/) row denom) numer]\<rparr>;
          self2 = self1\<lparr>self_u0 := (self_u0 self1)[i := map2 (\<lambda>mx d. - (mx + ln d)) xmax denom]\<rparr>
      in self2\<lparr>self_pm := (self_pm self2)[i := mean1 (self_P self2 ! i)]\<rparr>)"

text \<open>\<open>df[1:m] - df[0]\<close> and the update \<open>self.f[1:m] += df\<close>.\<close>

definition relative_step :: "nat \<Rightarrow> vec \<Rightarrow> vec" where
  "relative_step m df = map (\<lambda>d. d - df ! 0) (drop 1 (take m df))"

definition f_update :: "nat \<Rightarrow> vec \<Rightarrow> vec \<Rightarrow> vec" where
  "f_update m f df = take 1 f @ map2 (+) (drop 1 (take m f)) df @ drop m f"

text \<open>
  \<open>_newton_raphson_iteration\<close>: the pass over the samples, then \<open>p0\<close>, \<open>B0\<close>, its pseudo-inverse \<open>iB0\<close>
  and the correction. The function returns the correction and leaves \<open>P\<close>, \<open>pm\<close>, \<open>u0\<close>,
  \<open>p0\<close> and \<open>iB0\<close> on \<open>self\<close>.
\<close>

definition newton_raphson_iteration :: "(mat \<Rightarrow> mat) \<Rightarrow> mixture \<Rightarrow> vec \<times> mixture" where
  "newton_raphson_iteration pinv self0 =
     (let m = self_m self0;
          pi = self_pi self0;
          g = map2 (\<lambda>fk pk. fk + ln pk) (self_f self0) pi;
          S = [0..<m];
          self1 = fold (nr_sample g) S self0;
          P = self_P self1;
          p0 = py_sum_vec (map (\<lambda>i. vscale (pi ! i) (self_pm self1 ! i)) S);
          self2 = self1\<lparr>self_p0 := p0\<rparr>;
          B0 = msub (diag_mat p0)
                 (py_sum_mat (map (\<lambda>i. mdivs (mscale (pi ! i) (matmul (P ! i) (mat_T (P ! i))))
                                            (real (self_n self2 ! i))) S));
          self3 = self2\<lparr>self_iB0 := pinv B0\<rparr>;
          df = matvec (self_iB0 self3) (vsub pi p0)
      in (relative_step m df, self3))"

text \<open>
  \<open>MICS.__init__\<close>, for a \<open>self\<close> on which \<open>m\<close>, \<open>n\<close>, \<open>neff\<close>, \<open>u\<close> and \<open>f\<close> are set:
  first the attributes \<open>b\<close>, \<open>pi\<close>, \<open>P\<close>, \<open>pm\<close> and \<open>u0\<close>. \<open>np.empty\<close> allocates without
  initialising; every entry is assigned by the first iteration before it is read, and
  the model fills with zeros (\<open>u0[i]\<close> is allocated with the shape \<open>(1, n\<^sub>i)\<close> and
  assigned a one-dimensional array of \<open>n\<^sub>i\<close> entries, which is what the model holds).
\<close>

definition MICS_setup :: "sample list \<Rightarrow> mixture \<Rightarrow> mixture" where
  "MICS_setup samples self =
     (let m = self_m self;
          neff = self_neff self
      in self\<lparr> self_b := map sample_b samples,
               self_pi := map (\<lambda>x. x / sum_list neff) neff,
               self_P := map (\<lambda>k. replicate m (replicate k 0)) (self_n self),
               self_pm := map (\<lambda>k. replicate m 0) (self_n self),
               self_u0 := map (\<lambda>k. replicate k 0) (self_n self) \<rparr>)"

text \<open>\<open>any(abs(df) > tol)\<close>, the condition of the \<open>while\<close> loop.\<close>

definition exceeds :: "real \<Rightarrow> vec \<Rightarrow> bool" where
  "exceeds tol df = list_ex (\<lambda>d. \<bar>d\<bar> > tol) df"

text \<open>
  One pass through the body of the \<open>while\<close> loop, from the pending correction and the
  state to the next correction and state.
\<close>

definition loop_body :: "(mat \<Rightarrow> mat) \<Rightarrow> vec \<times> mixture \<Rightarrow> vec \<times> mixture" where
  "loop_body pinv c =
     (case c of (df, self) \<Rightarrow>
        newton_raphson_iteration pinv
          (self\<lparr>self_f := f_update (self_m self) (self_f self) df\<rparr>))"

text \<open>
  The \<open>while\<close> loop has no bound on the number of iterations, so it is a partial
  function: \<open>None\<close> is the loop that runs forever.
\<close>

partial_function (option) MICS_loop ::
  "(mat \<Rightarrow> mat) \<Rightarrow> real \<Rightarrow> vec \<times> mixture \<Rightarrow> (vec \<times> mixture) option"
where
  "MICS_loop pinv tol c =
     (if exceeds tol (fst c) then MICS_loop pinv tol (loop_body pinv c) else Some c)"

text \<open>The state after \<open>k\<close> passes through the body of the loop.\<close>

fun MICS_iterate :: "(mat \<Rightarrow> mat) \<Rightarrow> nat \<Rightarrow> vec \<times> mixture \<Rightarrow> vec \<times> mixture" where
  "MICS_iterate pinv 0 c = c"
| "MICS_iterate pinv (Suc k) c = loop_body pinv (MICS_iterate pinv k c)"

text \<open>
  What \<open>MICS.__init__\<close> computes after the loop: \<open>Sp0\<close>, \<open>Theta\<close> and \<open>Overlap\<close>.
  \<open>multi_dot([iB0, Sp0, iB0])\<close> is the product of the three matrices; the estimator
  \<open>covariance\<close> is the parameter \<open>cov\<close>.
\<close>

definition MICS_finish :: "(mat \<Rightarrow> vec \<Rightarrow> nat \<Rightarrow> mat) \<Rightarrow> mixture \<Rightarrow> mixture" where
  "MICS_finish cov self =
     (let m = self_m self;
          pi = self_pi self;
          Sp0 = py_sum_mat
                  (map (\<lambda>i. mscale ((pi ! i)\<^sup>2)
                               (cov (self_P self ! i) (self_pm self ! i) (self_b self ! i)))
                     [0..<m]);
          self1 = self\<lparr>self_Sp0 := Sp0\<rparr>;
          self2 = self1\<lparr>self_Theta :=
                     matmul (matmul (self_iB0 self1) (self_Sp0 self1)) (self_iB0 self1)\<rparr>
      in self2\<lparr>self_Overlap := self_pm self2\<rparr>)"

text \<open>
  The default of the parameter \<open>tol\<close>, and the constructor: the attributes and the first
  call of the iteration (\<open>MICS_start\<close>), the loop, and the covariance matrices.
\<close>

definition default_tol :: real where
  "default_tol = 1 / 10 ^ 12"

definition MICS_start :: "(mat \<Rightarrow> mat) \<Rightarrow> sample list \<Rightarrow> mixture \<Rightarrow> vec \<times> mixture" where
  "MICS_start pinv samples self = newton_raphson_iteration pinv (MICS_setup samples self)"

definition MICS_init ::
  "(mat \<Rightarrow> mat) \<Rightarrow> (mat \<Rightarrow> vec \<Rightarrow> nat \<Rightarrow> mat) \<Rightarrow> real \<Rightarrow> sample list \<Rightarrow> mixture \<Rightarrow> mixture option"
where
  "MICS_init pinv cov tol samples self =
     (case MICS_loop pinv tol (MICS_start pinv samples self) of
        None \<Rightarrow> None
      | Some c \<Rightarrow> Some (MICS_finish cov (snd c)))"

section \<open>The MICS method: reweighting and perturbation\<close>

text \<open>
  \<open>MICS.__reweight__(u, y, ref)\<close>. \<open>self.f[ref]\<close> and \<open>pu[ref]\<close> raise \<open>IndexError\<close> for
  an index out of range. \<open>multi_dot\<close> is the product of its arguments (the order in
  which it multiplies does not change the product of real matrices). The two
  estimators are the parameters \<open>ccov\<close> and \<open>cov\<close>.
\<close>

definition MICS_reweight ::
  "(mat \<Rightarrow> vec \<Rightarrow> mat \<Rightarrow> vec \<Rightarrow> nat \<Rightarrow> mat) \<Rightarrow> (mat \<Rightarrow> vec \<Rightarrow> nat \<Rightarrow> mat) \<Rightarrow>
   mixture \<Rightarrow> mat list \<Rightarrow> mat list \<Rightarrow> int \<Rightarrow> error + (vec \<times> mat)"
where
  "MICS_reweight ccov cov self u y ref =
     (let S = [0..<self_m self];
          pi = self_pi self;
          P = self_P self;
          pm = self_pm self;
          b = self_b self;
          w = map (\<lambda>i. weights (self_u0 self ! i) (u ! i)) S;
          z = map (\<lambda>i. bmul (w ! i) (y ! i)) S;
          iw0 = 1 / (py_sum_vec (map (\<lambda>i. vscale (pi ! i) (mean1 (w ! i))) S) ! 0);
          yu = map (\<lambda>v. v * iw0) (py_sum_vec (map (\<lambda>i. vscale (pi ! i) (mean1 (z ! i))) S))
      in case py_index (length (self_f self)) ref of
           Inl e \<Rightarrow> Inl e
         | Inr rf \<Rightarrow>
             let fu = [ln iw0 - self_f self ! rf];
                 r = map (\<lambda>i. z ! i @ w ! i) S;
                 rm = map (\<lambda>i. mean1 (r ! i)) S;
                 Sp0r0 = py_sum_mat
                           (map (\<lambda>i. mscale ((pi ! i)\<^sup>2)
                                        (ccov (P ! i) (pm ! i) (r ! i) (rm ! i) (b ! i)))
                              S);
                 Sr0 = py_sum_mat
                         (map (\<lambda>i. mscale ((pi ! i)\<^sup>2) (cov (r ! i) (rm ! i) (b ! i))) S);
                 Ss0 = np_block [[self_Sp0 self, Sp0r0], [mat_T Sp0r0, Sr0]];
                 pu = map (\<lambda>v. v * iw0)
                        (py_sum_vec (map (\<lambda>i. vscale (pi ! i) (mean1 (bmul (w ! i) (P ! i)))) S));
                 pytu = map (map (\<lambda>v. v * iw0))
                          (py_sum_mat
                             (map (\<lambda>i. mdivs (mscale (pi ! i) (matmul (P ! i) (mat_T (z ! i))))
                                          (real (self_n self ! i)))
                                S));
                 Dyup0 = matmul (self_iB0 self) (msub (outer pu yu) pytu);
                 Dyuz0 = diag_mat (replicate (length yu) iw0);
                 Dyuw0 = [map (\<lambda>v. - v * iw0) yu]
             in (case py_index (length pu) ref of
                  Inl e \<Rightarrow> Inl e
                | Inr rp \<Rightarrow>
                    let pu1 = pu[rp := pu ! rp - 1];
                        Dfup0 = matmul (self_iB0 self) (as_column pu1);
                        Dfuz0 = replicate (length yu) [0];
                        Dfuw0 = [[iw0]];
                        G = np_block [[Dfup0, Dyup0], [Dfuz0, Dyuz0], [Dfuw0, Dyuw0]];
                        Theta = matmul (matmul (mat_T G) Ss0) G
                    in Inr (fu @ yu, Theta)))"

text \<open>
  \<open>MICS.__perturb__(u, ref)\<close>. \<open>np.append\<close> flattens the column and appends \<open>iw0\<close>, so
  \<open>G\<close> is one-dimensional and \<open>multi_dot([G.T, Ss0, G])\<close> is the number \<open>G \<cdot> Ss0 \<cdot> G\<close>.
\<close>

definition MICS_perturb ::
  "(mat \<Rightarrow> vec \<Rightarrow> mat \<Rightarrow> vec \<Rightarrow> nat \<Rightarrow> mat) \<Rightarrow> (mat \<Rightarrow> vec \<Rightarrow> nat \<Rightarrow> mat) \<Rightarrow>
   mixture \<Rightarrow> mat list \<Rightarrow> int \<Rightarrow> error + (real \<times> real)"
where
  "MICS_perturb ccov cov self u ref =
     (let S = [0..<self_m self];
          pi = self_pi self;
          P = self_P self;
          pm = self_pm self;
          b = self_b self;
          w = map (\<lambda>i. weights (self_u0 self ! i) (u ! i)) S;
          iw0 = 1 / (py_sum_vec (map (\<lambda>i. vscale (pi ! i) (mean1 (w ! i))) S) ! 0);
          wm = map (\<lambda>i. mean1 (w ! i)) S;
          Sp0w0 = py_sum_mat
                    (map (\<lambda>i. mscale ((pi ! i)\<^sup>2)
                                 (ccov (P ! i) (pm ! i) (w ! i) (wm ! i) (b ! i)))
                       S);
          Sw0 = py_sum_mat
                  (map (\<lambda>i. mscale ((pi ! i)\<^sup>2) (cov (w ! i) (wm ! i) (b ! i))) S);
          Ss0 = np_block [[self_Sp0 self, Sp0w0], [mat_T Sp0w0, Sw0]];
          pu = map (\<lambda>v. v * iw0)
                 (py_sum_vec (map (\<lambda>i. vscale (pi ! i) (mean1 (bmul (w ! i) (P ! i)))) S))
      in case py_index (length pu) ref of
           Inl e \<Rightarrow> Inl e
         | Inr rp \<Rightarrow>
             let pu1 = pu[rp := pu ! rp - 1];
                 G = concat (matmul (self_iB0 self) (as_column pu1)) @ [iw0]
             in (case py_index (length (self_f self)) ref of
                  Inl e \<Rightarrow> Inl e
                | Inr rf \<Rightarrow>
                    let f = ln iw0 - self_f self ! rf;
                        df = sqrt (dot (map (dot G) (mat_T Ss0)) G)
                    in Inr (f, df)))"

section \<open>The covariance estimators\<close>

text \<open>
  Modelled from the spec: \<open>mics.utils.covariance\<close> and \<open>mics.utils.cross_covariance\<close>
  are not part of the sources. For a matrix of per-configuration values and the means
  of its rows, the covariance estimate of the mean uses non-overlapping blocks of
  length \<open>b\<close>: the number of blocks is \<open>n div b\<close>, trailing data is discarded, and
  entry \<open>(j, k)\<close> is built from the deviations of the block averages of row \<open>j\<close> of the
  first matrix and row \<open>k\<close> of the second from their means. The cross-covariance is
  the same for two matrices on the same configurations, and the covariance is the
  cross-covariance of a matrix with itself. The spec does not give the normalisation;
  the model divides by \<open>nb (nb - 1)\<close> for \<open>nb\<close> blocks, the estimate of the variance
  of a mean, and no theorem depends on this choice. The spec lets the estimators fail
  when the block size is not smaller than \<open>n\<close>; the model does not.
\<close>

definition block_means :: "nat \<Rightarrow> vec \<Rightarrow> vec" where
  "block_means b row =
     map (\<lambda>j. sum_list (take b (drop (j * b) row)) / real b) [0..<length row div b]"

definition block_deviations :: "nat \<Rightarrow> vec \<Rightarrow> real \<Rightarrow> vec" where
  "block_deviations b row mu = map (\<lambda>x. x - mu) (block_means b row)"

definition cross_covariance_entry :: "nat \<Rightarrow> vec \<Rightarrow> real \<Rightarrow> vec \<Rightarrow> real \<Rightarrow> real" where
  "cross_covariance_entry b yr ymr zr zmr =
     (let nb = length yr div b
      in dot (block_deviations b yr ymr) (block_deviations b zr zmr) / real (nb * (nb - 1)))"

definition cross_covariance :: "mat \<Rightarrow> vec \<Rightarrow> mat \<Rightarrow> vec \<Rightarrow> nat \<Rightarrow> mat" where
  "cross_covariance y ym z zm b =
     map2 (\<lambda>yr ymr. map2 (\<lambda>zr zmr. cross_covariance_entry b yr ymr zr zmr) z zm) y ym"

definition covariance :: "mat \<Rightarrow> vec \<Rightarrow> nat \<Rightarrow> mat" where
  "covariance y ym b = cross_covariance y ym y ym b"

section \<open>Shapes of the arrays and properties of the parameters\<close>

text \<open>An \<open>r \<times> c\<close> matrix: \<open>r\<close> rows of length \<open>c\<close>.\<close>

definition is_mat :: "nat \<Rightarrow> nat \<Rightarrow> mat \<Rightarrow> bool" where
  "is_mat r c A \<longleftrightarrow> length A = r \<and> list_all (\<lambda>row. length row = c) A"

text \<open>
  The state of a mixture on which the solver works: \<open>m > 0\<close> samples (the empty list
  is refused by the constructor), each with \<open>n\<^sub>i > 0\<close> configurations, \<open>u[i]\<close> of shape
  \<open>m \<times> n\<^sub>i\<close>, \<open>f\<close> and \<open>pi\<close> of length \<open>m\<close>, and the lists \<open>P\<close>, \<open>pm\<close> and \<open>u0\<close> with one
  entry per sample.
\<close>

definition wf_mixture :: "mixture \<Rightarrow> bool" where
  "wf_mixture self \<longleftrightarrow>
     0 < self_m self \<and>
     length (self_n self) = self_m self \<and>
     length (self_u self) = self_m self \<and>
     list_all (\<lambda>i. 0 < self_n self ! i \<and> is_mat (self_m self) (self_n self ! i) (self_u self ! i))
       [0..<self_m self] \<and>
     length (self_f self) = self_m self \<and>
     length (self_pi self) = self_m self \<and>
     length (self_P self) = self_m self \<and>
     length (self_pm self) = self_m self \<and>
     length (self_u0 self) = self_m self"

text \<open>The same before \<open>MICS.__init__\<close> has set \<open>pi\<close>, \<open>P\<close>, \<open>pm\<close> and \<open>u0\<close>.\<close>

definition wf_defined :: "mixture \<Rightarrow> bool" where
  "wf_defined self \<longleftrightarrow>
     0 < self_m self \<and>
     length (self_n self) = self_m self \<and>
     length (self_u self) = self_m self \<and>
     list_all (\<lambda>i. 0 < self_n self ! i \<and> is_mat (self_m self) (self_n self ! i) (self_u self ! i))
       [0..<self_m self] \<and>
     length (self_f self) = self_m self \<and>
     length (self_neff self) = self_m self"

text \<open>
  The state after the pass over the samples (every \<open>P[i]\<close> is an \<open>m \<times> n\<^sub>i\<close> matrix and \<open>p0\<close> has
  \<open>m\<close> entries), the state of the loop (a well-shaped mixture and a correction of
  \<open>m - 1\<close> entries), and the state that the constructor returns.
\<close>

definition wf_P :: "mixture \<Rightarrow> bool" where
  "wf_P self \<longleftrightarrow> 0 < self_m self \<and> length (self_p0 self) = self_m self \<and>
     list_all (\<lambda>i. 0 < self_n self ! i \<and> is_mat (self_m self) (self_n self ! i) (self_P self ! i)) [0..<self_m self]"

definition loop_inv :: "vec \<times> mixture \<Rightarrow> bool" where
  "loop_inv c \<longleftrightarrow> wf_mixture (snd c) \<and> length (fst c) = self_m (snd c) - 1"

definition wf_converged :: "mixture \<Rightarrow> bool" where
  "wf_converged s \<longleftrightarrow>
     0 < self_m s \<and> length (self_f s) = self_m s \<and> length (self_pi s) = self_m s \<and>
     length (self_p0 s) = self_m s \<and> length (self_n s) = self_m s \<and>
     list_all (\<lambda>i. 0 < self_n s ! i \<and> is_mat (self_m s) (self_n s ! i) (self_P s ! i) \<and>
                   length (self_pm s ! i) = self_m s \<and> length (self_u0 s ! i) = self_n s ! i)
       [0..<self_m s] \<and>
     is_mat (self_m s) (self_m s) (self_iB0 s) \<and>
     is_mat (self_m s) (self_m s) (self_Sp0 s) \<and>
     is_mat (self_m s) (self_m s) (self_Theta s)"

text \<open>
  The inputs of the two operations: for every sample the target potential on its
  configurations (one row), and \<open>k\<close> properties on its configurations.
\<close>

definition wf_target :: "mixture \<Rightarrow> mat list \<Rightarrow> bool" where
  "wf_target self u \<longleftrightarrow>
     list_all (\<lambda>i. is_mat 1 (self_n self ! i) (u ! i)) [0..<self_m self]"

definition wf_properties :: "mixture \<Rightarrow> nat \<Rightarrow> mat list \<Rightarrow> bool" where
  "wf_properties self k y \<longleftrightarrow>
     list_all (\<lambda>i. is_mat k (self_n self ! i) (y ! i)) [0..<self_m self]"

text \<open>
  What the theorems use of the pseudo-inverse: the pseudo-inverse of an \<open>r \<times> c\<close>
  matrix is a \<open>c \<times> r\<close> matrix (a list of rows does not tell the width of a matrix
  without rows, hence \<open>0 < r\<close>), and the Moore-Penrose pseudo-inverse of a symmetric
  matrix is symmetric.
\<close>

definition pinv_shape :: "(mat \<Rightarrow> mat) \<Rightarrow> bool" where
  "pinv_shape pinv \<longleftrightarrow> (\<forall>r c A. 0 < r \<and> is_mat r c A \<longrightarrow> is_mat c r (pinv A))"

definition pinv_symmetric :: "(mat \<Rightarrow> mat) \<Rightarrow> bool" where
  "pinv_symmetric pinv \<longleftrightarrow> (\<forall>A. mat_T A = A \<longrightarrow> mat_T (pinv A) = pinv A)"

text \<open>What the theorems use of the covariance estimator when it is a parameter: the
  covariance of the \<open>r\<close> rows of a matrix is an \<open>r \<times> r\<close> matrix.\<close>

definition cov_shape :: "(mat \<Rightarrow> vec \<Rightarrow> nat \<Rightarrow> mat) \<Rightarrow> bool" where
  "cov_shape cov \<longleftrightarrow>
     (\<forall>r c A v b. is_mat r c A \<and> length v = r \<longrightarrow> is_mat r r (cov A v b))"

text \<open>
  What the theorems use of the two estimators when they are parameters: entry
  \<open>(j, k)\<close> of the cross-covariance is a function of the block size, of row \<open>j\<close> of the
  first matrix with its mean and of row \<open>k\<close> of the second matrix with its mean, and
  the covariance of a matrix is its cross-covariance with itself.
\<close>

definition entrywise_estimators ::
  "(mat \<Rightarrow> vec \<Rightarrow> mat \<Rightarrow> vec \<Rightarrow> nat \<Rightarrow> mat) \<Rightarrow> (mat \<Rightarrow> vec \<Rightarrow> nat \<Rightarrow> mat) \<Rightarrow> bool"
where
  "entrywise_estimators ccov cov \<longleftrightarrow>
     (\<exists>entry.
        (\<forall>y ym z zm b.
           ccov y ym z zm b =
             map2 (\<lambda>yr ymr. map2 (\<lambda>zr zmr. entry b yr ymr zr zmr) z zm) y ym) \<and>
        (\<forall>y ym b. cov y ym b = ccov y ym y ym b))"

text \<open>Every column of every \<open>P[i]\<close> is a probability vector.\<close>

definition softmax_columns :: "mixture \<Rightarrow> bool" where
  "softmax_columns self \<longleftrightarrow>
     (\<forall>i < self_m self. \<forall>t < self_n self ! i.
        sum_list (column (self_P self ! i) t) = 1 \<and>
        (\<forall>k < self_m self. 0 \<le> self_P self ! i ! k ! t))"

section \<open>Named intermediate values\<close>

text \<open>
  The values \<open>x\<close>, \<open>numer\<close>, \<open>P[i]\<close> and \<open>u0[i]\<close> of one pass of the loop over the
  samples, as functions of \<open>g\<close> and \<open>u[i]\<close>.
\<close>

definition sample_x :: "vec \<Rightarrow> mat \<Rightarrow> mat" where
  "sample_x g ui = map2 (\<lambda>gk row. map (\<lambda>v. gk - v) row) g ui"

definition sample_numer :: "vec \<Rightarrow> mat \<Rightarrow> mat" where
  "sample_numer g ui =
     map (\<lambda>row. map2 (\<lambda>v mx. exp (v - mx)) row (amax0 (sample_x g ui))) (sample_x g ui)"

definition sample_P :: "vec \<Rightarrow> mat \<Rightarrow> mat" where
  "sample_P g ui =
     map (\<lambda>row. map2 (/) row (sum0 (sample_numer g ui))) (sample_numer g ui)"

definition sample_u0 :: "vec \<Rightarrow> mat \<Rightarrow> vec" where
  "sample_u0 g ui =
     map2 (\<lambda>mx d. - (mx + ln d)) (amax0 (sample_x g ui)) (sum0 (sample_numer g ui))"

text \<open>
  The column vector \<open>g\<close> of an iteration, the matrix \<open>B0\<close> as a function of the state
  after the pass over the samples, and the summand of sample \<open>i\<close> in it.
\<close>

definition nr_g :: "mixture \<Rightarrow> vec" where
  "nr_g self = map2 (\<lambda>fk pk. fk + ln pk) (self_f self) (self_pi self)"

definition B0_of :: "mixture \<Rightarrow> mat" where
  "B0_of self =
     msub (diag_mat (self_p0 self))
       (py_sum_mat (map (\<lambda>i. mdivs (mscale (self_pi self ! i)
                                    (matmul (self_P self ! i) (mat_T (self_P self ! i))))
                              (real (self_n self ! i)))
                     [0..<self_m self]))"

definition B0_term :: "mixture \<Rightarrow> nat \<Rightarrow> mat" where
  "B0_term self i = mdivs (mscale (self_pi self ! i)
                                    (matmul (self_P self ! i) (mat_T (self_P self ! i))))
                              (real (self_n self ! i))"

text \<open>Named parts of the two operations: the weights, \<open>iw0\<close>, \<open>pu\<close> after the
  subtraction at the reference state, the vector \<open>iB0 \<cdot> pu\<close>, and the quadratic form
  \<open>g \<cdot> S \<cdot> g\<close>.\<close>

definition rw_w :: "mixture \<Rightarrow> mat list \<Rightarrow> mat list" where
  "rw_w self u = map (\<lambda>i. weights (self_u0 self ! i) (u ! i)) [0..<self_m self]"

definition rw_iw0 :: "mixture \<Rightarrow> mat list \<Rightarrow> real" where
  "rw_iw0 self u =
     1 / (py_sum_vec (map (\<lambda>i. vscale (self_pi self ! i) (mean1 (rw_w self u ! i)))
                        [0..<self_m self]) ! 0)"

definition rw_pu :: "mixture \<Rightarrow> mat list \<Rightarrow> vec" where
  "rw_pu self u =
     map (\<lambda>v. v * rw_iw0 self u)
       (py_sum_vec (map (\<lambda>i. vscale (self_pi self ! i)
                               (mean1 (bmul (rw_w self u ! i) (self_P self ! i))))
                      [0..<self_m self]))"

definition rw_a :: "mixture \<Rightarrow> mat list \<Rightarrow> nat \<Rightarrow> vec" where
  "rw_a self u rp =
     matvec (self_iB0 self) ((rw_pu self u)[rp := rw_pu self u ! rp - 1])"

definition quad_form :: "vec \<Rightarrow> mat \<Rightarrow> real" where
  "quad_form g S = dot (map (dot g) (mat_T S)) g"

definition rw_z :: "mixture \<Rightarrow> mat list \<Rightarrow> mat list \<Rightarrow> mat list" where
  "rw_z self u y = map (\<lambda>i. bmul (rw_w self u ! i) (y ! i)) [0..<self_m self]"

definition rw_yu :: "mixture \<Rightarrow> mat list \<Rightarrow> mat list \<Rightarrow> vec" where
  "rw_yu self u y =
     map (\<lambda>v. v * rw_iw0 self u)
       (py_sum_vec (map (\<lambda>i. vscale (self_pi self ! i) (mean1 (rw_z self u y ! i)))
                      [0..<self_m self]))"

definition rw_r :: "mixture \<Rightarrow> mat list \<Rightarrow> mat list \<Rightarrow> mat list" where
  "rw_r self u y = map (\<lambda>i. rw_z self u y ! i @ rw_w self u ! i) [0..<self_m self]"

definition rw_rm :: "mixture \<Rightarrow> mat list \<Rightarrow> mat list \<Rightarrow> vec list" where
  "rw_rm self u y = map (\<lambda>i. mean1 (rw_r self u y ! i)) [0..<self_m self]"

definition rw_Sp0r0 ::
  "(mat \<Rightarrow> vec \<Rightarrow> mat \<Rightarrow> vec \<Rightarrow> nat \<Rightarrow> mat) \<Rightarrow> mixture \<Rightarrow> mat list \<Rightarrow> mat list \<Rightarrow> mat"
where
  "rw_Sp0r0 ccov self u y =
     py_sum_mat
       (map (\<lambda>i. mscale ((self_pi self ! i)\<^sup>2)
                    (ccov (self_P self ! i) (self_pm self ! i) (rw_r self u y ! i)
                       (rw_rm self u y ! i) (self_b self ! i)))
          [0..<self_m self])"

definition rw_Sr0 ::
  "(mat \<Rightarrow> vec \<Rightarrow> nat \<Rightarrow> mat) \<Rightarrow> mixture \<Rightarrow> mat list \<Rightarrow> mat list \<Rightarrow> mat"
where
  "rw_Sr0 cov self u y =
     py_sum_mat
       (map (\<lambda>i. mscale ((self_pi self ! i)\<^sup>2)
                    (cov (rw_r self u y ! i) (rw_rm self u y ! i) (self_b self ! i)))
          [0..<self_m self])"

definition rw_Dyup0 :: "mixture \<Rightarrow> mat list \<Rightarrow> mat list \<Rightarrow> mat" where
  "rw_Dyup0 self u y =
     matmul (self_iB0 self)
       (msub (outer (rw_pu self u) (rw_yu self u y))
          (map (map (\<lambda>v. v * rw_iw0 self u))
             (py_sum_mat
                (map (\<lambda>i. mdivs (mscale (self_pi self ! i)
                                    (matmul (self_P self ! i) (mat_T (rw_z self u y ! i))))
                             (real (self_n self ! i)))
                   [0..<self_m self]))))"

definition rw_G :: "mixture \<Rightarrow> mat list \<Rightarrow> mat list \<Rightarrow> nat \<Rightarrow> mat" where
  "rw_G self u y rp =
     np_block
       [[matmul (self_iB0 self) (as_column ((rw_pu self u)[rp := rw_pu self u ! rp - 1])),
         rw_Dyup0 self u y],
        [replicate (length (rw_yu self u y)) [0],
         diag_mat (replicate (length (rw_yu self u y)) (rw_iw0 self u))],
        [[[rw_iw0 self u]], [map (\<lambda>v. - v * rw_iw0 self u) (rw_yu self u y)]]]"

definition pt_wm :: "mixture \<Rightarrow> mat list \<Rightarrow> vec list" where
  "pt_wm self u = map (\<lambda>i. mean1 (rw_w self u ! i)) [0..<self_m self]"

definition pt_Sp0w0 ::
  "(mat \<Rightarrow> vec \<Rightarrow> mat \<Rightarrow> vec \<Rightarrow> nat \<Rightarrow> mat) \<Rightarrow> mixture \<Rightarrow> mat list \<Rightarrow> mat"
where
  "pt_Sp0w0 ccov self u =
     py_sum_mat
       (map (\<lambda>i. mscale ((self_pi self ! i)\<^sup>2)
                    (ccov (self_P self ! i) (self_pm self ! i) (rw_w self u ! i)
                       (pt_wm self u ! i) (self_b self ! i)))
          [0..<self_m self])"

definition pt_Sw0 :: "(mat \<Rightarrow> vec \<Rightarrow> nat \<Rightarrow> mat) \<Rightarrow> mixture \<Rightarrow> mat list \<Rightarrow> mat" where
  "pt_Sw0 cov self u =
     py_sum_mat
       (map (\<lambda>i. mscale ((self_pi self ! i)\<^sup>2)
                    (cov (rw_w self u ! i) (pt_wm self u ! i) (self_b self ! i)))
          [0..<self_m self])"

section \<open>Example inputs\<close>

text \<open>
  Two samples of two configurations each, with one recorded property \<open>E\<close> that is zero
  on every configuration, the reduced potential \<open>E\<close> for both states and block size
  one; and the state that \<open>mixture.__init__\<close> builds from them when the initial guess
  of the free energies is zero.
\<close>

definition example_potential :: "real list \<Rightarrow> real" where
  "example_potential row = row ! 0"

definition example_sample :: sample where
  "example_sample =
     \<lparr> sample_dataset = \<lparr> df_columns = [''E''], df_rows = [[0], [0]] \<rparr>,
       sample_potential = example_potential, sample_neff = 2, sample_b = 1 \<rparr>"

definition example_samples :: "sample list" where
  "example_samples = [example_sample, example_sample]"

definition example_self :: mixture where
  "example_self =
     \<lparr> self_m = 2, self_n = [2, 2], self_neff = [2, 2], self_names = [''E''],
       self_u = [[[0, 0], [0, 0]], [[0, 0], [0, 0]]], self_f = [0, 0], self_b = [],
       self_pi = [], self_P = [], self_pm = [], self_u0 = [], self_p0 = [],
       self_iB0 = [], self_Sp0 = [], self_Theta = [], self_Overlap = [] \<rparr>"

definition zero_guess :: "mat list \<Rightarrow> vec" where
  "zero_guess u = replicate (length u) 0"

text \<open>
  The state that \<open>MICS.__init__\<close> returns on the small mixture (with the transpose in
  the place of the pseudo-inverse), a target potential that is zero on the two
  configurations of each sample, and one property with a value on each configuration.
\<close>

definition example_result :: mixture where
  "example_result = MICS_finish covariance (snd (MICS_start mat_T example_samples example_self))"

definition example_target :: "mat list" where
  "example_target = [[[0, 0]], [[0, 0]]]"

definition example_properties :: "mat list" where
  "example_properties = [[[1, 2]], [[3, 4]]]"

text \<open>Two samples that record the same two properties, in a different column order.\<close>

definition sample_ab :: sample where
  "sample_ab =
     \<lparr> sample_dataset = \<lparr> df_columns = [''a'', ''b''], df_rows = [[0, 0]] \<rparr>,
       sample_potential = example_potential, sample_neff = 1, sample_b = 1 \<rparr>"

definition sample_ba :: sample where
  "sample_ba =
     \<lparr> sample_dataset = \<lparr> df_columns = [''b'', ''a''], df_rows = [[0, 0]] \<rparr>,
       sample_potential = example_potential, sample_neff = 1, sample_b = 1 \<rparr>"

text \<open>A method whose \<open>__initialize__\<close> returns the mixture as it is.\<close>

definition no_method :: "mixture \<Rightarrow> error + mixture" where
  "no_method self = Inr self"

text \<open>A state with two free energies and a diagonal covariance matrix.\<close>

definition example_converged :: mixture where
  "example_converged = example_self\<lparr> self_f := [1, 3], self_Theta := [[1, 0], [0, 4]] \<rparr>"

section \<open>Lists, vectors and matrices\<close>

subsection \<open>Shapes and entries\<close>

lemma is_mat_length: "is_mat r c A \<Longrightarrow> length A = r"
  by (simp add: is_mat_def)

lemma is_mat_ncols: "is_mat r c A \<Longrightarrow> 0 < r \<Longrightarrow> ncols A = c"
  by (cases A) (auto simp: is_mat_def ncols_def)

lemma is_mat_nth: "is_mat r c A \<Longrightarrow> i < r \<Longrightarrow> length (A ! i) = c"
  by (auto simp: is_mat_def list_all_length)

lemma is_matI: "length A = r \<Longrightarrow> (\<And>i. i < r \<Longrightarrow> length (A ! i) = c) \<Longrightarrow> is_mat r c A"
  by (auto simp: is_mat_def list_all_length)

lemma length_column [simp]: "length (column A c) = length A"
  by (simp add: column_def)

lemma nth_column [simp]: "k < length A \<Longrightarrow> column A c ! k = A ! k ! c"
  by (simp add: column_def)

lemma sum_list_map_divide: "sum_list (map (\<lambda>x. h x / c) xs) = sum_list (map h xs) / (c::real)"
  by (induction xs) (simp_all add: add_divide_distrib)

lemma sum_list_pos: "xs \<noteq> [] \<Longrightarrow> (\<And>x. x \<in> set xs \<Longrightarrow> 0 < (x::real)) \<Longrightarrow> 0 < sum_list xs"
  by (induction xs) (auto simp: add_pos_nonneg sum_list_nonneg less_imp_le)

lemma sum_list_upt_sum: "sum_list (map h [0..<m]) = (\<Sum>i<m. h i)"
  by (simp add: interv_sum_list_conv_sum_set_nat atLeast0LessThan)

lemma sum_lessThan_add: "(\<Sum>c<m + q. (F c :: real)) = (\<Sum>c<m. F c) + (\<Sum>c<(q::nat). F (m + c))"
  by (induction q) (simp_all add: add.assoc)

lemma length_vadd [simp]: "length (vadd x y) = min (length x) (length y)"
  by (simp add: vadd_def)

lemma length_vsub [simp]: "length (vsub x y) = min (length x) (length y)"
  by (simp add: vsub_def)

lemma length_vscale [simp]: "length (vscale c x) = length x"
  by (simp add: vscale_def)

lemma nth_vadd [simp]: "k < length x \<Longrightarrow> k < length y \<Longrightarrow> vadd x y ! k = x ! k + y ! k"
  by (simp add: vadd_def)

lemma nth_vsub [simp]: "k < length x \<Longrightarrow> k < length y \<Longrightarrow> vsub x y ! k = x ! k - y ! k"
  by (simp add: vsub_def)

lemma nth_vscale [simp]: "k < length x \<Longrightarrow> vscale c x ! k = c * x ! k"
  by (simp add: vscale_def)

lemma foldl_vadd_length: "\<forall>w\<in>set vs. length w = length v \<Longrightarrow> length (foldl vadd v vs) = length v"
  by (induction vs arbitrary: v) simp_all

lemma foldl_vadd_nth:
  "\<forall>w\<in>set vs. length w = length v \<Longrightarrow> k < length v \<Longrightarrow>
   foldl vadd v vs ! k = v ! k + sum_list (map (\<lambda>w. w ! k) vs)"
  by (induction vs arbitrary: v) (simp_all add: algebra_simps)

lemma length_py_sum_vec: "vs \<noteq> [] \<Longrightarrow> \<forall>w\<in>set vs. length w = L \<Longrightarrow> length (py_sum_vec vs) = L"
  by (cases vs) (auto simp: foldl_vadd_length)

lemma nth_py_sum_vec:
  "vs \<noteq> [] \<Longrightarrow> \<forall>w\<in>set vs. length w = L \<Longrightarrow> k < L \<Longrightarrow>
   py_sum_vec vs ! k = sum_list (map (\<lambda>w. w ! k) vs)"
  by (cases vs) (auto simp: foldl_vadd_nth)

lemma is_mat_madd: "is_mat r c A \<Longrightarrow> is_mat r c B \<Longrightarrow> is_mat r c (madd A B)"
  by (auto simp: is_mat_def madd_def list_all_length)

lemma is_mat_msub: "is_mat r c A \<Longrightarrow> is_mat r c B \<Longrightarrow> is_mat r c (msub A B)"
  by (auto simp: is_mat_def msub_def list_all_length)

lemma is_mat_mscale: "is_mat r c A \<Longrightarrow> is_mat r c (mscale x A)"
  by (auto simp: is_mat_def mscale_def list_all_length)

lemma is_mat_mdivs: "is_mat r c A \<Longrightarrow> is_mat r c (mdivs A x)"
  by (auto simp: is_mat_def mdivs_def list_all_length)

lemma nth_madd: "is_mat r c A \<Longrightarrow> is_mat r c B \<Longrightarrow> j < r \<Longrightarrow> k < c \<Longrightarrow> madd A B ! j ! k = A ! j ! k + B ! j ! k"
  by (auto simp: is_mat_def madd_def list_all_length)

lemma nth_msub: "is_mat r c A \<Longrightarrow> is_mat r c B \<Longrightarrow> j < r \<Longrightarrow> k < c \<Longrightarrow> msub A B ! j ! k = A ! j ! k - B ! j ! k"
  by (auto simp: is_mat_def msub_def list_all_length)

lemma nth_mscale: "is_mat r c A \<Longrightarrow> j < r \<Longrightarrow> k < c \<Longrightarrow> mscale x A ! j ! k = x * A ! j ! k"
  by (auto simp: is_mat_def mscale_def list_all_length)

lemma nth_mdivs: "is_mat r c A \<Longrightarrow> j < r \<Longrightarrow> k < c \<Longrightarrow> mdivs A x ! j ! k = A ! j ! k / x"
  by (auto simp: is_mat_def mdivs_def list_all_length)

lemma foldl_madd_is_mat: "is_mat r c A \<Longrightarrow> \<forall>B\<in>set Bs. is_mat r c B \<Longrightarrow> is_mat r c (foldl madd A Bs)"
  by (induction Bs arbitrary: A) (simp_all add: is_mat_madd)

lemma foldl_madd_nth:
  "is_mat r c A \<Longrightarrow> \<forall>B\<in>set Bs. is_mat r c B \<Longrightarrow> j < r \<Longrightarrow> k < c \<Longrightarrow>
   foldl madd A Bs ! j ! k = A ! j ! k + sum_list (map (\<lambda>B. B ! j ! k) Bs)"
  by (induction Bs arbitrary: A) (simp_all add: is_mat_madd nth_madd algebra_simps)

lemma is_mat_py_sum_mat: "As \<noteq> [] \<Longrightarrow> \<forall>B\<in>set As. is_mat r c B \<Longrightarrow> is_mat r c (py_sum_mat As)"
  by (cases As) (auto simp: foldl_madd_is_mat)

lemma nth_py_sum_mat:
  "As \<noteq> [] \<Longrightarrow> \<forall>B\<in>set As. is_mat r c B \<Longrightarrow> j < r \<Longrightarrow> k < c \<Longrightarrow>
   py_sum_mat As ! j ! k = sum_list (map (\<lambda>B. B ! j ! k) As)"
  by (cases As) (auto simp: foldl_madd_nth)

lemma py_sum_scaled_is_mat:
  assumes "0 < m" "\<And>i. i < m \<Longrightarrow> is_mat r c (M i)"
  shows "is_mat r c (py_sum_mat (map (\<lambda>i. mscale (s i) (M i)) [0..<m]))"
proof (rule is_mat_py_sum_mat)
  show "map (\<lambda>i. mscale (s i) (M i)) [0..<m] \<noteq> []" using assms(1) by simp
  show "\<forall>B\<in>set (map (\<lambda>i. mscale (s i) (M i)) [0..<m]). is_mat r c B"
    using assms(2) by (auto intro: is_mat_mscale)
qed

lemma py_sum_scaled_nth:
  assumes "0 < m" "\<And>i. i < m \<Longrightarrow> is_mat r c (M i)" "j < r" "k < c"
  shows "py_sum_mat (map (\<lambda>i. mscale (s i) (M i)) [0..<m]) ! j ! k = (\<Sum>i<m. s i * M i ! j ! k)"
proof -
  let ?As = "map (\<lambda>i. mscale (s i) (M i)) [0..<m]"
  have ne: "?As \<noteq> []" using assms(1) by simp
  have all: "\<forall>B\<in>set ?As. is_mat r c B" using assms(2) by (auto intro: is_mat_mscale)
  have "py_sum_mat ?As ! j ! k = sum_list (map (\<lambda>B. B ! j ! k) ?As)"
    by (rule nth_py_sum_mat[OF ne all assms(3,4)])
  also have "\<dots> = sum_list (map (\<lambda>i. mscale (s i) (M i) ! j ! k) [0..<m])"
    by (simp add: comp_def)
  also have "\<dots> = (\<Sum>i<m. mscale (s i) (M i) ! j ! k)" by (rule sum_list_upt_sum)
  also have "\<dots> = (\<Sum>i<m. s i * M i ! j ! k)"
    by (rule sum.cong[OF refl]) (simp add: nth_mscale[OF assms(2) assms(3,4)])
  finally show ?thesis .
qed

lemma is_mat_mat_T: "is_mat r c A \<Longrightarrow> 0 < r \<Longrightarrow> is_mat c r (mat_T A)"
  by (simp add: is_mat_def mat_T_def is_mat_ncols list_all_length)

lemma nth_mat_T: "is_mat r c A \<Longrightarrow> 0 < r \<Longrightarrow> k < c \<Longrightarrow> mat_T A ! k = column A k"
  by (simp add: mat_T_def is_mat_ncols)

lemma column_mat_T: "is_mat r c A \<Longrightarrow> 0 < r \<Longrightarrow> j < r \<Longrightarrow> column (mat_T A) j = A ! j"
  by (rule nth_equalityI) (simp_all add: is_mat_nth is_mat_length[OF is_mat_mat_T] nth_mat_T is_mat_length)

lemma is_mat_matmul: "is_mat r n A \<Longrightarrow> is_mat n c B \<Longrightarrow> 0 < n \<Longrightarrow> is_mat r c (matmul A B)"
  by (simp add: is_mat_def matmul_def list_all_length is_mat_length[OF is_mat_mat_T])

lemma nth_matmul: "is_mat r n A \<Longrightarrow> is_mat n c B \<Longrightarrow> 0 < n \<Longrightarrow> j < r \<Longrightarrow> k < c \<Longrightarrow>
   matmul A B ! j ! k = dot (A ! j) (column B k)"
  by (simp add: matmul_def is_mat_length is_mat_length[OF is_mat_mat_T] nth_mat_T)

lemma length_matmul [simp]: "length (matmul A B) = length A"
  by (simp add: matmul_def)

lemma is_mat_diag_mat: "is_mat (length v) (length v) (diag_mat v)"
  by (simp add: is_mat_def diag_mat_def list_all_length)

lemma nth_diag_mat: "j < length v \<Longrightarrow> k < length v \<Longrightarrow> diag_mat v ! j ! k = (if j = k then v ! j else 0)"
  by (simp add: diag_mat_def)

lemma length_diag_mat [simp]: "length (diag_mat v) = length v"
  by (simp add: diag_mat_def)

lemma length_matvec [simp]: "length (matvec A v) = length A"
  by (simp add: matvec_def)

lemma nth_matvec [simp]: "j < length A \<Longrightarrow> matvec A v ! j = dot (A ! j) v"
  by (simp add: matvec_def)

lemma length_mean1 [simp]: "length (mean1 A) = length A"
  by (simp add: mean1_def)

lemma mean1_append: "mean1 (A @ B) = mean1 A @ mean1 B"
  by (simp add: mean1_def)

lemma nth_mean1: "j < length A \<Longrightarrow> mean1 A ! j = sum_list (A ! j) / real (length (A ! j))"
  by (simp add: mean1_def)

lemma mat_T_symmetricI:
  assumes "is_mat r r A" "0 < r" "\<And>j k. j < r \<Longrightarrow> k < r \<Longrightarrow> A ! j ! k = A ! k ! j"
  shows "mat_T A = A"
proof (rule nth_equalityI)
  show "length (mat_T A) = length A"
    using assms by (simp add: is_mat_length[OF is_mat_mat_T] is_mat_length)
  fix k assume "k < length (mat_T A)"
  then have k: "k < r" using assms by (simp add: is_mat_length[OF is_mat_mat_T])
  show "mat_T A ! k = A ! k"
    unfolding nth_mat_T[OF assms(1,2) k]
    using assms k by (intro nth_equalityI) (simp_all add: is_mat_length is_mat_nth)
qed

lemma PPT_is_mat:
  assumes "is_mat m n P" "0 < m" "0 < n"
  shows "is_mat m m (matmul P (mat_T P))"
  by (rule is_mat_matmul[OF assms(1) is_mat_mat_T[OF assms(1,2)] assms(3)])

lemma PPT_nth:
  assumes "is_mat m n P" "0 < m" "0 < n" "j < m" "k < m"
  shows "matmul P (mat_T P) ! j ! k = dot (P ! j) (P ! k)"
  unfolding nth_matmul[OF assms(1) is_mat_mat_T[OF assms(1,2)] assms(3,4,5)]
  by (simp add: column_mat_T[OF assms(1,2,5)])

subsection \<open>Inner products\<close>

lemma dot_commute: "dot x y = dot y x"
proof -
  have "map2 (*) x y = map2 (*) y x"
    by (rule nth_equalityI) (simp_all add: mult.commute)
  then show ?thesis by (simp add: dot_def)
qed

lemma dot_zeros: "dot row (replicate n 0) = 0"
proof -
  have "map2 (*) row (replicate n 0) = replicate (min (length row) n) 0"
    by (rule nth_equalityI) simp_all
  then show ?thesis by (simp add: dot_def sum_list_replicate)
qed

lemma matvec_zeros: "matvec A (replicate n 0) = replicate (length A) 0"
  by (rule nth_equalityI) (simp_all add: dot_zeros)

lemma dot_append: "length a = length c \<Longrightarrow> dot (a @ b) (c @ d) = dot a c + dot b d"
  by (simp add: dot_def)

lemma dot_Nil [simp]: "dot [] v = 0" "dot v [] = 0"
  by (simp_all add: dot_def)

lemma dot_Cons [simp]: "dot (x # xs) (y # ys) = x * y + dot xs ys"
  by (simp add: dot_def)

lemma dot_zeros_left: "dot (replicate n 0) v = 0"
  using dot_zeros[of v n] by (simp add: dot_commute)

lemma dot_unit_last: "length v = Suc k \<Longrightarrow> dot (replicate k 0 @ [w]) v = w * v ! k"
proof -
  assume l: "length v = Suc k"
  then have v: "v = take k v @ [v ! k]"
    by (metis lessI take_Suc_conv_app_nth take_all order_refl)
  have "dot (replicate k 0 @ [w]) (take k v @ [v ! k]) = dot (replicate k 0) (take k v) + dot [w] [v ! k]"
    using l by (intro dot_append) simp
  then show ?thesis using v by (simp add: dot_zeros_left)
qed

lemma dot_map_upt:
  "length g = n \<Longrightarrow> dot (map F [0..<n]) g = (\<Sum>c<n. F c * g ! c)"
proof -
  assume l: "length g = n"
  have "map2 (*) (map F [0..<n]) g = map (\<lambda>c. F c * g ! c) [0..<n]"
    using l by (intro nth_equalityI) simp_all
  then show ?thesis by (simp add: dot_def sum_list_upt_sum)
qed

subsection \<open>Columns, blocks and quadratic forms\<close>

lemma column_as_column [simp]: "column (as_column a) 0 = a"
  by (simp add: column_def as_column_def comp_def)

lemma length_as_column [simp]: "length (as_column a) = length a"
  by (simp add: as_column_def)

lemma concat_as_column [simp]: "concat (as_column a) = a"
  by (induction a) (simp_all add: as_column_def)

lemma as_column_rows: "\<forall>row\<in>set (as_column a). row \<noteq> []"
  by (simp add: as_column_def)

lemma mat_T_as_column: "a \<noteq> [] \<Longrightarrow> mat_T (as_column a) = [a]"
  by (cases a) (simp_all add: mat_T_def ncols_def as_column_def column_def comp_def)

lemma matmul_as_column: "v \<noteq> [] \<Longrightarrow> matmul A (as_column v) = as_column (matvec A v)"
  unfolding matmul_def by (simp add: mat_T_as_column) (simp add: as_column_def matvec_def)

lemma np_block_2x2: "np_block [[A, B], [C, D]] = hcat A B @ hcat C D"
  by (simp add: np_block_def)

lemma np_block_3x2: "np_block [[A, B], [C, D], [E, F]] = hcat A B @ hcat C D @ hcat E F"
  by (simp add: np_block_def)

lemma length_hcat [simp]: "length (hcat A B) = min (length A) (length B)"
  by (simp add: hcat_def)

lemma nth_hcat: "j < length A \<Longrightarrow> j < length B \<Longrightarrow> hcat A B ! j = A ! j @ B ! j"
  by (simp add: hcat_def)

lemma is_mat_hcat: "is_mat r c1 A \<Longrightarrow> is_mat r c2 B \<Longrightarrow> is_mat r (c1 + c2) (hcat A B)"
  by (auto simp: is_mat_def hcat_def list_all_length)

lemma is_mat_append: "is_mat r1 c A \<Longrightarrow> is_mat r2 c B \<Longrightarrow> is_mat (r1 + r2) c (A @ B)"
  by (auto simp: is_mat_def)

lemma column_append: "column (X @ Y) c = column X c @ column Y c"
  by (simp add: column_def)

lemma column_hcat_left:
  "is_mat r c1 A \<Longrightarrow> is_mat r c2 B \<Longrightarrow> c < c1 \<Longrightarrow> column (hcat A B) c = column A c"
  by (intro nth_equalityI) (auto simp: is_mat_def list_all_length nth_hcat nth_append)

lemma column_hcat_right:
  "is_mat r c1 A \<Longrightarrow> is_mat r c2 B \<Longrightarrow> column (hcat A B) (c1 + c) = column B c"
  by (intro nth_equalityI) (auto simp: is_mat_def list_all_length nth_hcat nth_append)

lemma column_hcat_0:
  assumes "length X = length Y" "\<forall>row\<in>set X. row \<noteq> []"
  shows "column (hcat X Y) 0 = column X 0"
proof (rule nth_equalityI)
  show "length (column (hcat X Y) 0) = length (column X 0)" using assms(1) by simp
  fix j assume "j < length (column (hcat X Y) 0)"
  then have j: "j < length X" "j < length Y" using assms(1) by simp_all
  then have "X ! j \<noteq> []" using assms(2) by simp
  then show "column (hcat X Y) 0 ! j = column X 0 ! j"
    using j by (simp add: nth_hcat nth_append)
qed

lemma ncols_append_pos: "A \<noteq> [] \<Longrightarrow> A ! 0 \<noteq> [] \<Longrightarrow> 0 < ncols (A @ B)"
  by (cases A) (simp_all add: ncols_def)

lemma quad_form_sum:
  assumes "is_mat n n S" "0 < n" "length g = n"
  shows "quad_form g S = (\<Sum>c<n. dot g (column S c) * g ! c)"
proof -
  have "mat_T S = map (column S) [0..<n]"
    using assms by (simp add: mat_T_def is_mat_ncols)
  then have "map (dot g) (mat_T S) = map (\<lambda>c. dot g (column S c)) [0..<n]" by simp
  then show ?thesis unfolding quad_form_def using dot_map_upt[OF assms(3)] by simp
qed

lemma quad_form_block:
  assumes A: "is_mat m m A" and B: "is_mat m q B" and C: "is_mat q q C"
    and m: "0 < m" and a: "length a = m" and h: "length h = q"
  shows "quad_form (a @ h) (np_block [[A, B], [mat_T B, C]])
       = (\<Sum>c<m. (dot a (column A c) + dot h (B ! c)) * a ! c)
       + (\<Sum>c<q. (dot a (column B c) + dot h (column C c)) * h ! c)"
proof -
  let ?S = "np_block [[A, B], [mat_T B, C]]"
  have Bt: "is_mat q m (mat_T B)" by (rule is_mat_mat_T[OF B m])
  have top: "is_mat m (m + q) (hcat A B)" by (rule is_mat_hcat[OF A B])
  have bot: "is_mat q (m + q) (hcat (mat_T B) C)" by (rule is_mat_hcat[OF Bt C])
  have S: "is_mat (m + q) (m + q) ?S" unfolding np_block_2x2 by (rule is_mat_append[OF top bot])
  have colL: "\<And>c. c < m \<Longrightarrow> column ?S c = column A c @ B ! c"
    unfolding np_block_2x2 column_append
    by (simp add: column_hcat_left[OF A B] column_hcat_left[OF Bt C] column_mat_T[OF B m])
  have colR: "\<And>c. column ?S (m + c) = column B c @ column C c"
    unfolding np_block_2x2 column_append
    by (simp add: column_hcat_right[OF A B] column_hcat_right[OF Bt C])
  have "quad_form (a @ h) ?S = (\<Sum>c<m + q. dot (a @ h) (column ?S c) * (a @ h) ! c)"
    using m a h by (intro quad_form_sum[OF S]) simp_all
  also have "\<dots> = (\<Sum>c<m. dot (a @ h) (column ?S c) * (a @ h) ! c)
                 + (\<Sum>c<q. dot (a @ h) (column ?S (m + c)) * (a @ h) ! (m + c))"
    by (rule sum_lessThan_add)
  also have "(\<Sum>c<m. dot (a @ h) (column ?S c) * (a @ h) ! c)
           = (\<Sum>c<m. (dot a (column A c) + dot h (B ! c)) * a ! c)"
  proof (rule sum.cong[OF refl])
    fix c assume "c \<in> {..<m}"
    then have c: "c < m" by simp
    have "dot (a @ h) (column A c @ B ! c) = dot a (column A c) + dot h (B ! c)"
      using a A by (intro dot_append) (simp add: is_mat_length)
    then show "dot (a @ h) (column ?S c) * (a @ h) ! c = (dot a (column A c) + dot h (B ! c)) * a ! c"
      using c a by (simp add: colL nth_append)
  qed
  also have "(\<Sum>c<q. dot (a @ h) (column ?S (m + c)) * (a @ h) ! (m + c))
           = (\<Sum>c<q. (dot a (column B c) + dot h (column C c)) * h ! c)"
  proof (rule sum.cong[OF refl])
    fix c assume "c \<in> {..<q}"
    have "dot (a @ h) (column B c @ column C c) = dot a (column B c) + dot h (column C c)"
      using a B by (intro dot_append) (simp add: is_mat_length)
    then show "dot (a @ h) (column ?S (m + c)) * (a @ h) ! (m + c)
        = (dot a (column B c) + dot h (column C c)) * h ! c"
      using a by (simp add: colR nth_append)
  qed
  finally show ?thesis .
qed

lemma quad_form_block_last:
  assumes A: "is_mat m m A" and B: "is_mat m (Suc k) B" and C: "is_mat (Suc k) (Suc k) C"
    and m: "0 < m" and a: "length a = m"
  shows "quad_form (a @ replicate k 0 @ [w]) (np_block [[A, B], [mat_T B, C]])
       = (\<Sum>c<m. (dot a (column A c) + w * B ! c ! k) * a ! c)
       + (dot a (column B k) + w * C ! k ! k) * w"
proof -
  let ?h = "replicate k 0 @ [w]"
  have h: "length ?h = Suc k" by simp
  have 1: "(\<Sum>c<m. (dot a (column A c) + dot ?h (B ! c)) * a ! c)
         = (\<Sum>c<m. (dot a (column A c) + w * B ! c ! k) * a ! c)"
  proof (rule sum.cong[OF refl])
    fix c assume "c \<in> {..<m}"
    then have "length (B ! c) = Suc k" using B by (simp add: is_mat_nth)
    then show "(dot a (column A c) + dot ?h (B ! c)) * a ! c
             = (dot a (column A c) + w * B ! c ! k) * a ! c"
      by (simp add: dot_unit_last)
  qed
  have z: "(\<Sum>c<k. (dot a (column B c) + dot ?h (column C c)) * ?h ! c) = 0"
    by (rule sum.neutral) (simp add: nth_append)
  have lc: "length (column C k) = Suc k" using C by (simp add: is_mat_length)
  have ck: "column C k ! k = C ! k ! k" using C by (simp add: is_mat_length)
  have 2: "(\<Sum>c<Suc k. (dot a (column B c) + dot ?h (column C c)) * ?h ! c)
         = (dot a (column B k) + w * C ! k ! k) * w"
    unfolding sum.lessThan_Suc z by (simp add: dot_unit_last[OF lc] ck nth_append)
  show ?thesis
    unfolding quad_form_block[OF A B C m a h] 1 2 ..
qed

lemma triple_product_00:
  assumes "0 < ncols G"
  shows "matmul (matmul (mat_T G) S) G ! 0 ! 0 = quad_form (column G 0) S"
proof -
  have l: "0 < length (mat_T G)" using assms by (simp add: mat_T_def)
  have g: "mat_T G ! 0 = column G 0" using assms by (simp add: mat_T_def)
  have "matmul (matmul (mat_T G) S) G ! 0 = map (dot (matmul (mat_T G) S ! 0)) (mat_T G)"
    using l by (simp add: matmul_def)
  then have "matmul (matmul (mat_T G) S) G ! 0 ! 0 = dot (matmul (mat_T G) S ! 0) (mat_T G ! 0)"
    using l by simp
  also have "matmul (mat_T G) S ! 0 = map (dot (mat_T G ! 0)) (mat_T S)"
    using l by (simp add: matmul_def)
  finally show ?thesis by (simp add: g quad_form_def)
qed

subsection \<open>Python indices\<close>

lemma py_index_nat: "r < n \<Longrightarrow> py_index n (int r) = Inr r"
  by (simp add: py_index_def)

lemma py_index_neg: "r < n \<Longrightarrow> py_index n (int r - int n) = Inr r"
  by (simp add: py_index_def)

lemma py_index_cases:
  obtains (out) "py_index n i = Inl IndexError" "\<not> (- int n \<le> i \<and> i < int n)"
        | (inr) r where "py_index n i = Inr r" "r < n" "- int n \<le> i \<and> i < int n"
proof (cases "- int n \<le> i \<and> i < int n")
  case True
  then have "py_index n i = Inr (nat (if i < 0 then int n + i else i))"
    "nat (if i < 0 then int n + i else i) < n"
    by (auto simp: py_index_def Let_def)
  with True inr show ?thesis by blast
next
  case False
  then have "py_index n i = Inl IndexError" by (auto simp: py_index_def Let_def)
  with False out show ?thesis by blast
qed

subsection \<open>The estimators and the transpose as instances of the parameters\<close>

lemma entry_matrix_is_mat:
  assumes "length y = r" "length ym = r" "length z = q" "length zm = q"
  shows "is_mat r q (map2 (\<lambda>yr ymr. map2 (\<lambda>zr zmr. E yr ymr zr zmr) z zm) y ym)"
  using assms by (auto simp: is_mat_def list_all_length)

lemma entry_matrix_nth:
  assumes "length y = r" "length ym = r" "length z = q" "length zm = q" "j < r" "c < q"
  shows "map2 (\<lambda>yr ymr. map2 (\<lambda>zr zmr. E yr ymr zr zmr) z zm) y ym ! j ! c
       = E (y ! j) (ym ! j) (z ! c) (zm ! c)"
  using assms by simp

lemma length_cross_covariance:
  "length (cross_covariance y ym z zm b) = min (length y) (length ym)"
  by (simp add: cross_covariance_def)

lemma cov_shape_covariance: "cov_shape covariance"
  by (auto simp: cov_shape_def covariance_def cross_covariance_def is_mat_def list_all_length)

lemma entrywise_covariance: "entrywise_estimators cross_covariance covariance"
  unfolding entrywise_estimators_def
  by (intro exI[of _ cross_covariance_entry]) (simp add: covariance_def cross_covariance_def)

lemma pinv_shape_mat_T: "pinv_shape mat_T"
  by (simp add: pinv_shape_def is_mat_mat_T)

lemma pinv_symmetric_mat_T: "pinv_symmetric mat_T"
  by (simp add: pinv_symmetric_def)

section \<open>The iteration of the solver\<close>

subsection \<open>The pass over one sample\<close>

lemma nr_sample_P: "self_P (nr_sample g i self) = (self_P self)[i := sample_P g (self_u self ! i)]"
  unfolding nr_sample_def Let_def sample_P_def sample_numer_def sample_x_def by (simp del: map_map)

lemma nr_sample_u0: "self_u0 (nr_sample g i self) = (self_u0 self)[i := sample_u0 g (self_u self ! i)]"
  unfolding nr_sample_def Let_def sample_u0_def sample_numer_def sample_x_def by (simp del: map_map)

lemma nr_sample_pm: "self_pm (nr_sample g i self) = (self_pm self)[i := mean1 ((self_P self)[i := sample_P g (self_u self ! i)] ! i)]"
  unfolding nr_sample_def Let_def sample_P_def sample_numer_def sample_x_def by (simp del: map_map)

lemma nr_sample_other [simp]:
  "self_u (nr_sample g i self) = self_u self"
  "self_f (nr_sample g i self) = self_f self"
  "self_m (nr_sample g i self) = self_m self"
  "self_n (nr_sample g i self) = self_n self"
  "self_pi (nr_sample g i self) = self_pi self"
  "self_b (nr_sample g i self) = self_b self"
  "self_neff (nr_sample g i self) = self_neff self"
  "self_names (nr_sample g i self) = self_names self"
  "self_Sp0 (nr_sample g i self) = self_Sp0 self"
  "self_Theta (nr_sample g i self) = self_Theta self"
  "self_Overlap (nr_sample g i self) = self_Overlap self"
  by (simp_all add: nr_sample_def Let_def)

lemma is_mat_sample_x: "length g = m \<Longrightarrow> is_mat m n ui \<Longrightarrow> is_mat m n (sample_x g ui)"
  by (auto simp: is_mat_def sample_x_def list_all_length)

lemma nth_sample_x: "length g = m \<Longrightarrow> is_mat m n ui \<Longrightarrow> k < m \<Longrightarrow> t < n \<Longrightarrow> sample_x g ui ! k ! t = g ! k - ui ! k ! t"
  by (auto simp: is_mat_def sample_x_def list_all_length)

lemma length_amax0: "is_mat m n x \<Longrightarrow> 0 < m \<Longrightarrow> length (amax0 x) = n"
  by (simp add: amax0_def is_mat_ncols)

lemma length_sum0: "is_mat m n x \<Longrightarrow> 0 < m \<Longrightarrow> length (sum0 x) = n"
  by (simp add: sum0_def is_mat_ncols)

lemma nth_sum0: "is_mat m n x \<Longrightarrow> 0 < m \<Longrightarrow> t < n \<Longrightarrow> sum0 x ! t = sum_list (column x t)"
  by (simp add: sum0_def is_mat_ncols)

lemma is_mat_sample_numer: assumes "length g = m" "is_mat m n ui" "0 < m" shows "is_mat m n (sample_numer g ui)"
proof -
  have x: "is_mat m n (sample_x g ui)" using assms by (simp add: is_mat_sample_x)
  show ?thesis
    using x length_amax0[OF x assms(3)]
    by (auto simp: is_mat_def sample_numer_def list_all_length)
qed

lemma nth_sample_numer: assumes "length g = m" "is_mat m n ui" "0 < m" "k < m" "t < n"
  shows "sample_numer g ui ! k ! t = exp (sample_x g ui ! k ! t - amax0 (sample_x g ui) ! t)"
proof -
  have x: "is_mat m n (sample_x g ui)" using assms by (simp add: is_mat_sample_x)
  show ?thesis
    using x length_amax0[OF x assms(3)] assms
    by (auto simp: is_mat_def sample_numer_def list_all_length)
qed

lemma denom_pos: assumes "length g = m" "is_mat m n ui" "0 < m" "t < n"
  shows "0 < sum0 (sample_numer g ui) ! t"
proof -
  have nm: "is_mat m n (sample_numer g ui)" using assms by (simp add: is_mat_sample_numer)
  have "0 < sum_list (column (sample_numer g ui) t)"
  proof (rule sum_list_pos)
    show "column (sample_numer g ui) t \<noteq> []" using nm assms(3) by (auto simp: column_def is_mat_def)
    fix x assume "x \<in> set (column (sample_numer g ui) t)"
    then obtain k where k: "k < m" "x = sample_numer g ui ! k ! t"
      using nm by (auto simp: column_def is_mat_def in_set_conv_nth)
    show "0 < x" unfolding k(2) nth_sample_numer[OF assms(1,2,3) k(1) assms(4)] by simp
  qed
  then show ?thesis using nth_sum0[OF nm assms(3,4)] by simp
qed

lemma is_mat_sample_P: assumes "length g = m" "is_mat m n ui" "0 < m" shows "is_mat m n (sample_P g ui)"
proof -
  have nm: "is_mat m n (sample_numer g ui)" using assms by (simp add: is_mat_sample_numer)
  show ?thesis
    using nm length_sum0[OF nm assms(3)]
    by (auto simp: is_mat_def sample_P_def list_all_length)
qed

lemma nth_sample_P: assumes "length g = m" "is_mat m n ui" "0 < m" "k < m" "t < n"
  shows "sample_P g ui ! k ! t = sample_numer g ui ! k ! t / sum0 (sample_numer g ui) ! t"
proof -
  have nm: "is_mat m n (sample_numer g ui)" using assms by (simp add: is_mat_sample_numer)
  show ?thesis
    using nm length_sum0[OF nm assms(3)] assms
    by (auto simp: is_mat_def sample_P_def list_all_length)
qed

lemma sample_P_nonneg: assumes "length g = m" "is_mat m n ui" "0 < m" "k < m" "t < n"
  shows "0 < sample_P g ui ! k ! t"
  unfolding nth_sample_P[OF assms] nth_sample_numer[OF assms]
  using denom_pos[OF assms(1,2,3,5)] by simp

lemma sample_P_colsum: assumes "length g = m" "is_mat m n ui" "0 < m" "t < n"
  shows "sum_list (column (sample_P g ui) t) = 1"
proof -
  have nm: "is_mat m n (sample_numer g ui)" using assms by (simp add: is_mat_sample_numer)
  have pm: "is_mat m n (sample_P g ui)" using assms by (simp add: is_mat_sample_P)
  have "column (sample_P g ui) t = map (\<lambda>v. v / sum0 (sample_numer g ui) ! t) (column (sample_numer g ui) t)"
    using nm pm nth_sample_P[OF assms(1,2,3) _ assms(4)]
    by (intro nth_equalityI) (auto simp: is_mat_def)
  then have "sum_list (column (sample_P g ui) t) = sum_list (column (sample_numer g ui) t) / sum0 (sample_numer g ui) ! t"
    by (simp add: sum_list_map_divide[where h="\<lambda>v. v", simplified])
  also have "\<dots> = 1"
    using denom_pos[OF assms] nth_sum0[OF nm assms(3,4)] by simp
  finally show ?thesis .
qed

lemma fold_nr_sample_other [simp]:
  "self_u (fold (nr_sample g) js self) = self_u self"
  "self_f (fold (nr_sample g) js self) = self_f self"
  "self_m (fold (nr_sample g) js self) = self_m self"
  "self_n (fold (nr_sample g) js self) = self_n self"
  "self_pi (fold (nr_sample g) js self) = self_pi self"
  "self_b (fold (nr_sample g) js self) = self_b self"
  "self_neff (fold (nr_sample g) js self) = self_neff self"
  "self_names (fold (nr_sample g) js self) = self_names self"
  "self_Sp0 (fold (nr_sample g) js self) = self_Sp0 self"
  "self_Theta (fold (nr_sample g) js self) = self_Theta self"
  "self_Overlap (fold (nr_sample g) js self) = self_Overlap self"
  by (induction js arbitrary: self; simp)+

lemma fold_nr_sample_lengths [simp]:
  "length (self_P (fold (nr_sample g) js self)) = length (self_P self)"
  "length (self_pm (fold (nr_sample g) js self)) = length (self_pm self)"
  "length (self_u0 (fold (nr_sample g) js self)) = length (self_u0 self)"
  by (induction js arbitrary: self; simp add: nr_sample_P nr_sample_pm nr_sample_u0)+

lemma fold_nr_sample_P:
  "i < length (self_P self) \<Longrightarrow>
   self_P (fold (nr_sample g) js self) ! i =
     (if i \<in> set js then sample_P g (self_u self ! i) else self_P self ! i)"
proof (induction js arbitrary: self)
  case Nil then show ?case by simp
next
  case (Cons j js)
  have "i < length (self_P (nr_sample g j self))" using Cons.prems by (simp add: nr_sample_P)
  from Cons.IH[OF this] show ?case
    using Cons.prems by (auto simp: nr_sample_P)
qed

lemma fold_nr_sample_u0:
  "i < length (self_u0 self) \<Longrightarrow>
   self_u0 (fold (nr_sample g) js self) ! i =
     (if i \<in> set js then sample_u0 g (self_u self ! i) else self_u0 self ! i)"
proof (induction js arbitrary: self)
  case Nil then show ?case by simp
next
  case (Cons j js)
  have "i < length (self_u0 (nr_sample g j self))" using Cons.prems by (simp add: nr_sample_u0)
  from Cons.IH[OF this] show ?case
    using Cons.prems by (auto simp: nr_sample_u0)
qed

lemma fold_nr_sample_pm:
  "i < length (self_pm self) \<Longrightarrow> length (self_P self) = length (self_pm self) \<Longrightarrow>
   self_pm (fold (nr_sample g) js self) ! i =
     (if i \<in> set js then mean1 (sample_P g (self_u self ! i)) else self_pm self ! i)"
proof (induction js arbitrary: self)
  case Nil then show ?case by simp
next
  case (Cons j js)
  have 1: "i < length (self_pm (nr_sample g j self))" using Cons.prems by (simp add: nr_sample_pm)
  have 2: "length (self_P (nr_sample g j self)) = length (self_pm (nr_sample g j self))"
    using Cons.prems by (simp add: nr_sample_pm nr_sample_P)
  from Cons.IH[OF 1 2] show ?case
    using Cons.prems by (auto simp: nr_sample_pm)
qed

subsection \<open>The state after an iteration\<close>

lemma nri_fields:
  "self_u (snd (newton_raphson_iteration pinv self)) = self_u self"
  "self_f (snd (newton_raphson_iteration pinv self)) = self_f self"
  "self_m (snd (newton_raphson_iteration pinv self)) = self_m self"
  "self_n (snd (newton_raphson_iteration pinv self)) = self_n self"
  "self_pi (snd (newton_raphson_iteration pinv self)) = self_pi self"
  "self_b (snd (newton_raphson_iteration pinv self)) = self_b self"
  "self_neff (snd (newton_raphson_iteration pinv self)) = self_neff self"
  "self_Sp0 (snd (newton_raphson_iteration pinv self)) = self_Sp0 self"
  "self_Theta (snd (newton_raphson_iteration pinv self)) = self_Theta self"
  by (simp_all add: newton_raphson_iteration_def Let_def)

lemma nri_b: "self_b (snd (newton_raphson_iteration pinv self)) = self_b self"
  by (simp add: nri_fields)

lemma nri_P: "self_P (snd (newton_raphson_iteration pinv self)) = self_P (fold (nr_sample (nr_g self)) [0..<self_m self] self)"
  by (simp add: newton_raphson_iteration_def Let_def nr_g_def)

lemma nri_pm: "self_pm (snd (newton_raphson_iteration pinv self)) = self_pm (fold (nr_sample (nr_g self)) [0..<self_m self] self)"
  by (simp add: newton_raphson_iteration_def Let_def nr_g_def)

lemma nri_u0: "self_u0 (snd (newton_raphson_iteration pinv self)) = self_u0 (fold (nr_sample (nr_g self)) [0..<self_m self] self)"
  by (simp add: newton_raphson_iteration_def Let_def nr_g_def)

lemma length_nr_g: "wf_mixture self \<Longrightarrow> length (nr_g self) = self_m self"
  by (simp add: wf_mixture_def nr_g_def)

lemma wf_u: "wf_mixture self \<Longrightarrow> i < self_m self \<Longrightarrow> is_mat (self_m self) (self_n self ! i) (self_u self ! i)"
  by (simp add: wf_mixture_def list_all_iff)

lemma wf_n: "wf_mixture self \<Longrightarrow> i < self_m self \<Longrightarrow> 0 < self_n self ! i"
  by (simp add: wf_mixture_def list_all_iff)

lemma wf_m: "wf_mixture self \<Longrightarrow> 0 < self_m self"
  by (simp add: wf_mixture_def)

lemma nri_P_nth: "wf_mixture self \<Longrightarrow> i < self_m self \<Longrightarrow>
   self_P (snd (newton_raphson_iteration pinv self)) ! i = sample_P (nr_g self) (self_u self ! i)"
  by (simp add: nri_P fold_nr_sample_P wf_mixture_def)

lemma nri_pm_nth: "wf_mixture self \<Longrightarrow> i < self_m self \<Longrightarrow>
   self_pm (snd (newton_raphson_iteration pinv self)) ! i = mean1 (sample_P (nr_g self) (self_u self ! i))"
  by (simp add: nri_pm fold_nr_sample_pm wf_mixture_def)

lemma nri_u0_nth: "wf_mixture self \<Longrightarrow> i < self_m self \<Longrightarrow>
   self_u0 (snd (newton_raphson_iteration pinv self)) ! i = sample_u0 (nr_g self) (self_u self ! i)"
  by (simp add: nri_u0 fold_nr_sample_u0 wf_mixture_def)

lemma wf_nri: "wf_mixture self \<Longrightarrow> wf_mixture (snd (newton_raphson_iteration pinv self))"
  by (simp add: wf_mixture_def nri_fields nri_P nri_pm nri_u0)

lemma nri_softmax: assumes "wf_mixture self" shows "softmax_columns (snd (newton_raphson_iteration pinv self))"
  unfolding softmax_columns_def nri_fields
proof (intro allI impI conjI)
  fix i t assume i: "i < self_m self" and t: "t < self_n self ! i"
  note g = length_nr_g[OF assms] and u = wf_u[OF assms i]
  have m: "0 < self_m self" using assms by (simp add: wf_mixture_def)
  show "sum_list (column (self_P (snd (newton_raphson_iteration pinv self)) ! i) t) = 1"
    unfolding nri_P_nth[OF assms i] by (rule sample_P_colsum[OF g u m t])
  fix k assume k: "k < self_m self"
  show "0 \<le> self_P (snd (newton_raphson_iteration pinv self)) ! i ! k ! t"
    unfolding nri_P_nth[OF assms i] using sample_P_nonneg[OF g u m k t] by simp
qed

lemma nri_p0:
  "self_p0 (snd (newton_raphson_iteration pinv self)) =
   py_sum_vec (map (\<lambda>i. vscale (self_pi self ! i) (self_pm (snd (newton_raphson_iteration pinv self)) ! i))
                 [0..<self_m self])"
  by (simp add: newton_raphson_iteration_def Let_def)

lemma nri_iB0:
  "self_iB0 (snd (newton_raphson_iteration pinv self)) =
   pinv (B0_of (snd (newton_raphson_iteration pinv self)))"
  by (simp add: newton_raphson_iteration_def Let_def B0_of_def)

lemma nri_df:
  "fst (newton_raphson_iteration pinv self) =
   relative_step (self_m self)
     (matvec (self_iB0 (snd (newton_raphson_iteration pinv self)))
        (vsub (self_pi self) (self_p0 (snd (newton_raphson_iteration pinv self)))))"
  by (simp add: newton_raphson_iteration_def Let_def)

lemma nri_P_is_mat:
  assumes "wf_mixture self" "i < self_m self"
  shows "is_mat (self_m self) (self_n self ! i) (self_P (snd (newton_raphson_iteration pinv self)) ! i)"
  unfolding nri_P_nth[OF assms]
  by (rule is_mat_sample_P[OF length_nr_g[OF assms(1)] wf_u[OF assms] wf_m[OF assms(1)]])

lemma nri_pm_length:
  assumes "wf_mixture self" "i < self_m self"
  shows "length (self_pm (snd (newton_raphson_iteration pinv self)) ! i) = self_m self"
  unfolding nri_pm_nth[OF assms]
  using is_mat_sample_P[OF length_nr_g[OF assms(1)] wf_u[OF assms] wf_m[OF assms(1)]]
  by (simp add: is_mat_length)

lemma nri_p0_length:
  assumes "wf_mixture self"
  shows "length (self_p0 (snd (newton_raphson_iteration pinv self))) = self_m self"
  unfolding nri_p0
  using wf_m[OF assms] nri_pm_length[OF assms]
  by (intro length_py_sum_vec) auto

subsection \<open>The matrix B0 is symmetric\<close>

lemma B0_of_alt: "B0_of self = msub (diag_mat (self_p0 self)) (py_sum_mat (map (B0_term self) [0..<self_m self]))"
  by (simp add: B0_of_def B0_term_def[abs_def])

lemma B0_term_is_mat:
  assumes "0 < self_m self" "i < self_m self" "0 < self_n self ! i"
    "is_mat (self_m self) (self_n self ! i) (self_P self ! i)"
  shows "is_mat (self_m self) (self_m self) (B0_term self i)"
  unfolding B0_term_def
  by (intro is_mat_mdivs is_mat_mscale PPT_is_mat[OF assms(4,1,3)])

lemma B0_term_nth:
  assumes "0 < self_m self" "i < self_m self" "0 < self_n self ! i"
    "is_mat (self_m self) (self_n self ! i) (self_P self ! i)" "j < self_m self" "k < self_m self"
  shows "B0_term self i ! j ! k = self_pi self ! i * dot (self_P self ! i ! j) (self_P self ! i ! k) / real (self_n self ! i)"
  unfolding B0_term_def
  by (simp add: nth_mdivs[OF is_mat_mscale[OF PPT_is_mat[OF assms(4,1,3)]] assms(5,6)]
      nth_mscale[OF PPT_is_mat[OF assms(4,1,3)] assms(5,6)] PPT_nth[OF assms(4,1,3,5,6)])

lemma wf_P_D: "wf_P self \<Longrightarrow> i < self_m self \<Longrightarrow> 0 < self_n self ! i \<and> is_mat (self_m self) (self_n self ! i) (self_P self ! i)"
  by (simp add: wf_P_def list_all_iff)

lemma wf_P_nri: assumes "wf_mixture self" shows "wf_P (snd (newton_raphson_iteration pinv self))"
  unfolding wf_P_def nri_fields
  using wf_m[OF assms] nri_p0_length[OF assms] nri_P_is_mat[OF assms] wf_n[OF assms]
  by (simp add: list_all_iff)

lemma B0_sum_is_mat:
  assumes "wf_P self"
  shows "is_mat (self_m self) (self_m self) (py_sum_mat (map (B0_term self) [0..<self_m self]))"
proof (rule is_mat_py_sum_mat)
  show "map (B0_term self) [0..<self_m self] \<noteq> []" using assms by (simp add: wf_P_def)
  show "\<forall>B\<in>set (map (B0_term self) [0..<self_m self]). is_mat (self_m self) (self_m self) B"
    using assms wf_P_D[OF assms] by (auto intro!: B0_term_is_mat simp: wf_P_def)
qed

lemma B0_sum_nth:
  assumes "wf_P self" "j < self_m self" "k < self_m self"
  shows "py_sum_mat (map (B0_term self) [0..<self_m self]) ! j ! k
       = sum_list (map (\<lambda>i. B0_term self i ! j ! k) [0..<self_m self])"
proof -
  have "py_sum_mat (map (B0_term self) [0..<self_m self]) ! j ! k
       = sum_list (map (\<lambda>B. B ! j ! k) (map (B0_term self) [0..<self_m self]))"
  proof (rule nth_py_sum_mat[OF _ _ assms(2,3)])
    show "map (B0_term self) [0..<self_m self] \<noteq> []" using assms by (simp add: wf_P_def)
    show "\<forall>B\<in>set (map (B0_term self) [0..<self_m self]). is_mat (self_m self) (self_m self) B"
      using assms wf_P_D[OF assms(1)] by (auto intro!: B0_term_is_mat simp: wf_P_def)
  qed
  then show ?thesis by (simp add: comp_def)
qed

lemma B0_is_mat: assumes "wf_P self" shows "is_mat (self_m self) (self_m self) (B0_of self)"
proof -
  have d: "is_mat (self_m self) (self_m self) (diag_mat (self_p0 self))"
    using is_mat_diag_mat[of "self_p0 self"] assms by (simp add: wf_P_def)
  show ?thesis unfolding B0_of_alt by (rule is_mat_msub[OF d B0_sum_is_mat[OF assms]])
qed

lemma B0_nth:
  assumes "wf_P self" "j < self_m self" "k < self_m self"
  shows "B0_of self ! j ! k = (if j = k then self_p0 self ! j else 0)
       - sum_list (map (\<lambda>i. self_pi self ! i * dot (self_P self ! i ! j) (self_P self ! i ! k) / real (self_n self ! i)) [0..<self_m self])"
proof -
  have d: "is_mat (self_m self) (self_m self) (diag_mat (self_p0 self))"
    using is_mat_diag_mat[of "self_p0 self"] assms by (simp add: wf_P_def)
  have len: "length (self_p0 self) = self_m self" using assms by (simp add: wf_P_def)
  have m: "0 < self_m self" using assms by (simp add: wf_P_def)
  have "map (\<lambda>i. B0_term self i ! j ! k) [0..<self_m self]
      = map (\<lambda>i. self_pi self ! i * dot (self_P self ! i ! j) (self_P self ! i ! k) / real (self_n self ! i)) [0..<self_m self]"
    using wf_P_D[OF assms(1)] by (intro map_cong refl B0_term_nth[OF m _ _ _ assms(2,3)]) auto
  then have S: "sum_list (map (\<lambda>i. B0_term self i ! j ! k) [0..<self_m self])
      = sum_list (map (\<lambda>i. self_pi self ! i * dot (self_P self ! i ! j) (self_P self ! i ! k) / real (self_n self ! i)) [0..<self_m self])"
    by (rule arg_cong)
  have D: "diag_mat (self_p0 self) ! j ! k = (if j = k then self_p0 self ! j else 0)"
    using assms(2,3) by (simp add: nth_diag_mat len)
  show ?thesis
    unfolding B0_of_alt nth_msub[OF d B0_sum_is_mat[OF assms(1)] assms(2,3)] B0_sum_nth[OF assms] S D
    by (rule refl)
qed

lemma B0_symmetric: assumes "wf_P self" shows "mat_T (B0_of self) = B0_of self"
proof (rule mat_T_symmetricI[OF B0_is_mat[OF assms]])
  show "0 < self_m self" using assms by (simp add: wf_P_def)
  fix j k assume jk: "j < self_m self" "k < self_m self"
  show "B0_of self ! j ! k = B0_of self ! k ! j"
    unfolding B0_nth[OF assms jk] B0_nth[OF assms jk(2,1)]
    by (auto simp: dot_commute[of "_ ! j" "_ ! k"])
qed

lemma nri_iB0_is_mat:
  assumes "wf_mixture self" "pinv_shape pinv"
  shows "is_mat (self_m self) (self_m self) (self_iB0 (snd (newton_raphson_iteration pinv self)))"
  unfolding nri_iB0
  using B0_is_mat[OF wf_P_nri[OF assms(1)], of pinv] assms(2) wf_m[OF assms(1)]
  by (simp add: pinv_shape_def nri_fields)

lemma nri_iB0_symmetric:
  assumes "wf_mixture self" "pinv_symmetric pinv"
  shows "mat_T (self_iB0 (snd (newton_raphson_iteration pinv self))) = self_iB0 (snd (newton_raphson_iteration pinv self))"
  unfolding nri_iB0
  using B0_symmetric[OF wf_P_nri[OF assms(1)], of pinv] assms(2)
  by (simp add: pinv_symmetric_def)

subsection \<open>The correction and the update\<close>

lemma length_relative_step: "length (relative_step m df) = min m (length df) - 1"
  by (simp add: relative_step_def)

lemma nth_relative_step: "k < m - 1 \<Longrightarrow> m \<le> length df \<Longrightarrow> relative_step m df ! k = df ! Suc k - df ! 0"
  by (simp add: relative_step_def)

lemma nri_df_length:
  assumes "wf_mixture self" "pinv_shape pinv"
  shows "length (fst (newton_raphson_iteration pinv self)) = self_m self - 1"
  unfolding nri_df length_relative_step
  using nri_iB0_is_mat[OF assms] by (simp add: is_mat_length)

lemma length_f_update: "length f = m \<Longrightarrow> length df = m - 1 \<Longrightarrow> length (f_update m f df) = m"
  by (cases m) (simp_all add: f_update_def)

lemma f_update_0: "0 < length f \<Longrightarrow> f_update m f df ! 0 = f ! 0"
  by (cases f) (simp_all add: f_update_def)

lemma f_update_nth: "length f = m \<Longrightarrow> length df = m - 1 \<Longrightarrow> 1 \<le> k \<Longrightarrow> k < m \<Longrightarrow>
   f_update m f df ! k = f ! k + df ! (k - 1)"
  by (cases f) (simp_all add: f_update_def nth_append nth_Cons')

section \<open>The loop of the solver\<close>

lemma exceeds_iff: "exceeds tol df \<longleftrightarrow> \<not> (\<forall>d \<in> set df. \<bar>d\<bar> \<le> tol)"
  by (auto simp: exceeds_def list_ex_iff not_le)

lemma MICS_iterate_shift: "MICS_iterate pinv (Suc k) c = MICS_iterate pinv k (loop_body pinv c)"
  by (induction k) simp_all

lemma MICS_loop_returns:
  "\<not> exceeds tol (fst (MICS_iterate pinv k c)) \<Longrightarrow>
   (\<And>j. j < k \<Longrightarrow> exceeds tol (fst (MICS_iterate pinv j c))) \<Longrightarrow>
   MICS_loop pinv tol c = Some (MICS_iterate pinv k c)"
proof (induction k arbitrary: c)
  case 0
  then show ?case by (subst MICS_loop.simps) simp
next
  case (Suc k)
  have ex0: "exceeds tol (fst c)" using Suc.prems(2)[of 0] by simp
  have "MICS_loop pinv tol (loop_body pinv c) = Some (MICS_iterate pinv k (loop_body pinv c))"
  proof (rule Suc.IH)
    show "\<not> exceeds tol (fst (MICS_iterate pinv k (loop_body pinv c)))"
      using Suc.prems(1) by (metis MICS_iterate_shift)
    fix j assume "j < k"
    then have "Suc j < Suc k" by simp
    from Suc.prems(2)[OF this] show "exceeds tol (fst (MICS_iterate pinv j (loop_body pinv c)))"
      by (metis MICS_iterate_shift)
  qed
  then show ?case
    using ex0 by (subst MICS_loop.simps) (metis MICS_iterate_shift)
qed

lemma MICS_loop_Some_iterate:
  assumes "MICS_loop pinv tol c = Some y"
  shows "\<exists>k. y = MICS_iterate pinv k c \<and> \<not> exceeds tol (fst y) \<and>
       (\<forall>j<k. exceeds tol (fst (MICS_iterate pinv j c)))"
proof (rule MICS_loop.raw_induct[where P="\<lambda>pinv tol c y. \<exists>k. y = MICS_iterate pinv k c \<and>
         \<not> exceeds tol (fst y) \<and> (\<forall>j<k. exceeds tol (fst (MICS_iterate pinv j c)))", OF _ assms])
  fix loop :: "(mat \<Rightarrow> mat) \<Rightarrow> real \<Rightarrow> vec \<times> mixture \<Rightarrow> (vec \<times> mixture) option"
  fix pinv tol c y
  assume IH: "\<And>pinv tol c y. loop pinv tol c = Some y \<Longrightarrow>
      \<exists>k. y = MICS_iterate pinv k c \<and> \<not> exceeds tol (fst y) \<and>
         (\<forall>j<k. exceeds tol (fst (MICS_iterate pinv j c)))"
    and eq: "(if exceeds tol (fst c) then loop pinv tol (loop_body pinv c) else Some c) = Some y"
  show "\<exists>k. y = MICS_iterate pinv k c \<and> \<not> exceeds tol (fst y) \<and>
         (\<forall>j<k. exceeds tol (fst (MICS_iterate pinv j c)))"
  proof (cases "exceeds tol (fst c)")
    case False
    with eq have "y = MICS_iterate pinv 0 c" "\<not> exceeds tol (fst y)" by auto
    then show ?thesis by blast
  next
    case True
    with eq have "loop pinv tol (loop_body pinv c) = Some y" by simp
    from IH[OF this] obtain k where k: "y = MICS_iterate pinv k (loop_body pinv c)"
      "\<not> exceeds tol (fst y)" "\<forall>j<k. exceeds tol (fst (MICS_iterate pinv j (loop_body pinv c)))"
      by blast
    have "\<forall>j<Suc k. exceeds tol (fst (MICS_iterate pinv j c))"
    proof (intro allI impI)
      fix j assume j: "j < Suc k"
      show "exceeds tol (fst (MICS_iterate pinv j c))"
      proof (cases j)
        case 0 then show ?thesis using True by simp
      next
        case (Suc j')
        then have "j' < k" using j by simp
        then have "exceeds tol (fst (MICS_iterate pinv j' (loop_body pinv c)))" using k(3) by blast
        then show ?thesis unfolding Suc by (metis MICS_iterate_shift)
      qed
    qed
    moreover have "y = MICS_iterate pinv (Suc k) c" using k(1) by (metis MICS_iterate_shift)
    ultimately show ?thesis using k(2) by blast
  qed
qed

lemma MICS_loop_diverges:
  assumes "\<And>k. exceeds tol (fst (MICS_iterate pinv k c))"
  shows "MICS_loop pinv tol c = None"
proof (cases "MICS_loop pinv tol c")
  case None then show ?thesis .
next
  case (Some y)
  from MICS_loop_Some_iterate[OF this] assms show ?thesis by blast
qed

lemma wf_MICS_setup: "wf_defined self \<Longrightarrow> wf_mixture (MICS_setup samples self)"
  by (simp add: wf_defined_def wf_mixture_def MICS_setup_def Let_def)

lemma MICS_setup_fields:
  "self_f (MICS_setup samples self) = self_f self"
  "self_m (MICS_setup samples self) = self_m self"
  "self_n (MICS_setup samples self) = self_n self"
  "self_u (MICS_setup samples self) = self_u self"
  by (simp_all add: MICS_setup_def Let_def)

lemma wf_f_update:
  "wf_mixture self \<Longrightarrow> length df = self_m self - 1 \<Longrightarrow>
   wf_mixture (self\<lparr>self_f := f_update (self_m self) (self_f self) df\<rparr>)"
  by (simp add: wf_mixture_def length_f_update)

lemma loop_body_fields:
  "self_m (snd (loop_body pinv c)) = self_m (snd c)"
  "self_n (snd (loop_body pinv c)) = self_n (snd c)"
  "self_u (snd (loop_body pinv c)) = self_u (snd c)"
  "self_pi (snd (loop_body pinv c)) = self_pi (snd c)"
  "self_b (snd (loop_body pinv c)) = self_b (snd c)"
  "self_f (snd (loop_body pinv c)) = f_update (self_m (snd c)) (self_f (snd c)) (fst c)"
  by (cases c; simp add: loop_body_def nri_fields)+

lemma loop_inv_nri: "wf_mixture self \<Longrightarrow> pinv_shape pinv \<Longrightarrow> loop_inv (newton_raphson_iteration pinv self)"
  by (simp add: loop_inv_def wf_nri nri_df_length nri_fields)

lemma loop_inv_body: assumes "loop_inv c" "pinv_shape pinv" shows "loop_inv (loop_body pinv c)"
proof (cases c)
  case (Pair df self)
  with assms(1) have "wf_mixture (self\<lparr>self_f := f_update (self_m self) (self_f self) df\<rparr>)"
    by (simp add: loop_inv_def wf_f_update)
  from loop_inv_nri[OF this assms(2)] show ?thesis by (simp add: Pair loop_body_def)
qed

lemma loop_inv_iterate: "loop_inv c \<Longrightarrow> pinv_shape pinv \<Longrightarrow> loop_inv (MICS_iterate pinv k c)"
  by (induction k) (simp_all add: loop_inv_body)

lemma iterate_fields:
  "self_m (snd (MICS_iterate pinv k c)) = self_m (snd c)"
  "self_n (snd (MICS_iterate pinv k c)) = self_n (snd c)"
  "self_u (snd (MICS_iterate pinv k c)) = self_u (snd c)"
  "self_pi (snd (MICS_iterate pinv k c)) = self_pi (snd c)"
  "self_b (snd (MICS_iterate pinv k c)) = self_b (snd c)"
  by (induction k; simp add: loop_body_fields)+

lemma iterate_f0:
  assumes "loop_inv c" "pinv_shape pinv"
  shows "self_f (snd (MICS_iterate pinv k c)) ! 0 = self_f (snd c) ! 0"
proof (induction k)
  case 0 show ?case by simp
next
  case (Suc k)
  have "loop_inv (MICS_iterate pinv k c)" by (rule loop_inv_iterate[OF assms])
  then have "0 < length (self_f (snd (MICS_iterate pinv k c)))"
    by (simp add: loop_inv_def wf_mixture_def)
  then show ?case using Suc by (simp add: loop_body_fields f_update_0)
qed

lemma loop_body_softmax:
  assumes "loop_inv c" shows "softmax_columns (snd (loop_body pinv c))"
proof (cases c)
  case (Pair df self)
  with assms have "wf_mixture (self\<lparr>self_f := f_update (self_m self) (self_f self) df\<rparr>)"
    by (simp add: loop_inv_def wf_f_update)
  from nri_softmax[OF this] show ?thesis by (simp add: Pair loop_body_def)
qed

lemma MICS_finish_fields:
  "self_f (MICS_finish cov self) = self_f self"
  "self_m (MICS_finish cov self) = self_m self"
  "self_n (MICS_finish cov self) = self_n self"
  "self_P (MICS_finish cov self) = self_P self"
  "self_pm (MICS_finish cov self) = self_pm self"
  "self_u0 (MICS_finish cov self) = self_u0 self"
  "self_iB0 (MICS_finish cov self) = self_iB0 self"
  "self_pi (MICS_finish cov self) = self_pi self"
  "self_b (MICS_finish cov self) = self_b self"
  "self_u (MICS_finish cov self) = self_u self"
  "self_p0 (MICS_finish cov self) = self_p0 self"
  by (simp_all add: MICS_finish_def Let_def)

lemma MICS_init_Some_iff:
  "MICS_init pinv cov tol samples self = Some s \<longleftrightarrow>
   (\<exists>c. MICS_loop pinv tol (MICS_start pinv samples self) = Some c \<and>
        s = MICS_finish cov (snd c))"
  by (auto simp: MICS_init_def split: option.splits)

lemma MICS_init_None_iff:
  "MICS_init pinv cov tol samples self = None \<longleftrightarrow>
   MICS_loop pinv tol (MICS_start pinv samples self) = None"
  by (auto simp: MICS_init_def split: option.splits)

lemma loop_inv_start: "wf_defined self \<Longrightarrow> pinv_shape pinv \<Longrightarrow> loop_inv (MICS_start pinv samples self)"
  unfolding MICS_start_def by (rule loop_inv_nri[OF wf_MICS_setup])

lemma MICS_start_fields:
  "self_f (snd (MICS_start pinv samples self)) = self_f self"
  "self_m (snd (MICS_start pinv samples self)) = self_m self"
  "self_n (snd (MICS_start pinv samples self)) = self_n self"
  "self_u (snd (MICS_start pinv samples self)) = self_u self"
  by (simp_all add: MICS_start_def nri_fields MICS_setup_fields)

lemma softmax_columns_finish: "softmax_columns (MICS_finish cov s) = softmax_columns s"
  by (simp add: softmax_columns_def MICS_finish_fields)

lemma iterate_softmax:
  assumes "loop_inv c" "pinv_shape pinv" "softmax_columns (snd c)"
  shows "softmax_columns (snd (MICS_iterate pinv k c))"
proof (cases k)
  case 0 then show ?thesis using assms(3) by simp
next
  case (Suc j)
  have "loop_inv (MICS_iterate pinv j c)" by (rule loop_inv_iterate[OF assms(1,2)])
  from loop_body_softmax[OF this] show ?thesis by (simp add: Suc)
qed

lemma MICS_finish_Sp0:
  "self_Sp0 (MICS_finish cov self) =
     py_sum_mat (map (\<lambda>i. mscale ((self_pi self ! i)\<^sup>2)
                       (cov (self_P self ! i) (self_pm self ! i) (self_b self ! i)))
                  [0..<self_m self])"
  by (simp add: MICS_finish_def Let_def)

lemma MICS_finish_Theta:
  "self_Theta (MICS_finish cov self) =
     matmul (matmul (self_iB0 self) (self_Sp0 (MICS_finish cov self))) (self_iB0 self)"
  by (simp add: MICS_finish_def Let_def)

lemma MICS_init_result:
  assumes "MICS_init pinv cov tol samples self = Some s"
  obtains k where "s = MICS_finish cov (snd (MICS_iterate pinv k (MICS_start pinv samples self)))"
    "\<not> exceeds tol (fst (MICS_iterate pinv k (MICS_start pinv samples self)))"
proof -
  from assms obtain c where c: "MICS_loop pinv tol (MICS_start pinv samples self) = Some c"
    "s = MICS_finish cov (snd c)" by (auto simp: MICS_init_Some_iff)
  from MICS_loop_Some_iterate[OF c(1)] obtain k where
    "c = MICS_iterate pinv k (MICS_start pinv samples self)" "\<not> exceeds tol (fst c)" by blast
  with c(2) that show thesis by blast
qed

lemma iterate_is_nri:
  assumes "wf_defined self" "pinv_shape pinv"
  shows "\<exists>pre. wf_mixture pre \<and> self_m pre = self_m self \<and>
      MICS_iterate pinv k (MICS_start pinv samples self) = newton_raphson_iteration pinv pre"
proof (cases k)
  case 0
  show ?thesis
    by (intro exI[of _ "MICS_setup samples self"])
       (simp add: 0 MICS_start_def wf_MICS_setup[OF assms(1)] MICS_setup_fields)
next
  case (Suc j)
  let ?c = "MICS_iterate pinv j (MICS_start pinv samples self)"
  obtain df sj where c: "?c = (df, sj)" by (cases ?c)
  have inv: "loop_inv ?c" by (rule loop_inv_iterate[OF loop_inv_start[OF assms] assms(2)])
  have m: "self_m sj = self_m self"
    using iterate_fields(1)[of pinv j "MICS_start pinv samples self"]
    by (simp add: c MICS_start_fields)
  have "wf_mixture (sj\<lparr>self_f := f_update (self_m sj) (self_f sj) df\<rparr>)"
    using inv by (simp add: c loop_inv_def wf_f_update)
  then show ?thesis
    by (intro exI[of _ "sj\<lparr>self_f := f_update (self_m sj) (self_f sj) df\<rparr>"])
       (simp add: Suc c loop_body_def m)
qed

lemma Sp0_terms_is_mat:
  assumes "cov_shape cov" "0 < m"
    and "\<And>i. i < m \<Longrightarrow> is_mat m (n ! i) (P ! i) \<and> length (pm ! i) = m"
  shows "\<forall>B\<in>set (map (\<lambda>i. mscale ((p ! i)\<^sup>2) (cov (P ! i) (pm ! i) (b ! i))) [0..<m]). is_mat m m B"
proof
  fix B assume "B \<in> set (map (\<lambda>i. mscale ((p ! i)\<^sup>2) (cov (P ! i) (pm ! i) (b ! i))) [0..<m])"
  then obtain i where i: "i < m" "B = mscale ((p ! i)\<^sup>2) (cov (P ! i) (pm ! i) (b ! i))" by auto
  have "is_mat m m (cov (P ! i) (pm ! i) (b ! i))"
    using assms(1) assms(3)[OF i(1)] unfolding cov_shape_def by blast
  then show "is_mat m m B" unfolding i(2) by (rule is_mat_mscale)
qed

lemma Sp0_nth:
  assumes "cov_shape cov" "0 < m"
    and "\<And>i. i < m \<Longrightarrow> is_mat m (n ! i) (P ! i) \<and> length (pm ! i) = m"
    and "j < m" "k < m"
  shows "py_sum_mat (map (\<lambda>i. mscale ((p ! i)\<^sup>2) (cov (P ! i) (pm ! i) (b ! i))) [0..<m]) ! j ! k
       = (\<Sum>i<m. (p ! i)\<^sup>2 * cov (P ! i) (pm ! i) (b ! i) ! j ! k)"
proof -
  let ?As = "map (\<lambda>i. mscale ((p ! i)\<^sup>2) (cov (P ! i) (pm ! i) (b ! i))) [0..<m]"
  have ne: "?As \<noteq> []" using assms(2) by simp
  have "py_sum_mat ?As ! j ! k = sum_list (map (\<lambda>B. B ! j ! k) ?As)"
    by (rule nth_py_sum_mat[OF ne Sp0_terms_is_mat[OF assms(1,2,3)] assms(4,5)])
  also have "\<dots> = sum_list (map (\<lambda>i. mscale ((p ! i)\<^sup>2) (cov (P ! i) (pm ! i) (b ! i)) ! j ! k) [0..<m])"
    by (simp add: comp_def)
  also have "\<dots> = (\<Sum>i<m. mscale ((p ! i)\<^sup>2) (cov (P ! i) (pm ! i) (b ! i)) ! j ! k)"
    by (rule sum_list_upt_sum)
  also have "\<dots> = (\<Sum>i<m. (p ! i)\<^sup>2 * cov (P ! i) (pm ! i) (b ! i) ! j ! k)"
  proof (rule sum.cong[OF refl])
    fix i assume "i \<in> {..<m}"
    then have i: "i < m" by simp
    have "is_mat m m (cov (P ! i) (pm ! i) (b ! i))"
      using assms(1) assms(3)[OF i] unfolding cov_shape_def by blast
    then show "mscale ((p ! i)\<^sup>2) (cov (P ! i) (pm ! i) (b ! i)) ! j ! k
        = (p ! i)\<^sup>2 * cov (P ! i) (pm ! i) (b ! i) ! j ! k"
      by (rule nth_mscale[OF _ assms(4,5)])
  qed
  finally show ?thesis .
qed

lemma wf_converged_finish:
  assumes "wf_mixture pre" "pinv_shape pinv" "cov_shape cov"
  shows "wf_converged (MICS_finish cov (snd (newton_raphson_iteration pinv pre)))"
proof -
  let ?s = "snd (newton_raphson_iteration pinv pre)"
  let ?m = "self_m pre"
  have m: "0 < ?m" by (rule wf_m[OF assms(1)])
  have iB0: "is_mat ?m ?m (self_iB0 ?s)" by (rule nri_iB0_is_mat[OF assms(1,2)])
  have P: "\<And>i. i < ?m \<Longrightarrow> is_mat ?m (self_n pre ! i) (self_P ?s ! i) \<and> length (self_pm ?s ! i) = ?m"
    using nri_P_is_mat[OF assms(1)] nri_pm_length[OF assms(1)] by blast
  have u0: "\<And>i. i < ?m \<Longrightarrow> length (self_u0 ?s ! i) = self_n pre ! i"
  proof -
    fix i assume i: "i < ?m"
    note g = length_nr_g[OF assms(1)] and u = wf_u[OF assms(1) i]
    have x: "is_mat ?m (self_n pre ! i) (sample_x (nr_g pre) (self_u pre ! i))"
      by (rule is_mat_sample_x[OF g u])
    have nm: "is_mat ?m (self_n pre ! i) (sample_numer (nr_g pre) (self_u pre ! i))"
      by (rule is_mat_sample_numer[OF g u m])
    show "length (self_u0 ?s ! i) = self_n pre ! i"
      unfolding nri_u0_nth[OF assms(1) i] sample_u0_def
      by (simp add: length_amax0[OF x m] length_sum0[OF nm m])
  qed
  have Sp0: "is_mat ?m ?m (self_Sp0 (MICS_finish cov ?s))"
    unfolding MICS_finish_Sp0 nri_fields
    using m Sp0_terms_is_mat[OF assms(3) m P] by (intro is_mat_py_sum_mat) simp_all
  have Theta: "is_mat ?m ?m (self_Theta (MICS_finish cov ?s))"
    unfolding MICS_finish_Theta
    by (intro is_mat_matmul[OF _ _ m] iB0 Sp0)
  show ?thesis
    unfolding wf_converged_def MICS_finish_fields nri_fields
    using m assms(1) nri_p0_length[OF assms(1)] iB0 Sp0 Theta P u0 wf_n[OF assms(1)]
    by (simp add: wf_mixture_def list_all_iff)
qed

lemma wf_converged_init:
  assumes "wf_defined self" "pinv_shape pinv" "cov_shape cov"
    and "MICS_init pinv cov tol samples self = Some s"
  shows "wf_converged s \<and> self_m s = self_m self"
proof -
  from MICS_init_result[OF assms(4)] obtain k where
    k: "s = MICS_finish cov (snd (MICS_iterate pinv k (MICS_start pinv samples self)))" by blast
  from iterate_is_nri[OF assms(1,2), of k samples] obtain pre where
    pre: "wf_mixture pre" "self_m pre = self_m self"
      "MICS_iterate pinv k (MICS_start pinv samples self) = newton_raphson_iteration pinv pre"
    by blast
  show ?thesis
    unfolding k pre(3) using wf_converged_finish[OF pre(1) assms(2,3)] pre(2)
    by (simp add: MICS_finish_fields nri_fields)
qed

section \<open>The example mixture\<close>

lemma upt_2: "[0..<2] = [0, Suc 0]"
  by (simp add: upt_rec numeral_2_eq_2)

lemma wf_defined_example: "wf_defined example_self"
  by (simp add: wf_defined_def example_self_def upt_2 is_mat_def)

lemma example_setup:
  "MICS_setup example_samples example_self =
     example_self\<lparr> self_b := [1, 1], self_pi := [1/2, 1/2],
        self_P := [[[0,0],[0,0]], [[0,0],[0,0]]], self_pm := [[0,0],[0,0]], self_u0 := [[0,0],[0,0]] \<rparr>"
  by (simp add: MICS_setup_def example_self_def example_samples_def example_sample_def Let_def numeral_2_eq_2)

lemma example_g: "nr_g (MICS_setup example_samples example_self) = [ln (1/2), ln (1/2)]"
  unfolding example_setup by (simp add: nr_g_def example_self_def)

lemma example_sample_P: "sample_P [ln (1/2), ln (1/2)] [[0, 0], [0, 0]] = [[1/2, 1/2], [1/2, 1/2]]"
  by (simp add: sample_P_def sample_numer_def sample_x_def amax0_def sum0_def ncols_def column_def upt_2)

lemma example_P:
  "self_P (snd (newton_raphson_iteration pinv (MICS_setup example_samples example_self))) =
     [[[1/2, 1/2], [1/2, 1/2]], [[1/2, 1/2], [1/2, 1/2]]]"
  unfolding nri_P example_g unfolding example_setup
  by (simp add: example_self_def upt_2 nr_sample_P example_sample_P)

lemma example_pm:
  "self_pm (snd (newton_raphson_iteration pinv (MICS_setup example_samples example_self))) =
     [[1/2, 1/2], [1/2, 1/2]]"
  unfolding nri_pm example_g unfolding example_setup
  by (simp add: example_self_def upt_2 nr_sample_pm nr_sample_P example_sample_P mean1_def)

lemma example_p0:
  "self_p0 (snd (newton_raphson_iteration pinv (MICS_setup example_samples example_self))) = [1/2, 1/2]"
  unfolding nri_p0 example_pm unfolding example_setup
  by (simp add: example_self_def upt_2 vscale_def vadd_def)

lemma example_first_correction:
  "fst (newton_raphson_iteration mat_T (MICS_setup example_samples example_self)) = [0]"
proof -
  let ?s = "MICS_setup example_samples example_self"
  have wf: "wf_mixture ?s" by (rule wf_MICS_setup[OF wf_defined_example])
  have m: "self_m ?s = 2" unfolding example_setup by (simp add: example_self_def)
  have len: "length (self_iB0 (snd (newton_raphson_iteration mat_T ?s))) = 2"
    using nri_iB0_is_mat[OF wf pinv_shape_mat_T] by (simp add: is_mat_length m)
  have z: "vsub (self_pi ?s) (self_p0 (snd (newton_raphson_iteration mat_T ?s))) = replicate 2 0"
    unfolding example_p0 unfolding example_setup by (simp add: vsub_def numeral_2_eq_2)
  show ?thesis
    unfolding nri_df z matvec_zeros len m
    by (simp add: relative_step_def numeral_2_eq_2)
qed

lemma example_start_inv: "loop_inv (MICS_start mat_T example_samples example_self)"
  by (rule loop_inv_start[OF wf_defined_example pinv_shape_mat_T])

lemma example_never_within_negative_tol:
  "exceeds (- 1) (fst (MICS_iterate mat_T k (MICS_start mat_T example_samples example_self)))"
proof -
  let ?c = "MICS_iterate mat_T k (MICS_start mat_T example_samples example_self)"
  have "loop_inv ?c" by (rule loop_inv_iterate[OF example_start_inv pinv_shape_mat_T])
  then have "length (fst ?c) = 1"
    by (simp add: loop_inv_def iterate_fields MICS_start_fields example_self_def)
  then obtain d where "fst ?c = [d]" by (cases "fst ?c") auto
  then show ?thesis by (simp add: exceeds_def)
qed

lemma example_init:
  "MICS_init mat_T covariance default_tol example_samples example_self = Some example_result"
proof -
  have g: "\<not> exceeds default_tol (fst (MICS_iterate mat_T 0 (MICS_start mat_T example_samples example_self)))"
    by (simp add: MICS_start_def example_first_correction exceeds_def default_tol_def)
  show ?thesis
    using MICS_loop_returns[of default_tol mat_T 0, OF g]
    by (simp add: MICS_init_def example_result_def)
qed

lemma wf_converged_example: "wf_converged example_result"
  unfolding example_result_def MICS_start_def
  by (rule wf_converged_finish[OF wf_MICS_setup[OF wf_defined_example] pinv_shape_mat_T
        cov_shape_covariance])

lemma example_result_fields:
  "self_m example_result = 2" "self_n example_result = [2, 2]" "self_f example_result = [0, 0]"
  by (simp_all add: example_result_def MICS_finish_fields MICS_start_fields example_self_def)

lemma wf_target_example: "wf_target example_result example_target"
  by (simp add: wf_target_def example_result_fields example_target_def upt_2 is_mat_def)

lemma wf_properties_example: "wf_properties example_result 1 example_properties"
  by (simp add: wf_properties_def example_result_fields example_properties_def upt_2 is_mat_def)

section \<open>The claims about the solver\<close>

text \<open>
  Claim C3. The loop of the solver runs exactly until no entry of the correction
  exceeds the tolerance in absolute value, that is until \<open>max |df| \<le> tol\<close>, with the
  default tolerance \<open>1e-12\<close>, and it has no bound on the number of iterations: the
  constructor returns after \<open>k\<close> passes exactly when the correction number \<open>k\<close> is the
  first within the tolerance, and it never returns (the value \<open>None\<close>) exactly when
  every correction exceeds the tolerance.
\<close>

theorem newton_loop_runs_until_tolerance:
  "default_tol = 1 / 1000000000000 \<and>
   (exceeds tol df \<longleftrightarrow> \<not> (\<forall>d \<in> set df. \<bar>d\<bar> \<le> tol)) \<and>
   (MICS_init pinv cov tol samples self = None \<longleftrightarrow>
      (\<forall>k. exceeds tol (fst (MICS_iterate pinv k (MICS_start pinv samples self))))) \<and>
   (\<forall>k. (\<forall>j<k. exceeds tol (fst (MICS_iterate pinv j (MICS_start pinv samples self)))) \<and>
        \<not> exceeds tol (fst (MICS_iterate pinv k (MICS_start pinv samples self))) \<longrightarrow>
        MICS_init pinv cov tol samples self =
          Some (MICS_finish cov (snd (MICS_iterate pinv k (MICS_start pinv samples self)))))"
proof (intro conjI allI impI)
  show "default_tol = 1 / 1000000000000" by (simp add: default_tol_def)
  show "exceeds tol df \<longleftrightarrow> \<not> (\<forall>d \<in> set df. \<bar>d\<bar> \<le> tol)" by (rule exceeds_iff)
  show "MICS_init pinv cov tol samples self = None \<longleftrightarrow>
      (\<forall>k. exceeds tol (fst (MICS_iterate pinv k (MICS_start pinv samples self))))"
  proof
    assume "MICS_init pinv cov tol samples self = None"
    then have none: "MICS_loop pinv tol (MICS_start pinv samples self) = None"
      by (simp add: MICS_init_None_iff)
    show "\<forall>k. exceeds tol (fst (MICS_iterate pinv k (MICS_start pinv samples self)))"
    proof (rule ccontr)
      assume "\<not> ?thesis"
      then obtain k where k: "\<not> exceeds tol (fst (MICS_iterate pinv k (MICS_start pinv samples self)))"
        by blast
      define k0 where "k0 = (LEAST k. \<not> exceeds tol (fst (MICS_iterate pinv k (MICS_start pinv samples self))))"
      have 1: "\<not> exceeds tol (fst (MICS_iterate pinv k0 (MICS_start pinv samples self)))"
        unfolding k0_def by (rule LeastI[of _ k]) (rule k)
      have 2: "\<And>j. j < k0 \<Longrightarrow> exceeds tol (fst (MICS_iterate pinv j (MICS_start pinv samples self)))"
        unfolding k0_def using not_less_Least by blast
      from MICS_loop_returns[OF 1 2] none show False by simp
    qed
  next
    assume "\<forall>k. exceeds tol (fst (MICS_iterate pinv k (MICS_start pinv samples self)))"
    then have "MICS_loop pinv tol (MICS_start pinv samples self) = None"
      by (intro MICS_loop_diverges) blast
    then show "MICS_init pinv cov tol samples self = None" by (simp add: MICS_init_None_iff)
  qed
next
  fix k
  assume a: "(\<forall>j<k. exceeds tol (fst (MICS_iterate pinv j (MICS_start pinv samples self)))) \<and>
        \<not> exceeds tol (fst (MICS_iterate pinv k (MICS_start pinv samples self)))"
  then have "MICS_loop pinv tol (MICS_start pinv samples self) = Some (MICS_iterate pinv k (MICS_start pinv samples self))"
    by (intro MICS_loop_returns) blast+
  then show "MICS_init pinv cov tol samples self =
          Some (MICS_finish cov (snd (MICS_iterate pinv k (MICS_start pinv samples self))))"
    by (simp add: MICS_init_def)
qed

theorem newton_loop_runs_until_tolerance_witness:
  "(\<forall>k. exceeds (- 1) (fst (MICS_iterate mat_T k (MICS_start mat_T example_samples example_self)))) \<and>
   MICS_init mat_T covariance (- 1) example_samples example_self = None \<and>
   \<not> exceeds default_tol (fst (MICS_iterate mat_T 0 (MICS_start mat_T example_samples example_self))) \<and>
   MICS_init mat_T covariance default_tol example_samples example_self =
     Some (MICS_finish covariance (snd (MICS_iterate mat_T 0 (MICS_start mat_T example_samples example_self))))"
proof -
  have h: "\<forall>k. exceeds (- 1) (fst (MICS_iterate mat_T k (MICS_start mat_T example_samples example_self)))"
    using example_never_within_negative_tol by blast
  have g: "\<not> exceeds default_tol (fst (MICS_iterate mat_T 0 (MICS_start mat_T example_samples example_self)))"
    by (simp add: MICS_start_def example_first_correction exceeds_def default_tol_def)
  from newton_loop_runs_until_tolerance[of "- 1" "[]" mat_T covariance example_samples example_self] h
  have 1: "MICS_init mat_T covariance (- 1) example_samples example_self = None" by blast
  from newton_loop_runs_until_tolerance[of default_tol "[]" mat_T covariance example_samples example_self] g
  have 2: "MICS_init mat_T covariance default_tol example_samples example_self =
     Some (MICS_finish covariance (snd (MICS_iterate mat_T 0 (MICS_start mat_T example_samples example_self))))"
    by blast
  from h g 1 2 show ?thesis by blast
qed

text \<open>
  Claim C10. The correction is computed before the test of the loop, and the
  correction that passes the test is not added to \<open>f\<close>: when the first \<open>k\<close>
  corrections exceed the tolerance and the next one does not, the constructor returns
  with the free energies left by the last update that was applied, the passing
  correction is the one computed from these free energies, and for \<open>k = 0\<close> the
  returned \<open>f\<close> is the initial guess, unchanged.
\<close>

theorem final_correction_not_applied:
  assumes "\<And>j. j < k \<Longrightarrow> exceeds tol (fst (MICS_iterate pinv j (MICS_start pinv samples self)))"
      and "\<not> exceeds tol (fst (MICS_iterate pinv k (MICS_start pinv samples self)))"
  shows "\<exists>s. MICS_init pinv cov tol samples self = Some s \<and>
             self_f s = self_f (snd (MICS_iterate pinv k (MICS_start pinv samples self))) \<and>
             (\<exists>pre. MICS_iterate pinv k (MICS_start pinv samples self) = newton_raphson_iteration pinv pre \<and>
                    self_f pre = self_f s) \<and>
             (k = 0 \<longrightarrow> self_f s = self_f self) \<and>
             (\<forall>j. k = Suc j \<longrightarrow>
                self_f s = f_update (self_m self)
                             (self_f (snd (MICS_iterate pinv j (MICS_start pinv samples self))))
                             (fst (MICS_iterate pinv j (MICS_start pinv samples self))))"
proof -
  let ?c0 = "MICS_start pinv samples self"
  let ?s = "MICS_finish cov (snd (MICS_iterate pinv k ?c0))"
  have loop: "MICS_loop pinv tol ?c0 = Some (MICS_iterate pinv k ?c0)"
    by (rule MICS_loop_returns[OF assms(2) assms(1)])
  then have init: "MICS_init pinv cov tol samples self = Some ?s" by (simp add: MICS_init_def)
  have f: "self_f ?s = self_f (snd (MICS_iterate pinv k ?c0))" by (simp add: MICS_finish_fields)
  have pre: "\<exists>pre. MICS_iterate pinv k ?c0 = newton_raphson_iteration pinv pre \<and> self_f pre = self_f ?s"
  proof (cases k)
    case 0
    then show ?thesis
      by (intro exI[of _ "MICS_setup samples self"])
         (simp add: MICS_start_def MICS_finish_fields nri_fields)
  next
    case (Suc j)
    obtain df sj where c: "MICS_iterate pinv j ?c0 = (df, sj)" by (cases "MICS_iterate pinv j ?c0")
    show ?thesis
      by (intro exI[of _ "sj\<lparr>self_f := f_update (self_m sj) (self_f sj) df\<rparr>"])
         (simp add: Suc c loop_body_def MICS_finish_fields nri_fields)
  qed
  have k0: "k = 0 \<longrightarrow> self_f ?s = self_f self"
    by (simp add: MICS_finish_fields MICS_start_fields)
  have kS: "\<forall>j. k = Suc j \<longrightarrow>
                self_f ?s = f_update (self_m self)
                             (self_f (snd (MICS_iterate pinv j ?c0)))
                             (fst (MICS_iterate pinv j ?c0))"
    by (simp add: MICS_finish_fields loop_body_fields iterate_fields MICS_start_fields)
  from init f pre k0 kS show ?thesis by blast
qed

theorem final_correction_not_applied_witness:
  "\<not> exceeds default_tol (fst (MICS_iterate mat_T 0 (MICS_start mat_T example_samples example_self))) \<and>
   (\<exists>s. MICS_init mat_T covariance default_tol example_samples example_self = Some s \<and>
        self_f s = [0, 0])"
proof -
  have g: "\<not> exceeds default_tol (fst (MICS_iterate mat_T 0 (MICS_start mat_T example_samples example_self)))"
    by (simp add: MICS_start_def example_first_correction exceeds_def default_tol_def)
  from final_correction_not_applied[of 0 default_tol mat_T example_samples example_self covariance, OF _ g]
  obtain s where "MICS_init mat_T covariance default_tol example_samples example_self = Some s"
     "self_f s = self_f example_self" by auto
  then show ?thesis using g by (simp add: example_self_def)
qed

text \<open>
  Claim C4. In an iteration the full step is \<open>df_full = iB0 \<cdot> (pi - p0)\<close>, with
  \<open>iB0\<close> the pseudo-inverse of \<open>B0\<close>; the correction that the iteration returns is
  \<open>df_full[1:] - df_full[0]\<close>, and the update of the loop adds it to the entries
  \<open>1, ..., m - 1\<close> of \<open>f\<close> only: entry \<open>0\<close> of \<open>f\<close> is the same after the update, and
  after any number of passes through the loop.
\<close>

theorem newton_step_update:
  assumes "wf_mixture self" and "pinv_shape pinv"
  shows "let r = newton_raphson_iteration pinv self;
             df = fst r;
             self' = snd r;
             df_full = matvec (self_iB0 self') (vsub (self_pi self') (self_p0 self'));
             f' = self_f (snd (loop_body pinv r))
         in self_iB0 self' = pinv (B0_of self') \<and>
            length df_full = self_m self \<and>
            length df = self_m self - 1 \<and>
            (\<forall>k < self_m self - 1. df ! k = df_full ! Suc k - df_full ! 0) \<and>
            length f' = self_m self \<and>
            f' ! 0 = self_f self ! 0 \<and>
            (\<forall>k. 1 \<le> k \<and> k < self_m self \<longrightarrow>
                 f' ! k = self_f self ! k + (df_full ! k - df_full ! 0)) \<and>
            (\<forall>j. self_f (snd (MICS_iterate pinv j r)) ! 0 = self_f self ! 0)"
proof -
  let ?r = "newton_raphson_iteration pinv self"
  let ?full = "matvec (self_iB0 (snd ?r)) (vsub (self_pi (snd ?r)) (self_p0 (snd ?r)))"
  let ?f' = "self_f (snd (loop_body pinv ?r))"
  have m: "0 < self_m self" by (rule wf_m[OF assms(1)])
  have lf: "length (self_f self) = self_m self" using assms(1) by (simp add: wf_mixture_def)
  have full: "length ?full = self_m self"
    using nri_iB0_is_mat[OF assms] by (simp add: is_mat_length)
  have df: "fst ?r = relative_step (self_m self) ?full"
    by (subst nri_df) (simp add: nri_fields)
  have ldf: "length (fst ?r) = self_m self - 1" by (rule nri_df_length[OF assms])
  have ndf: "\<forall>k < self_m self - 1. fst ?r ! k = ?full ! Suc k - ?full ! 0"
    unfolding df using full by (simp add: nth_relative_step)
  have f': "?f' = f_update (self_m self) (self_f self) (fst ?r)"
    by (simp add: loop_body_fields nri_fields)
  have lf': "length ?f' = self_m self" unfolding f' by (rule length_f_update[OF lf ldf])
  have f0: "?f' ! 0 = self_f self ! 0" unfolding f' using lf m by (simp add: f_update_0)
  have fk: "\<forall>k. 1 \<le> k \<and> k < self_m self \<longrightarrow> ?f' ! k = self_f self ! k + (?full ! k - ?full ! 0)"
  proof (intro allI impI)
    fix k assume k: "1 \<le> k \<and> k < self_m self"
    then have "k - 1 < self_m self - 1" by arith
    with ndf have "fst ?r ! (k - 1) = ?full ! Suc (k - 1) - ?full ! 0" by blast
    moreover have "Suc (k - 1) = k" using k by arith
    ultimately show "?f' ! k = self_f self ! k + (?full ! k - ?full ! 0)"
      unfolding f' using k by (simp add: f_update_nth[OF lf ldf])
  qed
  have inv: "loop_inv ?r" by (rule loop_inv_nri[OF assms])
  have it: "\<forall>j. self_f (snd (MICS_iterate pinv j ?r)) ! 0 = self_f self ! 0"
    using iterate_f0[OF inv assms(2)] by (simp add: nri_fields)
  show ?thesis
    unfolding Let_def using nri_iB0[of pinv self] full ldf ndf lf' f0 fk it by blast
qed

theorem newton_step_update_witness:
  "wf_mixture (MICS_setup example_samples example_self) \<and> pinv_shape mat_T \<and>
   fst (newton_raphson_iteration mat_T (MICS_setup example_samples example_self)) = [0] \<and>
   self_f (snd (loop_body mat_T
           (newton_raphson_iteration mat_T (MICS_setup example_samples example_self)))) ! 0 = 0 \<and>
   length (self_f (snd (loop_body mat_T
           (newton_raphson_iteration mat_T (MICS_setup example_samples example_self))))) = 2"
proof -
  have w: "wf_mixture (MICS_setup example_samples example_self)"
    by (rule wf_MICS_setup[OF wf_defined_example])
  have f: "self_f (MICS_setup example_samples example_self) = [0, 0]"
    and m: "self_m (MICS_setup example_samples example_self) = 2"
    by (simp_all add: MICS_setup_fields example_self_def)
  from newton_step_update[OF w pinv_shape_mat_T] show ?thesis
    unfolding Let_def f m using w pinv_shape_mat_T example_first_correction by simp
qed

text \<open>
  Claim C9. After an iteration every column of every posterior probability matrix
  \<open>P[i]\<close> sums to one and has no negative entry. This holds after every pass of the
  loop, and in the state that the constructor returns.
\<close>

theorem posterior_columns_softmax:
  "(wf_mixture self0 \<longrightarrow> softmax_columns (snd (newton_raphson_iteration pinv self0))) \<and>
   (wf_defined self \<and> pinv_shape pinv \<longrightarrow>
      (\<forall>k. softmax_columns (snd (MICS_iterate pinv k (MICS_start pinv samples self)))) \<and>
      (\<forall>s. MICS_init pinv cov tol samples self = Some s \<longrightarrow> softmax_columns s))"
proof (intro conjI impI allI)
  assume "wf_mixture self0"
  then show "softmax_columns (snd (newton_raphson_iteration pinv self0))" by (rule nri_softmax)
next
  fix k assume a: "wf_defined self \<and> pinv_shape pinv"
  then have inv: "loop_inv (MICS_start pinv samples self)" by (simp add: loop_inv_start)
  have s0: "softmax_columns (snd (MICS_start pinv samples self))"
    unfolding MICS_start_def using a by (intro nri_softmax wf_MICS_setup) simp
  show "softmax_columns (snd (MICS_iterate pinv k (MICS_start pinv samples self)))"
    using a by (intro iterate_softmax[OF inv _ s0]) simp
next
  fix s assume a: "wf_defined self \<and> pinv_shape pinv"
    and r: "MICS_init pinv cov tol samples self = Some s"
  then have inv: "loop_inv (MICS_start pinv samples self)" by (simp add: loop_inv_start)
  have s0: "softmax_columns (snd (MICS_start pinv samples self))"
    unfolding MICS_start_def using a by (intro nri_softmax wf_MICS_setup) simp
  from r obtain c where c: "MICS_loop pinv tol (MICS_start pinv samples self) = Some c"
    "s = MICS_finish cov (snd c)" by (auto simp: MICS_init_Some_iff)
  from MICS_loop_Some_iterate[OF c(1)] obtain k where
    "c = MICS_iterate pinv k (MICS_start pinv samples self)" by blast
  then have "softmax_columns (snd c)"
    using a by (simp add: iterate_softmax[OF inv _ s0])
  then show "softmax_columns s" by (simp add: c(2) softmax_columns_finish)
qed

theorem posterior_columns_softmax_witness:
  "wf_defined example_self \<and> pinv_shape mat_T \<and>
   MICS_init mat_T covariance default_tol example_samples example_self =
     Some (MICS_finish covariance (snd (MICS_start mat_T example_samples example_self))) \<and>
   softmax_columns (MICS_finish covariance (snd (MICS_start mat_T example_samples example_self))) \<and>
   self_P (MICS_finish covariance (snd (MICS_start mat_T example_samples example_self))) =
     [[[1/2, 1/2], [1/2, 1/2]], [[1/2, 1/2], [1/2, 1/2]]]"
proof -
  have g: "\<not> exceeds default_tol (fst (MICS_iterate mat_T 0 (MICS_start mat_T example_samples example_self)))"
    by (simp add: MICS_start_def example_first_correction exceeds_def default_tol_def)
  have r: "MICS_init mat_T covariance default_tol example_samples example_self =
     Some (MICS_finish covariance (snd (MICS_start mat_T example_samples example_self)))"
    using MICS_loop_returns[of default_tol mat_T 0, OF g] by (simp add: MICS_init_def)
  from posterior_columns_softmax[of _ mat_T example_self example_samples covariance default_tol]
    wf_defined_example pinv_shape_mat_T r
  have "softmax_columns (MICS_finish covariance (snd (MICS_start mat_T example_samples example_self)))"
    by blast
  then show ?thesis
    using wf_defined_example pinv_shape_mat_T r
    by (simp add: MICS_finish_fields MICS_start_def example_P)
qed

text \<open>
  Claim C5. When the loop has converged, the solver sets
  \<open>Sp0 = \<Sum>\<^sub>i pi\<^sub>i\<^sup>2 \<cdot> covariance(P\<^sub>i, pm\<^sub>i, b\<^sub>i)\<close> and \<open>Theta\<close> to the product of
  \<open>iB0\<close>, \<open>Sp0\<close> and \<open>iB0\<close>, which is \<open>iB0 \<cdot> Sp0 \<cdot> iB0\<^sup>T\<close>: \<open>B0\<close> is symmetric, and so
  is its pseudo-inverse.
\<close>

theorem converged_covariance_matrices:
  assumes "wf_defined self" and "pinv_shape pinv" and "pinv_symmetric pinv" and "cov_shape cov"
      and "MICS_init pinv cov tol samples self = Some s"
  shows "(\<forall>j < self_m s. \<forall>k < self_m s.
            self_Sp0 s ! j ! k =
              (\<Sum>i < self_m s. (self_pi s ! i)\<^sup>2 *
                                cov (self_P s ! i) (self_pm s ! i) (self_b s ! i) ! j ! k)) \<and>
         is_mat (self_m s) (self_m s) (self_Sp0 s) \<and>
         mat_T (self_iB0 s) = self_iB0 s \<and>
         self_Theta s = matmul (matmul (self_iB0 s) (self_Sp0 s)) (mat_T (self_iB0 s)) \<and>
         is_mat (self_m s) (self_m s) (self_Theta s)"
proof -
  from MICS_init_result[OF assms(5)] obtain k where
    k: "s = MICS_finish cov (snd (MICS_iterate pinv k (MICS_start pinv samples self)))" by blast
  from iterate_is_nri[OF assms(1,2), of k samples] obtain pre where
    pre: "wf_mixture pre" "self_m pre = self_m self"
      "MICS_iterate pinv k (MICS_start pinv samples self) = newton_raphson_iteration pinv pre"
    by blast
  let ?t = "snd (newton_raphson_iteration pinv pre)"
  have s: "s = MICS_finish cov ?t" unfolding k pre(3) ..
  have wc: "wf_converged s" by (rule conjunct1[OF wf_converged_init[OF assms(1,2,4,5)]])
  have m: "0 < self_m s" using wc by (simp add: wf_converged_def)
  have P: "\<And>i. i < self_m s \<Longrightarrow>
      is_mat (self_m s) (self_n s ! i) (self_P s ! i) \<and> length (self_pm s ! i) = self_m s"
    using wc by (simp add: wf_converged_def list_all_iff)
  have Sp0: "self_Sp0 s = py_sum_mat (map (\<lambda>i. mscale ((self_pi s ! i)\<^sup>2)
                       (cov (self_P s ! i) (self_pm s ! i) (self_b s ! i))) [0..<self_m s])"
    unfolding s MICS_finish_Sp0 MICS_finish_fields ..
  have 1: "\<forall>j < self_m s. \<forall>k < self_m s.
            self_Sp0 s ! j ! k =
              (\<Sum>i < self_m s. (self_pi s ! i)\<^sup>2 *
                                cov (self_P s ! i) (self_pm s ! i) (self_b s ! i) ! j ! k)"
  proof (intro allI impI)
    fix j k assume jk: "j < self_m s" "k < self_m s"
    show "self_Sp0 s ! j ! k =
              (\<Sum>i < self_m s. (self_pi s ! i)\<^sup>2 *
                                cov (self_P s ! i) (self_pm s ! i) (self_b s ! i) ! j ! k)"
      by (subst Sp0) (rule Sp0_nth[OF assms(4) m P jk])
  qed
  have sym: "mat_T (self_iB0 s) = self_iB0 s"
    unfolding s MICS_finish_fields by (rule nri_iB0_symmetric[OF pre(1) assms(3)])
  have Th: "self_Theta s = matmul (matmul (self_iB0 s) (self_Sp0 s)) (self_iB0 s)"
    unfolding s MICS_finish_Theta MICS_finish_fields ..
  have 2: "self_Theta s = matmul (matmul (self_iB0 s) (self_Sp0 s)) (mat_T (self_iB0 s))"
    unfolding sym by (rule Th)
  from 1 2 sym wc show ?thesis by (simp add: wf_converged_def)
qed

theorem converged_covariance_matrices_witness:
  "wf_defined example_self \<and> pinv_shape mat_T \<and> pinv_symmetric mat_T \<and> cov_shape covariance \<and>
   MICS_init mat_T covariance default_tol example_samples example_self = Some example_result \<and>
   mat_T (self_iB0 example_result) = self_iB0 example_result \<and>
   self_Theta example_result =
     matmul (matmul (self_iB0 example_result) (self_Sp0 example_result))
       (mat_T (self_iB0 example_result)) \<and>
   is_mat 2 2 (self_Theta example_result)"
proof -
  note h = wf_defined_example pinv_shape_mat_T pinv_symmetric_mat_T cov_shape_covariance example_init
  have m: "self_m example_result = 2" by (rule example_result_fields)
  from converged_covariance_matrices[OF h, unfolded m]
  have "mat_T (self_iB0 example_result) = self_iB0 example_result"
    and "self_Theta example_result =
     matmul (matmul (self_iB0 example_result) (self_Sp0 example_result))
       (mat_T (self_iB0 example_result))"
    and "is_mat 2 2 (self_Theta example_result)"
    by blast+
  with h show ?thesis by blast
qed

section \<open>The claims about the mixture\<close>

lemma fe_val: assumes "length (self_f self) = m" "is_mat m m (self_Theta self)" "r < m"
  shows "free_energies self (int r) = Inr (map (\<lambda>x. x - self_f self ! r) (self_f self),
      map (\<lambda>k. sqrt (self_Theta self ! k ! k - 2 * self_Theta self ! k ! r + self_Theta self ! r ! r)) [0..<m])"
proof -
  have nc: "ncols (self_Theta self) = m" using assms is_mat_ncols by fastforce
  have nr: "nrows (self_Theta self) = m" using assms by (simp add: is_mat_def nrows_def)
  have len: "length (self_Theta self) = m" using assms by (simp add: is_mat_def)
  have "map2 (\<lambda>d t. sqrt (d - 2 * t + self_Theta self ! r ! r)) (diag_of (self_Theta self)) (column (self_Theta self) r)
     = map (\<lambda>k. sqrt (self_Theta self ! k ! k - 2 * self_Theta self ! k ! r + self_Theta self ! r ! r)) [0..<m]"
    by (rule nth_equalityI) (simp_all add: diag_of_def column_def nc nr len)
  then show ?thesis
    using assms by (simp add: free_energies_def py_index_nat nc nr Let_def)
qed

lemma fe_val_neg: assumes "length (self_f self) = m" "is_mat m m (self_Theta self)" "r < m"
  shows "free_energies self (int r - int m) = free_energies self (int r)"
proof -
  have nc: "ncols (self_Theta self) = m" using assms is_mat_ncols by fastforce
  have nr: "nrows (self_Theta self) = m" using assms by (simp add: is_mat_def nrows_def)
  show ?thesis
    using assms by (simp add: free_energies_def py_index_nat py_index_neg nc nr)
qed

text \<open>
  Claim C2. For a reference index \<open>r\<close> (counted from the start or, as a negative
  Python index, from the end), \<open>free_energies\<close> returns for every state \<open>k\<close> the free
  energy \<open>f[k] - f[r]\<close> and the standard error
  \<open>sqrt(Theta[k,k] - 2 Theta[k,r] + Theta[r,r])\<close>; the entry of state \<open>r\<close> itself
  has free energy \<open>0\<close> and standard error \<open>0\<close>.
\<close>

theorem free_energies_relative_to_reference:
  assumes "length (self_f self) = m" and "is_mat m m (self_Theta self)" and "r < m"
      and "reference = int r \<or> reference = int r - int m"
  shows "\<exists>fs dfs. free_energies self reference = Inr (fs, dfs) \<and>
           length fs = m \<and> length dfs = m \<and>
           (\<forall>k<m. fs ! k = self_f self ! k - self_f self ! r \<and>
                  dfs ! k = sqrt (self_Theta self ! k ! k - 2 * self_Theta self ! k ! r
                                  + self_Theta self ! r ! r)) \<and>
           fs ! r = 0 \<and> dfs ! r = 0"
proof -
  have "free_energies self reference = free_energies self (int r)"
    using assms(4) fe_val_neg[OF assms(1,2,3)] by auto
  then have "free_energies self reference
      = Inr (map (\<lambda>x. x - self_f self ! r) (self_f self),
          map (\<lambda>k. sqrt (self_Theta self ! k ! k - 2 * self_Theta self ! k ! r
                          + self_Theta self ! r ! r)) [0..<m])"
    using fe_val[OF assms(1,2,3)] by simp
  then show ?thesis using assms(1,3) by simp
qed

theorem free_energies_relative_to_reference_witness:
  "length (self_f example_converged) = 2 \<and> is_mat 2 2 (self_Theta example_converged) \<and>
   free_energies example_converged 1 = Inr ([- 2, 0], [sqrt 5, 0]) \<and>
   free_energies example_converged (- 1) = Inr ([- 2, 0], [sqrt 5, 0]) \<and>
   length (self_f example_result) = 2 \<and> is_mat 2 2 (self_Theta example_result) \<and>
   (\<exists>fs dfs. free_energies example_result 1 = Inr (fs, dfs) \<and> fs ! 1 = 0 \<and> dfs ! 1 = 0)"
proof -
  have h: "length (self_f example_converged) = 2" "is_mat 2 2 (self_Theta example_converged)"
    by (simp_all add: example_converged_def is_mat_def)
  have v: "self_f example_converged = [1, 3]" "self_Theta example_converged = [[1, 0], [0, 4]]"
    by (simp_all add: example_converged_def)
  from free_energies_relative_to_reference[OF h, of 1 1]
  obtain fs dfs where 1: "free_energies example_converged 1 = Inr (fs, dfs)"
    "length fs = 2" "length dfs = 2" "fs ! 0 = - 2" "dfs ! 0 = sqrt 5" "fs ! 1 = 0" "dfs ! 1 = 0"
    unfolding v by (auto simp: numeral_2_eq_2)
  from 1 have "fs = [- 2, 0]" "dfs = [sqrt 5, 0]"
    by (auto simp: numeral_2_eq_2 length_Suc_conv)
  with 1 have a: "free_energies example_converged 1 = Inr ([- 2, 0], [sqrt 5, 0])" by simp
  from free_energies_relative_to_reference[OF h, of 1 "- 1"]
  obtain fs' dfs' where 2: "free_energies example_converged (- 1) = Inr (fs', dfs')"
    "length fs' = 2" "length dfs' = 2" "fs' ! 0 = - 2" "dfs' ! 0 = sqrt 5" "fs' ! 1 = 0" "dfs' ! 1 = 0"
    unfolding v by (auto simp: numeral_2_eq_2)
  from 2 have "fs' = [- 2, 0]" "dfs' = [sqrt 5, 0]"
    by (auto simp: numeral_2_eq_2 length_Suc_conv)
  with 2 have b: "free_energies example_converged (- 1) = Inr ([- 2, 0], [sqrt 5, 0])" by simp
  have g: "length (self_f example_result) = 2" "is_mat 2 2 (self_Theta example_result)"
    using wf_converged_example by (simp_all add: wf_converged_def example_result_fields)
  from free_energies_relative_to_reference[OF g, of 1 1]
  have c: "\<exists>fs dfs. free_energies example_result 1 = Inr (fs, dfs) \<and> fs ! 1 = 0 \<and> dfs ! 1 = 0"
    by auto
  from h a b g c show ?thesis by blast
qed

text \<open>
  Claim C7, as amended. The constructor fails at once with an \<open>InputError\<close> and a
  message when the list of samples is empty, and when the list of column names of
  some sample differs from the list of the first sample, in its names or in their
  order; otherwise it builds the potential matrices and the initial guess and calls
  the method's \<open>__initialize__\<close>.
\<close>

theorem mixture_init_checks:
  "(samples = [] \<longrightarrow>
      mixture_init overlapSampling method_initialize samples =
        Inl (InputError ''list of samples is empty'')) \<and>
   (samples \<noteq> [] \<and>
    (\<exists>s \<in> set samples. df_columns (sample_dataset s) \<noteq> df_columns (sample_dataset (samples ! 0))) \<longrightarrow>
      mixture_init overlapSampling method_initialize samples =
        Inl (InputError ''provided samples have distinct properties'')) \<and>
   (samples \<noteq> [] \<and>
    (\<forall>s \<in> set samples. df_columns (sample_dataset s) = df_columns (sample_dataset (samples ! 0))) \<longrightarrow>
      (\<exists>self. mixture_init overlapSampling method_initialize samples = method_initialize self \<and>
         self_m self = length samples \<and>
         self_n self = map (\<lambda>s. length (df_rows (sample_dataset s))) samples \<and>
         self_neff self = map sample_neff samples \<and>
         self_names self = df_columns (sample_dataset (samples ! 0)) \<and>
         self_u self = map (\<lambda>s. multimap (map sample_potential samples) (sample_dataset s)) samples \<and>
         self_f self = overlapSampling (self_u self)))"
proof (intro conjI impI)
  assume "samples = []"
  then show "mixture_init overlapSampling method_initialize samples =
        Inl (InputError ''list of samples is empty'')"
    by (simp add: mixture_init_def)
next
  assume a: "samples \<noteq> [] \<and>
    (\<exists>s \<in> set samples. df_columns (sample_dataset s) \<noteq> df_columns (sample_dataset (samples ! 0)))"
  then have "list_ex (\<lambda>s. df_columns (sample_dataset s) \<noteq> df_columns (sample_dataset (samples ! 0))) samples"
    unfolding list_ex_iff by blast
  moreover have "length samples \<noteq> 0" using a by simp
  ultimately show "mixture_init overlapSampling method_initialize samples =
        Inl (InputError ''provided samples have distinct properties'')"
    unfolding mixture_init_def Let_def by (simp only: if_True if_False)
next
  assume a: "samples \<noteq> [] \<and>
    (\<forall>s \<in> set samples. df_columns (sample_dataset s) = df_columns (sample_dataset (samples ! 0)))"
  then have n: "\<not> list_ex (\<lambda>s. df_columns (sample_dataset s) \<noteq> df_columns (sample_dataset (samples ! 0))) samples"
    unfolding list_ex_iff by blast
  let ?u = "map (\<lambda>s. multimap (map sample_potential samples) (sample_dataset s)) samples"
  let ?self = "\<lparr> self_m = length samples,
                  self_n = map (\<lambda>s. length (df_rows (sample_dataset s))) samples,
                  self_neff = map sample_neff samples,
                  self_names = df_columns (sample_dataset (samples ! 0)),
                  self_u = ?u, self_f = overlapSampling ?u, self_b = [], self_pi = [],
                  self_P = [], self_pm = [], self_u0 = [], self_p0 = [], self_iB0 = [],
                  self_Sp0 = [], self_Theta = [], self_Overlap = [] \<rparr>"
  have ne: "length samples \<noteq> 0" using a by simp
  have "mixture_init overlapSampling method_initialize samples = method_initialize ?self"
    unfolding mixture_init_def Let_def by (simp only: ne n if_False)
  then show "\<exists>self. mixture_init overlapSampling method_initialize samples = method_initialize self \<and>
         self_m self = length samples \<and>
         self_n self = map (\<lambda>s. length (df_rows (sample_dataset s))) samples \<and>
         self_neff self = map sample_neff samples \<and>
         self_names self = df_columns (sample_dataset (samples ! 0)) \<and>
         self_u self = map (\<lambda>s. multimap (map sample_potential samples) (sample_dataset s)) samples \<and>
         self_f self = overlapSampling (self_u self)"
    by (intro exI[of _ ?self]) simp
qed

theorem mixture_init_checks_witness:
  "mixture_init zero_guess no_method [] = Inl (InputError ''list of samples is empty'') \<and>
   mixture_init zero_guess no_method [sample_ab, example_sample] =
     Inl (InputError ''provided samples have distinct properties'') \<and>
   (\<exists>self. mixture_init zero_guess no_method example_samples = no_method self \<and>
      self_m self = 2 \<and> self_f self = [0, 0])"
proof -
  have 1: "mixture_init zero_guess no_method [] = Inl (InputError ''list of samples is empty'')"
    using mixture_init_checks[of "[]" zero_guess no_method] by simp
  have c: "df_columns (sample_dataset example_sample) \<noteq> df_columns (sample_dataset sample_ab)"
    by (simp add: sample_ab_def example_sample_def)
  have 2: "mixture_init zero_guess no_method [sample_ab, example_sample] =
     Inl (InputError ''provided samples have distinct properties'')"
    using mixture_init_checks[of "[sample_ab, example_sample]" zero_guess no_method] c
    by simp
  from mixture_init_checks[of example_samples zero_guess no_method]
  obtain self where s: "mixture_init zero_guess no_method example_samples = no_method self"
    "self_m self = length example_samples"
    "self_u self = map (\<lambda>s. multimap (map sample_potential example_samples) (sample_dataset s)) example_samples"
    "self_f self = zero_guess (self_u self)"
    unfolding example_samples_def by auto
  have "self_m self = 2" "self_f self = [0, 0]"
    unfolding s(4) s(3) s(2) by (simp_all add: example_samples_def zero_guess_def)
  with s(1) have 3: "\<exists>self. mixture_init zero_guess no_method example_samples = no_method self \<and>
      self_m self = 2 \<and> self_f self = [0, 0]" by blast
  from 1 2 3 show ?thesis by blast
qed

text \<open>
  The claim C7 as it is stated does not hold: two samples that record the same set
  of properties, in a different column order, are refused.
\<close>

theorem mixture_init_same_property_set_refused:
  "set (df_columns (sample_dataset sample_ba)) = set (df_columns (sample_dataset sample_ab)) \<and>
   mixture_init zero_guess no_method [sample_ab, sample_ba] =
     Inl (InputError ''provided samples have distinct properties'')"
  by (simp add: mixture_init_def Let_def sample_ab_def sample_ba_def insert_commute)

text \<open>
  Claim C8: a call of \<open>reweighting\<close> whose properties contain the key \<open>f\<close> should fail
  with an \<open>InputError\<close> and a message that names the reserved word. The code builds the
  message with the format \<open>Word % is reserved for free energies\<close>, in which the
  percent sign, a space and the letter \<open>i\<close> of the word \<open>is\<close> form an integer conversion:
  formatting the string \<open>f\<close> raises \<open>TypeError\<close>, and no \<open>InputError\<close> is raised.
\<close>

theorem reweighting_reserved_name_TypeError:
  "reweighting body [(''f'', ''x'')] = Inl TypeError"
  by (simp add: reweighting_def py_percent_def)

lemma reweighting_reserved_name_general:
  "''f'' \<in> set (map fst properties) \<Longrightarrow> reweighting body properties = Inl TypeError"
  by (simp add: reweighting_def py_percent_def)

lemma py_percent_intended:
  "py_percent ''Word %s is reserved for free energies'' ''f'' =
     Inr ''Word f is reserved for free energies''"
  by (simp add: py_percent_def)

lemma reweighting_other_names: "''f'' \<notin> set (map fst properties) \<Longrightarrow> reweighting body properties = body properties"
  by (simp add: reweighting_def)

section \<open>The claim about the perturbation and reweighting operations\<close>

lemma perturb_unfold:
  "MICS_perturb ccov cov self u ref =
     (case py_index (length (rw_pu self u)) ref of
        Inl e \<Rightarrow> Inl e
      | Inr rp \<Rightarrow>
          (case py_index (length (self_f self)) ref of
             Inl e \<Rightarrow> Inl e
           | Inr rf \<Rightarrow>
               Inr (ln (rw_iw0 self u) - self_f self ! rf,
                    sqrt (quad_form
                            (concat (matmul (self_iB0 self)
                                       (as_column ((rw_pu self u)[rp := rw_pu self u ! rp - 1])))
                               @ [rw_iw0 self u])
                            (np_block [[self_Sp0 self, pt_Sp0w0 ccov self u],
                                       [mat_T (pt_Sp0w0 ccov self u), pt_Sw0 cov self u]])))))"
  unfolding MICS_perturb_def rw_pu_def rw_iw0_def pt_Sp0w0_def pt_Sw0_def pt_wm_def rw_w_def
    quad_form_def Let_def
  by (rule refl)

lemma reweight_unfold:
  "MICS_reweight ccov cov self u y ref =
     (case py_index (length (self_f self)) ref of
        Inl e \<Rightarrow> Inl e
      | Inr rf \<Rightarrow>
          (case py_index (length (rw_pu self u)) ref of
             Inl e \<Rightarrow> Inl e
           | Inr rp \<Rightarrow>
               Inr ([ln (rw_iw0 self u) - self_f self ! rf] @ rw_yu self u y,
                    matmul (matmul (mat_T (rw_G self u y rp))
                              (np_block [[self_Sp0 self, rw_Sp0r0 ccov self u y],
                                         [mat_T (rw_Sp0r0 ccov self u y), rw_Sr0 cov self u y]]))
                      (rw_G self u y rp))))"
  unfolding MICS_reweight_def rw_G_def rw_Dyup0_def rw_Sp0r0_def rw_Sr0_def rw_rm_def rw_r_def
    rw_yu_def rw_z_def rw_pu_def rw_iw0_def rw_w_def Let_def
  by (rule refl)

lemma is_mat_weights: "is_mat 1 n ui \<Longrightarrow> length u0i = n \<Longrightarrow> is_mat 1 n (weights u0i ui)"
  by (auto simp: is_mat_def weights_def list_all_length)

lemma is_mat_bmul: "is_mat 1 n w \<Longrightarrow> is_mat k n y \<Longrightarrow> is_mat k n (bmul w y)"
  by (auto simp: is_mat_def bmul_def list_all_length)

lemma length_bmul [simp]: "length (bmul w y) = length y"
  by (simp add: bmul_def)

lemma wc_D:
  assumes "wf_converged self" "i < self_m self"
  shows "0 < self_n self ! i" "is_mat (self_m self) (self_n self ! i) (self_P self ! i)"
    "length (self_pm self ! i) = self_m self" "length (self_u0 self ! i) = self_n self ! i"
  using assms by (simp_all add: wf_converged_def list_all_iff)

lemma wc_m: "wf_converged self \<Longrightarrow> 0 < self_m self"
  by (simp add: wf_converged_def)

lemma wc_iB0_length: "wf_converged self \<Longrightarrow> length (self_iB0 self) = self_m self"
  by (simp add: wf_converged_def is_mat_def)

lemma rw_w_nth: "i < self_m self \<Longrightarrow> rw_w self u ! i = weights (self_u0 self ! i) (u ! i)"
  by (simp add: rw_w_def)

lemma rw_w_is_mat:
  assumes "wf_converged self" "wf_target self u" "i < self_m self"
  shows "is_mat 1 (self_n self ! i) (rw_w self u ! i)"
  unfolding rw_w_nth[OF assms(3)]
  using assms(2,3) wc_D(4)[OF assms(1,3)] by (intro is_mat_weights) (simp_all add: wf_target_def list_all_iff)

lemma rw_z_is_mat:
  assumes "wf_converged self" "wf_target self u" "wf_properties self k y" "i < self_m self"
  shows "is_mat k (self_n self ! i) (rw_z self u y ! i)"
proof -
  have "rw_z self u y ! i = bmul (rw_w self u ! i) (y ! i)" using assms(4) by (simp add: rw_z_def)
  moreover have "is_mat k (self_n self ! i) (y ! i)"
    using assms(3,4) by (simp add: wf_properties_def list_all_iff)
  ultimately show ?thesis using rw_w_is_mat[OF assms(1,2,4)] by (simp add: is_mat_bmul)
qed

lemma rw_r_nth: "i < self_m self \<Longrightarrow> rw_r self u y ! i = rw_z self u y ! i @ rw_w self u ! i"
  by (simp add: rw_r_def)

lemma rw_r_facts:
  assumes "wf_converged self" "wf_target self u" "wf_properties self k y" "i < self_m self"
  shows "length (rw_r self u y ! i) = Suc k" "rw_r self u y ! i ! k = rw_w self u ! i ! 0"
    "length (rw_rm self u y ! i) = Suc k" "rw_rm self u y ! i ! k = pt_wm self u ! i ! 0"
    "length (rw_w self u ! i) = 1" "length (pt_wm self u ! i) = 1"
proof -
  have z: "length (rw_z self u y ! i) = k" using rw_z_is_mat[OF assms] by (simp add: is_mat_length)
  have w: "length (rw_w self u ! i) = 1" using rw_w_is_mat[OF assms(1,2,4)] by (simp add: is_mat_length)
  show "length (rw_w self u ! i) = 1" by (rule w)
  show "length (rw_r self u y ! i) = Suc k" by (simp add: rw_r_nth[OF assms(4)] z w)
  show "rw_r self u y ! i ! k = rw_w self u ! i ! 0" by (simp add: rw_r_nth[OF assms(4)] z nth_append)
  have rm: "rw_rm self u y ! i = mean1 (rw_z self u y ! i) @ mean1 (rw_w self u ! i)"
    using assms(4) by (simp add: rw_rm_def rw_r_nth mean1_append)
  show "length (rw_rm self u y ! i) = Suc k" by (simp add: rm z w)
  have wm: "pt_wm self u ! i = mean1 (rw_w self u ! i)" using assms(4) by (simp add: pt_wm_def)
  show "rw_rm self u y ! i ! k = pt_wm self u ! i ! 0" by (simp add: rm wm z nth_append)
  show "length (pt_wm self u ! i) = 1" by (simp add: wm w)
qed

lemma cross_blocks_agree:
  assumes wc: "wf_converged self" and wt: "wf_target self u" and wy: "wf_properties self k y"
    and E: "\<And>y ym z zm b. ccov y ym z zm b
               = map2 (\<lambda>yr ymr. map2 (\<lambda>zr zmr. E b yr ymr zr zmr) z zm) y ym"
  shows "is_mat (self_m self) (Suc k) (rw_Sp0r0 ccov self u y)"
    and "is_mat (self_m self) 1 (pt_Sp0w0 ccov self u)"
    and "\<And>j. j < self_m self \<Longrightarrow> rw_Sp0r0 ccov self u y ! j ! k = pt_Sp0w0 ccov self u ! j ! 0"
proof -
  let ?m = "self_m self"
  let ?R = "\<lambda>i. ccov (self_P self ! i) (self_pm self ! i) (rw_r self u y ! i)
                       (rw_rm self u y ! i) (self_b self ! i)"
  let ?W = "\<lambda>i. ccov (self_P self ! i) (self_pm self ! i) (rw_w self u ! i)
                       (pt_wm self u ! i) (self_b self ! i)"
  have m: "0 < ?m" by (rule wc_m[OF wc])
  have P: "\<And>i. i < ?m \<Longrightarrow> length (self_P self ! i) = ?m"
    by (rule is_mat_length[OF wc_D(2)[OF wc]])
  have R: "\<And>i. i < ?m \<Longrightarrow> is_mat ?m (Suc k) (?R i)"
    unfolding E by (intro entry_matrix_is_mat P wc_D(3)[OF wc] rw_r_facts(1,3)[OF wc wt wy])
  have W: "\<And>i. i < ?m \<Longrightarrow> is_mat ?m 1 (?W i)"
    unfolding E by (intro entry_matrix_is_mat P wc_D(3)[OF wc] rw_r_facts(5,6)[OF wc wt wy])
  show "is_mat ?m (Suc k) (rw_Sp0r0 ccov self u y)"
    unfolding rw_Sp0r0_def by (rule py_sum_scaled_is_mat[OF m R])
  show "is_mat ?m 1 (pt_Sp0w0 ccov self u)"
    unfolding pt_Sp0w0_def by (rule py_sum_scaled_is_mat[OF m W])
  fix j assume j: "j < ?m"
  have "rw_Sp0r0 ccov self u y ! j ! k = (\<Sum>i<?m. (self_pi self ! i)\<^sup>2 * ?R i ! j ! k)"
    unfolding rw_Sp0r0_def by (rule py_sum_scaled_nth[OF m R j]) simp_all
  also have "\<dots> = (\<Sum>i<?m. (self_pi self ! i)\<^sup>2 * ?W i ! j ! 0)"
  proof (rule sum.cong[OF refl])
    fix i assume "i \<in> {..<?m}"
    then have i: "i < ?m" by simp
    have "?R i ! j ! k = E (self_b self ! i) (self_P self ! i ! j) (self_pm self ! i ! j)
                           (rw_r self u y ! i ! k) (rw_rm self u y ! i ! k)"
      unfolding E
      by (rule entry_matrix_nth[OF P[OF i] wc_D(3)[OF wc i] rw_r_facts(1,3)[OF wc wt wy i] j]) simp
    moreover have "?W i ! j ! 0 = E (self_b self ! i) (self_P self ! i ! j) (self_pm self ! i ! j)
                           (rw_w self u ! i ! 0) (pt_wm self u ! i ! 0)"
      unfolding E
      by (rule entry_matrix_nth[OF P[OF i] wc_D(3)[OF wc i] rw_r_facts(5,6)[OF wc wt wy i] j]) simp
    ultimately show "(self_pi self ! i)\<^sup>2 * ?R i ! j ! k = (self_pi self ! i)\<^sup>2 * ?W i ! j ! 0"
      by (simp add: rw_r_facts(2,4)[OF wc wt wy i])
  qed
  also have "\<dots> = pt_Sp0w0 ccov self u ! j ! 0"
    unfolding pt_Sp0w0_def by (rule py_sum_scaled_nth[OF m W j, symmetric]) simp_all
  finally show "rw_Sp0r0 ccov self u y ! j ! k = pt_Sp0w0 ccov self u ! j ! 0" .
qed

lemma auto_blocks_agree:
  assumes wc: "wf_converged self" and wt: "wf_target self u" and wy: "wf_properties self k y"
    and E: "\<And>y ym z zm b. ccov y ym z zm b
               = map2 (\<lambda>yr ymr. map2 (\<lambda>zr zmr. E b yr ymr zr zmr) z zm) y ym"
    and C: "\<And>y ym b. cov y ym b = ccov y ym y ym b"
  shows "is_mat (Suc k) (Suc k) (rw_Sr0 cov self u y)"
    and "is_mat 1 1 (pt_Sw0 cov self u)"
    and "rw_Sr0 cov self u y ! k ! k = pt_Sw0 cov self u ! 0 ! 0"
proof -
  let ?m = "self_m self"
  let ?R = "\<lambda>i. cov (rw_r self u y ! i) (rw_rm self u y ! i) (self_b self ! i)"
  let ?W = "\<lambda>i. cov (rw_w self u ! i) (pt_wm self u ! i) (self_b self ! i)"
  have m: "0 < ?m" by (rule wc_m[OF wc])
  have R: "\<And>i. i < ?m \<Longrightarrow> is_mat (Suc k) (Suc k) (?R i)"
    unfolding C E by (intro entry_matrix_is_mat rw_r_facts(1,3)[OF wc wt wy])
  have W: "\<And>i. i < ?m \<Longrightarrow> is_mat 1 1 (?W i)"
    unfolding C E by (intro entry_matrix_is_mat rw_r_facts(5,6)[OF wc wt wy])
  show "is_mat (Suc k) (Suc k) (rw_Sr0 cov self u y)"
    unfolding rw_Sr0_def by (rule py_sum_scaled_is_mat[OF m R])
  show "is_mat 1 1 (pt_Sw0 cov self u)"
    unfolding pt_Sw0_def by (rule py_sum_scaled_is_mat[OF m W])
  have "rw_Sr0 cov self u y ! k ! k = (\<Sum>i<?m. (self_pi self ! i)\<^sup>2 * ?R i ! k ! k)"
    unfolding rw_Sr0_def by (rule py_sum_scaled_nth[OF m R]) simp_all
  also have "\<dots> = (\<Sum>i<?m. (self_pi self ! i)\<^sup>2 * ?W i ! 0 ! 0)"
  proof (rule sum.cong[OF refl])
    fix i assume "i \<in> {..<?m}"
    then have i: "i < ?m" by simp
    have "?R i ! k ! k = E (self_b self ! i) (rw_r self u y ! i ! k) (rw_rm self u y ! i ! k)
                           (rw_r self u y ! i ! k) (rw_rm self u y ! i ! k)"
      unfolding C E
      by (rule entry_matrix_nth[OF rw_r_facts(1,3)[OF wc wt wy i] rw_r_facts(1,3)[OF wc wt wy i]]) simp_all
    moreover have "?W i ! 0 ! 0 = E (self_b self ! i) (rw_w self u ! i ! 0) (pt_wm self u ! i ! 0)
                           (rw_w self u ! i ! 0) (pt_wm self u ! i ! 0)"
      unfolding C E
      by (rule entry_matrix_nth[OF rw_r_facts(5,6)[OF wc wt wy i] rw_r_facts(5,6)[OF wc wt wy i]]) simp_all
    ultimately show "(self_pi self ! i)\<^sup>2 * ?R i ! k ! k = (self_pi self ! i)\<^sup>2 * ?W i ! 0 ! 0"
      by (simp add: rw_r_facts(2,4)[OF wc wt wy i])
  qed
  also have "\<dots> = pt_Sw0 cov self u ! 0 ! 0"
    unfolding pt_Sw0_def by (rule py_sum_scaled_nth[OF m W, symmetric]) simp_all
  finally show "rw_Sr0 cov self u y ! k ! k = pt_Sw0 cov self u ! 0 ! 0" .
qed

lemma rw_pu_length:
  assumes "wf_converged self"
  shows "length (rw_pu self u) = self_m self"
proof -
  have "length (py_sum_vec (map (\<lambda>i. vscale (self_pi self ! i)
                               (mean1 (bmul (rw_w self u ! i) (self_P self ! i))))
                      [0..<self_m self])) = self_m self"
  proof (rule length_py_sum_vec)
    show "map (\<lambda>i. vscale (self_pi self ! i) (mean1 (bmul (rw_w self u ! i) (self_P self ! i))))
            [0..<self_m self] \<noteq> []"
      using wc_m[OF assms] by simp
    show "\<forall>w\<in>set (map (\<lambda>i. vscale (self_pi self ! i)
                               (mean1 (bmul (rw_w self u ! i) (self_P self ! i))))
                      [0..<self_m self]). length w = self_m self"
      using is_mat_length[OF wc_D(2)[OF assms]] by auto
  qed
  then show ?thesis by (simp add: rw_pu_def)
qed

lemma rw_yu_length:
  assumes "wf_converged self" "wf_target self u" "wf_properties self k y"
  shows "length (rw_yu self u y) = k"
proof -
  have "length (py_sum_vec (map (\<lambda>i. vscale (self_pi self ! i) (mean1 (rw_z self u y ! i)))
                      [0..<self_m self])) = k"
  proof (rule length_py_sum_vec)
    show "map (\<lambda>i. vscale (self_pi self ! i) (mean1 (rw_z self u y ! i))) [0..<self_m self] \<noteq> []"
      using wc_m[OF assms(1)] by simp
    show "\<forall>w\<in>set (map (\<lambda>i. vscale (self_pi self ! i) (mean1 (rw_z self u y ! i)))
                      [0..<self_m self]). length w = k"
      using is_mat_length[OF rw_z_is_mat[OF assms]] by auto
  qed
  then show ?thesis by (simp add: rw_yu_def)
qed

lemma rw_a_length: "wf_converged self \<Longrightarrow> length (rw_a self u rp) = self_m self"
  by (simp add: rw_a_def wc_iB0_length)

lemma perturb_G:
  assumes "wf_converged self"
  shows "concat (matmul (self_iB0 self) (as_column ((rw_pu self u)[rp := rw_pu self u ! rp - 1])))
           @ [rw_iw0 self u] = rw_a self u rp @ [rw_iw0 self u]"
proof -
  have "(rw_pu self u)[rp := rw_pu self u ! rp - 1] \<noteq> []"
    using rw_pu_length[OF assms, of u] wc_m[OF assms] by auto
  then show ?thesis by (simp add: matmul_as_column rw_a_def)
qed

lemma reweight_G_column:
  assumes wc: "wf_converged self" and wt: "wf_target self u" and wy: "wf_properties self k y"
  shows "column (rw_G self u y rp) 0 = rw_a self u rp @ replicate k 0 @ [rw_iw0 self u]"
    and "0 < ncols (rw_G self u y rp)"
proof -
  let ?a = "rw_a self u rp"
  have ne: "(rw_pu self u)[rp := rw_pu self u ! rp - 1] \<noteq> []"
    using rw_pu_length[OF wc, of u] wc_m[OF wc] by auto
  have D: "matmul (self_iB0 self) (as_column ((rw_pu self u)[rp := rw_pu self u ! rp - 1]))
         = as_column ?a"
    using ne by (simp add: matmul_as_column rw_a_def)
  have la: "length ?a = self_m self" by (rule rw_a_length[OF wc])
  have lD: "length (rw_Dyup0 self u y) = self_m self"
    using wc by (simp add: rw_Dyup0_def wc_iB0_length)
  have G: "rw_G self u y rp =
      hcat (as_column ?a) (rw_Dyup0 self u y)
      @ hcat (replicate k [0]) (diag_mat (replicate k (rw_iw0 self u)))
      @ hcat [[rw_iw0 self u]] [map (\<lambda>v. - v * rw_iw0 self u) (rw_yu self u y)]"
    unfolding rw_G_def np_block_3x2 D rw_yu_length[OF wc wt wy] ..
  have 1: "column (hcat (as_column ?a) (rw_Dyup0 self u y)) 0 = ?a"
    using column_hcat_0[OF _ as_column_rows, of ?a "rw_Dyup0 self u y"] la lD by simp
  have 2: "column (hcat (replicate k [0]) (diag_mat (replicate k (rw_iw0 self u)))) 0
         = replicate k 0"
    by (subst column_hcat_0) (simp_all add: column_def)
  have 3: "column (hcat [[rw_iw0 self u]] [map (\<lambda>v. - v * rw_iw0 self u) (rw_yu self u y)]) 0
         = [rw_iw0 self u]"
    by (simp add: hcat_def column_def)
  show "column (rw_G self u y rp) 0 = ?a @ replicate k 0 @ [rw_iw0 self u]"
    unfolding G column_append 1 2 3 ..
  have h: "hcat (as_column ?a) (rw_Dyup0 self u y) \<noteq> []"
    using la lD wc_m[OF wc] by (auto simp: hcat_def as_column_def)
  have "hcat (as_column ?a) (rw_Dyup0 self u y) ! 0 \<noteq> []"
    using la lD wc_m[OF wc] by (simp add: nth_hcat as_column_def)
  from ncols_append_pos[OF h this] show "0 < ncols (rw_G self u y rp)" unfolding G .
qed

lemma quad_forms_agree:
  assumes wc: "wf_converged self" and wt: "wf_target self u" and wy: "wf_properties self k y"
    and ee: "entrywise_estimators ccov cov"
  shows "quad_form (rw_a self u rp @ replicate k 0 @ [rw_iw0 self u])
           (np_block [[self_Sp0 self, rw_Sp0r0 ccov self u y],
                      [mat_T (rw_Sp0r0 ccov self u y), rw_Sr0 cov self u y]])
       = quad_form (rw_a self u rp @ [rw_iw0 self u])
           (np_block [[self_Sp0 self, pt_Sp0w0 ccov self u],
                      [mat_T (pt_Sp0w0 ccov self u), pt_Sw0 cov self u]])"
proof -
  from ee obtain E where
    E: "\<And>y ym z zm b. ccov y ym z zm b
               = map2 (\<lambda>yr ymr. map2 (\<lambda>zr zmr. E b yr ymr zr zmr) z zm) y ym"
    and C: "\<And>y ym b. cov y ym b = ccov y ym y ym b"
    unfolding entrywise_estimators_def by blast
  let ?m = "self_m self"
  let ?a = "rw_a self u rp"
  let ?w = "rw_iw0 self u"
  note X = cross_blocks_agree[OF wc wt wy E]
  note A = auto_blocks_agree[OF wc wt wy E C]
  have m: "0 < ?m" by (rule wc_m[OF wc])
  have S: "is_mat ?m ?m (self_Sp0 self)" using wc by (simp add: wf_converged_def)
  have la: "length ?a = ?m" by (rule rw_a_length[OF wc])
  have X1: "is_mat ?m (Suc 0) (pt_Sp0w0 ccov self u)" using X(2) by simp
  have A1: "is_mat (Suc 0) (Suc 0) (pt_Sw0 cov self u)" using A(2) by simp
  have col: "column (rw_Sp0r0 ccov self u y) k = column (pt_Sp0w0 ccov self u) 0"
    using X(3) is_mat_length[OF X(1)] is_mat_length[OF X(2)]
    by (intro nth_equalityI) simp_all
  have "quad_form (?a @ replicate k 0 @ [?w])
           (np_block [[self_Sp0 self, rw_Sp0r0 ccov self u y],
                      [mat_T (rw_Sp0r0 ccov self u y), rw_Sr0 cov self u y]])
      = (\<Sum>c<?m. (dot ?a (column (self_Sp0 self) c) + ?w * rw_Sp0r0 ccov self u y ! c ! k) * ?a ! c)
        + (dot ?a (column (rw_Sp0r0 ccov self u y) k) + ?w * rw_Sr0 cov self u y ! k ! k) * ?w"
    by (rule quad_form_block_last[OF S X(1) A(1) m la])
  also have "\<dots> = (\<Sum>c<?m. (dot ?a (column (self_Sp0 self) c) + ?w * pt_Sp0w0 ccov self u ! c ! 0) * ?a ! c)
        + (dot ?a (column (pt_Sp0w0 ccov self u) 0) + ?w * pt_Sw0 cov self u ! 0 ! 0) * ?w"
    unfolding col A(3) using X(3) by simp
  also have "\<dots> = quad_form (?a @ replicate 0 0 @ [?w])
           (np_block [[self_Sp0 self, pt_Sp0w0 ccov self u],
                      [mat_T (pt_Sp0w0 ccov self u), pt_Sw0 cov self u]])"
    by (rule quad_form_block_last[OF S X1 A1 m la, symmetric])
  finally show ?thesis by simp
qed

text \<open>
  Claim C6. For the same target potential and the same reference state, and for any
  properties given to the reweighting operation, the perturbation operation fails
  exactly when the reweighting operation fails (on a reference index out of range),
  and otherwise its free energy is the first entry of the values that the reweighting
  operation returns, and its standard error is the square root of the first diagonal
  entry of the covariance matrix that the reweighting operation returns.
\<close>

theorem perturb_agrees_with_reweight:
  assumes "wf_converged self" and "wf_target self u" and "wf_properties self k y"
      and "entrywise_estimators ccov cov"
  shows "(\<forall>e. MICS_perturb ccov cov self u ref = Inl e \<longleftrightarrow>
              MICS_reweight ccov cov self u y ref = Inl e) \<and>
         (\<forall>f df. MICS_perturb ccov cov self u ref = Inr (f, df) \<longrightarrow>
            (\<exists>vals Theta. MICS_reweight ccov cov self u y ref = Inr (vals, Theta) \<and>
               vals ! 0 = f \<and> sqrt (Theta ! 0 ! 0) = df)) \<and>
         (- int (self_m self) \<le> ref \<and> ref < int (self_m self) \<longrightarrow>
            (\<exists>f df. MICS_perturb ccov cov self u ref = Inr (f, df)))"
proof -
  have lp: "length (rw_pu self u) = self_m self" by (rule rw_pu_length[OF assms(1)])
  have lf: "length (self_f self) = self_m self" using assms(1) by (simp add: wf_converged_def)
  show ?thesis
  proof (rule py_index_cases[where n = "self_m self" and i = ref])
    assume "py_index (self_m self) ref = Inl IndexError"
      and "\<not> (- int (self_m self) \<le> ref \<and> ref < int (self_m self))"
    then show ?thesis by (simp add: perturb_unfold reweight_unfold lp lf)
  next
    fix r
    assume inr: "py_index (self_m self) ref = Inr r" "r < self_m self"
      "- int (self_m self) \<le> ref \<and> ref < int (self_m self)"
    let ?f = "ln (rw_iw0 self u) - self_f self ! r"
    let ?Sp = "np_block [[self_Sp0 self, pt_Sp0w0 ccov self u],
                         [mat_T (pt_Sp0w0 ccov self u), pt_Sw0 cov self u]]"
    let ?Sr = "np_block [[self_Sp0 self, rw_Sp0r0 ccov self u y],
                         [mat_T (rw_Sp0r0 ccov self u y), rw_Sr0 cov self u y]]"
    let ?Theta = "matmul (matmul (mat_T (rw_G self u y r)) ?Sr) (rw_G self u y r)"
    have p: "MICS_perturb ccov cov self u ref =
        Inr (?f, sqrt (quad_form (rw_a self u r @ [rw_iw0 self u]) ?Sp))"
      by (simp add: perturb_unfold lp lf inr(1) perturb_G[OF assms(1)])
    have w: "MICS_reweight ccov cov self u y ref = Inr ([?f] @ rw_yu self u y, ?Theta)"
      by (simp add: reweight_unfold lp lf inr(1))
    have "?Theta ! 0 ! 0 = quad_form (column (rw_G self u y r) 0) ?Sr"
      by (rule triple_product_00[OF reweight_G_column(2)[OF assms(1,2,3)]])
    also have "\<dots> = quad_form (rw_a self u r @ replicate k 0 @ [rw_iw0 self u]) ?Sr"
      by (simp only: reweight_G_column(1)[OF assms(1,2,3)])
    also have "\<dots> = quad_form (rw_a self u r @ [rw_iw0 self u]) ?Sp"
      by (rule quad_forms_agree[OF assms])
    finally have t: "sqrt (?Theta ! 0 ! 0) = sqrt (quad_form (rw_a self u r @ [rw_iw0 self u]) ?Sp)"
      by simp
    show ?thesis
      unfolding p w using t by simp
  qed
qed

theorem perturb_agrees_with_reweight_witness:
  "wf_converged example_result \<and> wf_target example_result example_target \<and>
   wf_properties example_result 1 example_properties \<and>
   entrywise_estimators cross_covariance covariance \<and>
   (\<exists>f df vals Theta.
      MICS_perturb cross_covariance covariance example_result example_target 0 = Inr (f, df) \<and>
      MICS_reweight cross_covariance covariance example_result example_target
        example_properties 0 = Inr (vals, Theta) \<and>
      vals ! 0 = f \<and> sqrt (Theta ! 0 ! 0) = df)"
proof -
  note h = wf_converged_example wf_target_example wf_properties_example entrywise_covariance
  from perturb_agrees_with_reweight[OF h, of 0]
  have 1: "\<forall>f df. MICS_perturb cross_covariance covariance example_result example_target 0 = Inr (f, df) \<longrightarrow>
            (\<exists>vals Theta. MICS_reweight cross_covariance covariance example_result example_target
                example_properties 0 = Inr (vals, Theta) \<and>
               vals ! 0 = f \<and> sqrt (Theta ! 0 ! 0) = df)"
    and 2: "\<exists>f df. MICS_perturb cross_covariance covariance example_result example_target 0 = Inr (f, df)"
    by (simp_all add: example_result_fields)
  from 1 2 h show ?thesis by blast
qed

section \<open>The reweighting operation at a sampled state\<close>

text \<open>
  When the target potential is the potential of the sampled state \<open>k\<close>, the weights
  are the row \<open>k\<close> of the posterior probabilities divided by \<open>pi[k] exp(f[k])\<close>, and
  the free energy that the reweighting operation returns is
  \<open>f[k] - f[ref] + ln(pi[k] / p0[k])\<close>: the entry of \<open>free_energies\<close> for state \<open>k\<close>
  and a term that vanishes where \<open>p0[k] = pi[k]\<close>, that is where the self-consistent
  equations hold.
\<close>

lemma sum_list_map_mult_right: "sum_list (map (\<lambda>v. v * c) xs) = sum_list xs * (c::real)"
  by (induction xs) (simp_all add: algebra_simps)

lemma weights_of_state_potential:
  assumes g: "length g = m" and U: "is_mat m n U" and m: "0 < m" and k: "k < m"
  shows "weights (sample_u0 g U) [U ! k] = [map (\<lambda>v. v * exp (- g ! k)) (sample_P g U ! k)]"
proof -
  have x: "is_mat m n (sample_x g U)" by (rule is_mat_sample_x[OF g U])
  have nm: "is_mat m n (sample_numer g U)" by (rule is_mat_sample_numer[OF g U m])
  have P: "is_mat m n (sample_P g U)" by (rule is_mat_sample_P[OF g U m])
  have lu0: "length (sample_u0 g U) = n"
    by (simp add: sample_u0_def length_amax0[OF x m] length_sum0[OF nm m])
  have lUk: "length (U ! k) = n" by (rule is_mat_nth[OF U k])
  have lPk: "length (sample_P g U ! k) = n" by (rule is_mat_nth[OF P k])
  have "map2 (\<lambda>a c. exp (a - c)) (sample_u0 g U) (U ! k)
      = map (\<lambda>v. v * exp (- g ! k)) (sample_P g U ! k)"
  proof (rule nth_equalityI)
    show "length (map2 (\<lambda>a c. exp (a - c)) (sample_u0 g U) (U ! k))
        = length (map (\<lambda>v. v * exp (- g ! k)) (sample_P g U ! k))"
      by (simp add: lu0 lUk lPk)
    fix t assume "t < length (map2 (\<lambda>a c. exp (a - c)) (sample_u0 g U) (U ! k))"
    then have t: "t < n" by (simp add: lu0 lUk)
    let ?D = "sum0 (sample_numer g U) ! t"
    let ?mx = "amax0 (sample_x g U) ! t"
    have D: "0 < ?D" by (rule denom_pos[OF g U m t])
    have u0: "sample_u0 g U ! t = - (?mx + ln ?D)"
      using t by (simp add: sample_u0_def length_amax0[OF x m] length_sum0[OF nm m])
    have "sample_u0 g U ! t - U ! k ! t = (- ?mx - U ! k ! t) - ln ?D"
      unfolding u0 by simp
    then have "exp (sample_u0 g U ! t - U ! k ! t) = exp (- ?mx - U ! k ! t) / exp (ln ?D)"
      by (simp only: exp_diff)
    also have "\<dots> = exp (- ?mx - U ! k ! t) / ?D" using D by simp
    also have "exp (- ?mx - U ! k ! t) = exp (g ! k - U ! k ! t - ?mx) * exp (- g ! k)"
      by (simp add: mult_exp_exp)
    also have "exp (g ! k - U ! k ! t - ?mx) * exp (- g ! k) / ?D
             = sample_P g U ! k ! t * exp (- g ! k)"
      unfolding nth_sample_P[OF g U m k t] nth_sample_numer[OF g U m k t] nth_sample_x[OF g U k t]
      by simp
    finally show "map2 (\<lambda>a c. exp (a - c)) (sample_u0 g U) (U ! k) ! t
        = map (\<lambda>v. v * exp (- g ! k)) (sample_P g U ! k) ! t"
      using t by (simp add: lu0 lUk lPk)
  qed
  then show ?thesis by (simp add: weights_def)
qed


lemma returned_state_parts:
  assumes "wf_mixture pre" "i < self_m pre"
  shows "self_u0 (MICS_finish cov (snd (newton_raphson_iteration pinv pre))) ! i
           = sample_u0 (nr_g pre) (self_u pre ! i)"
    and "self_P (MICS_finish cov (snd (newton_raphson_iteration pinv pre))) ! i
           = sample_P (nr_g pre) (self_u pre ! i)"
    and "self_pm (MICS_finish cov (snd (newton_raphson_iteration pinv pre))) ! i
           = mean1 (sample_P (nr_g pre) (self_u pre ! i))"
  by (simp_all add: MICS_finish_fields nri_u0_nth[OF assms] nri_P_nth[OF assms] nri_pm_nth[OF assms])

lemma p0_nth:
  assumes wf: "wf_mixture pre" and k: "k < self_m pre"
  shows "self_p0 (snd (newton_raphson_iteration pinv pre)) ! k
           = (\<Sum>i<self_m pre. self_pi pre ! i * mean1 (sample_P (nr_g pre) (self_u pre ! i)) ! k)"
proof -
  let ?m = "self_m pre"
  let ?s = "snd (newton_raphson_iteration pinv pre)"
  let ?P = "\<lambda>i. sample_P (nr_g pre) (self_u pre ! i)"
  have m: "0 < ?m" by (rule wf_m[OF wf])
  have "self_p0 ?s ! k = sum_list (map (\<lambda>w. w ! k)
          (map (\<lambda>i. vscale (self_pi pre ! i) (self_pm ?s ! i)) [0..<?m]))"
    unfolding nri_p0
    using m nri_pm_length[OF wf] k by (intro nth_py_sum_vec[where L = ?m]) auto
  also have "\<dots> = sum_list (map (\<lambda>i. vscale (self_pi pre ! i) (self_pm ?s ! i) ! k) [0..<?m])"
    by (simp add: comp_def)
  also have "\<dots> = (\<Sum>i<?m. vscale (self_pi pre ! i) (self_pm ?s ! i) ! k)"
    by (rule sum_list_upt_sum)
  also have "\<dots> = (\<Sum>i<?m. self_pi pre ! i * mean1 (?P i) ! k)"
  proof (rule sum.cong[OF refl])
    fix i assume "i \<in> {..<?m}"
    then have i: "i < ?m" by simp
    show "vscale (self_pi pre ! i) (self_pm ?s ! i) ! k = self_pi pre ! i * mean1 (?P i) ! k"
      using k nri_pm_length[OF wf i, of pinv] by (simp add: nri_pm_nth[OF wf i])
  qed
  finally show ?thesis .
qed

lemma p0_positive:
  assumes wf: "wf_mixture pre" and k: "k < self_m pre"
    and pos: "\<And>i. i < self_m pre \<Longrightarrow> 0 < self_pi pre ! i"
  shows "0 < self_p0 (snd (newton_raphson_iteration pinv pre)) ! k"
proof -
  let ?m = "self_m pre"
  let ?P = "\<lambda>i. sample_P (nr_g pre) (self_u pre ! i)"
  have m: "0 < ?m" by (rule wf_m[OF wf])
  have Pm: "\<And>i. i < ?m \<Longrightarrow> is_mat ?m (self_n pre ! i) (?P i)"
    by (rule is_mat_sample_P[OF length_nr_g[OF wf] wf_u[OF wf] m])
  have "0 < (\<Sum>i<?m. self_pi pre ! i * mean1 (?P i) ! k)"
  proof (rule sum_pos)
    show "finite {..<?m}" by simp
    show "{..<?m} \<noteq> {}" using m by auto
    fix i assume "i \<in> {..<?m}"
    then have i: "i < ?m" by simp
    have n: "0 < self_n pre ! i" by (rule wf_n[OF wf i])
    have lk: "length (?P i ! k) = self_n pre ! i" by (rule is_mat_nth[OF Pm[OF i] k])
    have "0 < sum_list (?P i ! k)"
    proof (rule sum_list_pos)
      show "?P i ! k \<noteq> []" using lk n by auto
      fix x assume "x \<in> set (?P i ! k)"
      then obtain t where "t < self_n pre ! i" "x = ?P i ! k ! t"
        using lk by (auto simp: in_set_conv_nth)
      then show "0 < x"
        using sample_P_nonneg[OF length_nr_g[OF wf] wf_u[OF wf i] m k] by simp
    qed
    then have "0 < mean1 (?P i) ! k"
      using k n lk is_mat_length[OF Pm[OF i]] by (simp add: nth_mean1)
    then show "0 < self_pi pre ! i * mean1 (?P i) ! k" using pos[OF i] by simp
  qed
  then show ?thesis by (simp only: p0_nth[OF wf k])
qed

lemma iw0_at_state_potential:
  assumes wf: "wf_mixture pre" and k: "k < self_m pre"
    and s: "s = MICS_finish cov (snd (newton_raphson_iteration pinv pre))"
    and u: "u = map (\<lambda>U. [U ! k]) (self_u s)"
  shows "rw_iw0 s u = 1 / (exp (- nr_g pre ! k) * self_p0 s ! k)"
proof -
  let ?m = "self_m pre"
  let ?c = "exp (- nr_g pre ! k)"
  let ?P = "\<lambda>i. sample_P (nr_g pre) (self_u pre ! i)"
  have m: "0 < ?m" by (rule wf_m[OF wf])
  have sm: "self_m s = ?m" "self_pi s = self_pi pre" "self_u s = self_u pre"
    "self_p0 s = self_p0 (snd (newton_raphson_iteration pinv pre))"
    by (simp_all add: s MICS_finish_fields nri_fields)
  have lu: "length (self_u pre) = ?m" using wf by (simp add: wf_mixture_def)
  have Pm: "\<And>i. i < ?m \<Longrightarrow> is_mat ?m (self_n pre ! i) (?P i)"
    by (rule is_mat_sample_P[OF length_nr_g[OF wf] wf_u[OF wf] m])
  have w: "\<And>i. i < ?m \<Longrightarrow> rw_w s u ! i = [map (\<lambda>v. v * ?c) (?P i ! k)]"
  proof -
    fix i assume i: "i < ?m"
    have "rw_w s u ! i = weights (self_u0 s ! i) (u ! i)" using i by (simp add: rw_w_def sm)
    also have "u ! i = [self_u pre ! i ! k]" using i lu by (simp add: u sm)
    also have "self_u0 s ! i = sample_u0 (nr_g pre) (self_u pre ! i)"
      unfolding s by (rule returned_state_parts(1)[OF wf i])
    finally show "rw_w s u ! i = [map (\<lambda>v. v * ?c) (?P i ! k)]"
      by (simp only: weights_of_state_potential[OF length_nr_g[OF wf] wf_u[OF wf i] m k])
  qed
  have mw: "\<And>i. i < ?m \<Longrightarrow> mean1 (rw_w s u ! i) = [?c * mean1 (?P i) ! k]"
  proof -
    fix i assume i: "i < ?m"
    have "mean1 (?P i) ! k = sum_list (?P i ! k) / real (length (?P i ! k))"
      using k is_mat_length[OF Pm[OF i]] by (simp add: nth_mean1)
    then show "mean1 (rw_w s u ! i) = [?c * mean1 (?P i) ! k]"
      unfolding w[OF i] by (simp add: mean1_def sum_list_map_mult_right)
  qed
  let ?vs = "map (\<lambda>i. vscale (self_pi s ! i) (mean1 (rw_w s u ! i))) [0..<self_m s]"
  have vs: "?vs = map (\<lambda>i. [self_pi pre ! i * (?c * mean1 (?P i) ! k)]) [0..<?m]"
    unfolding sm by (rule map_cong[OF refl]) (simp add: mw vscale_def)
  have "py_sum_vec ?vs ! 0 = sum_list (map (\<lambda>w. w ! 0) ?vs)"
    unfolding vs using m by (intro nth_py_sum_vec[where L = 1]) auto
  also have "\<dots> = sum_list (map (\<lambda>i. self_pi pre ! i * (?c * mean1 (?P i) ! k)) [0..<?m])"
    unfolding vs by (simp add: comp_def)
  also have "\<dots> = (\<Sum>i<?m. self_pi pre ! i * (?c * mean1 (?P i) ! k))"
    by (rule sum_list_upt_sum)
  also have "\<dots> = ?c * (\<Sum>i<?m. self_pi pre ! i * mean1 (?P i) ! k)"
    by (simp add: sum_distrib_left mult.left_commute)
  also have "(\<Sum>i<?m. self_pi pre ! i * mean1 (?P i) ! k) = self_p0 s ! k"
    unfolding sm by (rule p0_nth[OF wf k, symmetric])
  finally show ?thesis by (simp add: rw_iw0_def)
qed


lemma nth_nr_g: "wf_mixture pre \<Longrightarrow> k < self_m pre \<Longrightarrow>
    nr_g pre ! k = self_f pre ! k + ln (self_pi pre ! k)"
  by (simp add: nr_g_def wf_mixture_def)

lemma reweight_value_at_sampled_state:
  assumes wf: "wf_mixture pre" and ps: "pinv_shape pinv" and cs: "cov_shape cov"
    and s: "s = MICS_finish cov (snd (newton_raphson_iteration pinv pre))"
    and k: "k < self_m s" and r: "r < self_m s"
    and u: "u = map (\<lambda>U. [U ! k]) (self_u s)"
    and pos: "\<And>i. i < self_m s \<Longrightarrow> 0 < self_pi s ! i"
  shows "\<exists>vals Theta. MICS_reweight ccov cov s u y (int r) = Inr (vals, Theta) \<and>
           vals ! 0 = self_f s ! k - self_f s ! r + ln (self_pi s ! k / self_p0 s ! k)"
proof -
  have sm: "self_m s = self_m pre" "self_pi s = self_pi pre" "self_f s = self_f pre"
    "self_p0 s = self_p0 (snd (newton_raphson_iteration pinv pre))"
    by (simp_all add: s MICS_finish_fields nri_fields)
  have wc: "wf_converged s" unfolding s by (rule wf_converged_finish[OF wf ps cs])
  have lp: "length (rw_pu s u) = self_m s" by (rule rw_pu_length[OF wc])
  have lf: "length (self_f s) = self_m s" using wc by (simp add: wf_converged_def)
  have k': "k < self_m pre" using k by (simp add: sm)
  have p0: "0 < self_p0 s ! k"
    unfolding sm using pos by (intro p0_positive[OF wf k']) (simp add: sm)
  have pk: "0 < self_pi s ! k" by (rule pos[OF k])
  let ?c = "exp (- nr_g pre ! k)"
  have "ln (rw_iw0 s u) = ln (1 / (?c * self_p0 s ! k))"
    by (simp only: iw0_at_state_potential[OF wf k' s u])
  also have "\<dots> = - ln (?c * self_p0 s ! k)" by (simp add: ln_div)
  also have "\<dots> = - (ln ?c + ln (self_p0 s ! k))" using p0 by (simp add: ln_mult)
  also have "\<dots> = nr_g pre ! k - ln (self_p0 s ! k)" by simp
  also have "\<dots> = self_f s ! k + (ln (self_pi s ! k) - ln (self_p0 s ! k))"
    by (simp add: nth_nr_g[OF wf k'] sm)
  also have "ln (self_pi s ! k) - ln (self_p0 s ! k) = ln (self_pi s ! k / self_p0 s ! k)"
    using p0 pk by (simp add: ln_div)
  finally have v: "ln (rw_iw0 s u) - self_f s ! r
      = self_f s ! k - self_f s ! r + ln (self_pi s ! k / self_p0 s ! k)" by simp
  show ?thesis
    using r v by (simp add: reweight_unfold lp lf py_index_nat)
qed

end
